(* ===== verification/Orcm_Prelude.thy ===== *)
theory Orcm_Prelude
  imports Main "HOL-Library.Word"
begin

text \<open>
  Shared vocabulary of the development: the return codes of
  \<^verbatim>\<open>opal/include/opal/constants.h\<close>, the outcomes a C call can have besides them
  (undefined behaviour, an endless loop), the conversions between the C integer types
  the sources use, and generic facts on lists and options that several components need.
\<close>

section \<open>Return codes\<close>

text \<open>
  \<^verbatim>\<open>OPAL_SUCCESS\<close> is the right-hand side of a sum (or \<open>None\<close> where only the code
  is returned).  The last two constructors are no return codes: \<open>C_UNDEFINED\<close> marks
  an execution to which C gives no meaning (an access outside an object, a signed overflow,
  a null dereference), \<open>C_DIVERGES\<close> a loop of the source that does not end.
\<close>

datatype opal_err =
    OPAL_ERROR
  | OPAL_ERR_OUT_OF_RESOURCE
  | OPAL_ERR_BAD_PARAM
  | OPAL_ERR_NOT_SUPPORTED
  | OPAL_ERR_UNREACH
  | OPAL_ERR_NOT_FOUND
  | OPAL_ERR_PACK_MISMATCH
  | OPAL_ERR_PACK_FAILURE
  | OPAL_ERR_UNPACK_FAILURE
  | OPAL_ERR_UNPACK_INADEQUATE_SPACE
  | OPAL_ERR_UNPACK_READ_PAST_END_OF_BUFFER
  | OPAL_ERR_TYPE_MISMATCH
  | OPAL_ERR_UNKNOWN_DATA_TYPE
  | OPAL_ERR_BUFFER
  | OPAL_ERR_DATA_TYPE_REDEF
  | OPAL_ERR_COMM_FAILURE
  | C_UNDEFINED
  | C_DIVERGES

fun opal_err_code :: "opal_err \<Rightarrow> int" where
  "opal_err_code OPAL_ERROR = -1"
| "opal_err_code OPAL_ERR_OUT_OF_RESOURCE = -2"
| "opal_err_code OPAL_ERR_BAD_PARAM = -5"
| "opal_err_code OPAL_ERR_NOT_SUPPORTED = -8"
| "opal_err_code OPAL_ERR_UNREACH = -12"
| "opal_err_code OPAL_ERR_NOT_FOUND = -13"
| "opal_err_code OPAL_ERR_PACK_MISMATCH = -22"
| "opal_err_code OPAL_ERR_PACK_FAILURE = -23"
| "opal_err_code OPAL_ERR_UNPACK_FAILURE = -24"
| "opal_err_code OPAL_ERR_UNPACK_INADEQUATE_SPACE = -25"
| "opal_err_code OPAL_ERR_UNPACK_READ_PAST_END_OF_BUFFER = -26"
| "opal_err_code OPAL_ERR_TYPE_MISMATCH = -27"
| "opal_err_code OPAL_ERR_UNKNOWN_DATA_TYPE = -29"
| "opal_err_code OPAL_ERR_BUFFER = -30"
| "opal_err_code OPAL_ERR_DATA_TYPE_REDEF = -31"
| "opal_err_code OPAL_ERR_COMM_FAILURE = -51"
| "opal_err_code C_UNDEFINED = -1000"
| "opal_err_code C_DIVERGES = -1001"

definition rc_code :: "opal_err option \<Rightarrow> int" where
  "rc_code rc = (case rc of None \<Rightarrow> 0 | Some e \<Rightarrow> opal_err_code e)"

text \<open>A call whose failure makes the caller return the same code.\<close>

definition err_bind :: "opal_err + 'a \<Rightarrow> ('a \<Rightarrow> opal_err + 'b) \<Rightarrow> opal_err + 'b" where
  "err_bind m f = (case m of Inl e \<Rightarrow> Inl e | Inr x \<Rightarrow> f x)"

lemma err_bind_simps [simp]: "err_bind (Inl e) f = Inl e" "err_bind (Inr x) f = f x"
  by (simp_all add: err_bind_def)

section \<open>C integers\<close>

type_synonym u8 = "8 word"
type_synonym u16 = "16 word"
type_synonym u32 = "32 word"
type_synonym u64 = "64 word"

definition INT_MAX :: int where
  "INT_MAX = 2147483647"

definition INT_MIN :: int where
  "INT_MIN = - 2147483648"

text \<open>The value of an \<^verbatim>\<open>int\<close> converted to \<^verbatim>\<open>size_t\<close> (64 bit).\<close>

definition to_size_t :: "int \<Rightarrow> nat" where
  "to_size_t i = nat (i mod 2 ^ 64)"

text \<open>\<^verbatim>\<open>size_t\<close> addition and multiplication wrap.\<close>

definition sz_add :: "nat \<Rightarrow> nat \<Rightarrow> nat" where
  "sz_add a b = (a + b) mod 2 ^ 64"

definition sz_mul :: "nat \<Rightarrow> nat \<Rightarrow> nat" where
  "sz_mul a b = (a * b) mod 2 ^ 64"

text \<open>C division truncates towards zero.\<close>

definition c_div :: "int \<Rightarrow> int \<Rightarrow> int" where
  "c_div a b = sgn a * sgn b * (\<bar>a\<bar> div \<bar>b\<bar>)"

definition c_int32 :: "int \<Rightarrow> int" where
  "c_int32 i = (i + 2 ^ 31) mod 2 ^ 32 - 2 ^ 31"

lemma c_int32_id [simp]: "- (2 ^ 31) \<le> i \<Longrightarrow> i < 2 ^ 31 \<Longrightarrow> c_int32 i = i"
  by (simp add: c_int32_def)

lemma to_size_t_id [simp]: "0 \<le> i \<Longrightarrow> i < 2 ^ 64 \<Longrightarrow> to_size_t i = nat i"
  by (simp add: to_size_t_def)

lemma to_size_t_neg:
  assumes "- (2 ^ 63) \<le> i" and "i < 0"
  shows "to_size_t i = nat (2 ^ 64 + i)" and "2 ^ 63 \<le> to_size_t i"
proof -
  have "i mod 2 ^ 64 = (i + 2 ^ 64) mod 2 ^ 64" by simp
  also have "\<dots> = i + 2 ^ 64"
    using assms by (intro mod_pos_pos_trivial) auto
  finally show "to_size_t i = nat (2 ^ 64 + i)"
    by (simp add: to_size_t_def add.commute)
  then show "2 ^ 63 \<le> to_size_t i" using assms by simp
qed

lemma sz_add_id [simp]: "a + b < 2 ^ 64 \<Longrightarrow> sz_add a b = a + b"
  by (simp add: sz_add_def)

lemma sz_mul_id [simp]: "a * b < 2 ^ 64 \<Longrightarrow> sz_mul a b = a * b"
  by (simp add: sz_mul_def)

lemma c_div_nonneg: "0 \<le> a \<Longrightarrow> 0 < b \<Longrightarrow> c_div a b = a div b"
  by (cases "a = 0") (auto simp: c_div_def sgn_if)

section \<open>Lists\<close>

text \<open>The first free slot of an array, searched from index \<open>i\<close> on.\<close>

fun find_null :: "'a option list \<Rightarrow> nat \<Rightarrow> nat option" where
  "find_null [] i = None"
| "find_null (None # xs) i = Some i"
| "find_null (Some x # xs) i = find_null xs (Suc i)"

definition count_null :: "'a option list \<Rightarrow> nat" where
  "count_null xs = length (filter (\<lambda>x. x = None) xs)"

lemma count_null_simps [simp]:
  "count_null [] = 0"
  "count_null (None # xs) = Suc (count_null xs)"
  "count_null (Some x # xs) = count_null xs"
  "count_null (xs @ ys) = count_null xs + count_null ys"
  "count_null (replicate n None) = n"
  by (simp_all add: count_null_def)

lemma count_null_le: "count_null xs \<le> length xs"
  by (simp add: count_null_def)

lemma find_null_None: "find_null xs i = None \<longleftrightarrow> count_null xs = 0"
  by (induction xs i rule: find_null.induct) auto

lemma find_null_append:
  "find_null (xs @ ys) i =
     (case find_null xs i of Some j \<Rightarrow> Some j | None \<Rightarrow> find_null ys (i + length xs))"
  by (induction xs i rule: find_null.induct) (auto split: option.splits)

lemma find_null_Some:
  "find_null xs i = Some j \<Longrightarrow>
     i \<le> j \<and> j < i + length xs \<and> xs ! (j - i) = None \<and> (\<forall>k < j - i. xs ! k \<noteq> None)"
proof (induction xs i rule: find_null.induct)
  case (3 x xs i)
  then have ih: "Suc i \<le> j \<and> j < Suc i + length xs \<and> xs ! (j - Suc i) = None
      \<and> (\<forall>k < j - Suc i. xs ! k \<noteq> None)" by simp
  then have "j - i = Suc (j - Suc i)" by arith
  moreover have "(Some x # xs) ! k \<noteq> None" if "k < j - i" for k
    using ih that by (cases k) auto
  ultimately show ?case using ih by simp
qed auto

lemma find_null_eqI:
  assumes "j < length xs" and "xs ! j = None" and "\<forall>k < j. xs ! k \<noteq> None"
  shows "find_null xs i = Some (i + j)"
  using assms
proof (induction xs i arbitrary: j rule: find_null.induct)
  case (1 i)
  then show ?case by simp
next
  case (2 xs i)
  then show ?case by (cases j) auto
next
  case (3 x xs i)
  then obtain j' where j: "j = Suc j'" by (cases j) auto
  have "\<forall>k < j'. xs ! k \<noteq> None"
    using 3(4) unfolding j by (metis Suc_less_eq nth_Cons_Suc)
  with 3 j have "find_null xs (Suc i) = Some (Suc i + j')" by simp
  with j show ?case by simp
qed

lemma find_null_skip:
  assumes "\<forall>k < n. xs ! k \<noteq> None" and "n \<le> length xs"
  shows "find_null xs i = find_null (drop n xs) (i + n)"
  using assms
proof (induction n arbitrary: xs i)
  case (Suc n)
  then obtain x xs' where xs: "xs = x # xs'" by (cases xs) auto
  from Suc.prems(1) have "xs ! 0 \<noteq> None" and tail: "\<forall>k < n. xs' ! k \<noteq> None"
    unfolding xs by (auto simp: nth_Cons' dest: spec [of _ "Suc _"])
  then obtain y where "x = Some y" unfolding xs by auto
  with Suc.IH [OF tail, of "Suc i"] Suc.prems(2) show ?case by (simp add: xs)
qed simp

text \<open>The index of the first free slot, the length when there is none.\<close>

definition first_free :: "'a option list \<Rightarrow> nat" where
  "first_free xs = (case find_null xs 0 of Some i \<Rightarrow> i | None \<Rightarrow> length xs)"

lemma first_free_le: "first_free xs \<le> length xs"
  by (auto simp: first_free_def split: option.split dest: find_null_Some)

lemma first_free_less_iff: "first_free xs < length xs \<longleftrightarrow> 0 < count_null xs"
proof (cases "find_null xs 0")
  case None
  then show ?thesis using find_null_None [of xs 0] by (simp add: first_free_def)
next
  case (Some i)
  then have "0 < count_null xs" using find_null_None [of xs 0] by simp
  with Some show ?thesis by (auto simp: first_free_def dest: find_null_Some)
qed

lemma first_free_null: "first_free xs < length xs \<Longrightarrow> xs ! first_free xs = None"
  by (auto simp: first_free_def split: option.splits dest: find_null_Some)

lemma before_first_free: "k < first_free xs \<Longrightarrow> xs ! k \<noteq> None"
proof (cases "find_null xs 0")
  case None
  assume "k < first_free xs"
  then have "k < length xs" using None by (simp add: first_free_def)
  moreover have "filter (\<lambda>x. x = None) xs = []"
    using None find_null_None [of xs 0] by (simp add: count_null_def)
  ultimately show ?thesis by (auto simp: filter_empty_conv)
next
  case (Some i)
  moreover assume "k < first_free xs"
  ultimately show ?thesis by (auto simp: first_free_def dest: find_null_Some)
qed

lemma first_free_eqI:
  assumes "n \<le> length xs" and "\<forall>k < n. xs ! k \<noteq> None" and "n < length xs \<Longrightarrow> xs ! n = None"
  shows "first_free xs = n"
proof (cases "n < length xs")
  case True
  with assms have "find_null xs 0 = Some n" using find_null_eqI [of n xs 0] by simp
  then show ?thesis by (simp add: first_free_def)
next
  case False
  with assms(1,2) have "find_null xs 0 = find_null [] n"
    using find_null_skip [of n xs 0] by simp
  with False assms(1) show ?thesis by (simp add: first_free_def)
qed

lemma first_free_append_nulls: "first_free (xs @ replicate n None) = first_free xs"
proof (rule first_free_eqI)
  show "first_free xs \<le> length (xs @ replicate n None)" using first_free_le [of xs] by simp
  show "\<forall>k < first_free xs. (xs @ replicate n None) ! k \<noteq> None"
    using first_free_le [of xs] by (auto simp: nth_append dest: before_first_free)
  show "(xs @ replicate n None) ! first_free xs = None"
    if "first_free xs < length (xs @ replicate n None)"
    using that first_free_null [of xs] first_free_le [of xs] by (auto simp: nth_append)
qed

lemma first_free_scan:
  assumes "n \<le> length xs" and "\<forall>k < n. xs ! k \<noteq> None"
  shows "first_free xs = (case find_null (drop n xs) n of Some i \<Rightarrow> i | None \<Rightarrow> length xs)"
  using find_null_skip [OF assms(2,1), of 0] by (simp add: first_free_def)

lemma first_free_fill:
  assumes "i < length xs" and "i = first_free xs"
  shows "first_free (xs[i := Some v]) =
           (case find_null (drop (Suc i) xs) (Suc i) of Some j \<Rightarrow> j | None \<Rightarrow> length xs)"
proof -
  have "\<forall>k < Suc i. xs[i := Some v] ! k \<noteq> None"
    using assms by (auto simp: nth_list_update less_Suc_eq dest: before_first_free)
  then show ?thesis
    using first_free_scan [of "Suc i" "xs[i := Some v]"] assms(1) by (simp split: option.split)
qed

lemma first_free_fill_other:
  assumes "i < length xs" and "i \<noteq> first_free xs"
  shows "first_free (xs[i := Some v]) = first_free xs"
  using assms first_free_le [of xs] first_free_null [of xs]
  by (intro first_free_eqI) (auto simp: nth_list_update dest: before_first_free)

lemma first_free_clear:
  assumes "i < length xs"
  shows "first_free (xs[i := None]) = min i (first_free xs)"
proof (rule first_free_eqI)
  show "\<forall>k < min i (first_free xs). xs[i := None] ! k \<noteq> None"
    by (auto simp: nth_list_update dest: before_first_free)
  show "xs[i := None] ! min i (first_free xs) = None"
    if "min i (first_free xs) < length (xs[i := None])"
    using that assms first_free_null [of xs] by (auto simp: nth_list_update min_def)
qed (use assms first_free_le [of xs] in \<open>auto simp: min_def\<close>)

lemma count_null_update:
  assumes "i < length xs"
  shows "count_null (xs[i := v]) + (if xs ! i = None then 1 else 0)
       = count_null xs + (if v = None then 1 else 0)"
  using assms
proof (induction xs arbitrary: i)
  case (Cons x xs)
  then show ?case
    by (cases i; cases x; cases v) (auto split: if_splits)
qed simp

text \<open>\<^verbatim>\<open>realloc\<close> of an array to \<open>n\<close> slots, the new ones set to null.\<close>

definition resize :: "nat \<Rightarrow> 'a option list \<Rightarrow> 'a option list" where
  "resize n xs = take n xs @ replicate (n - length xs) None"

lemma length_resize [simp]: "length (resize n xs) = n"
  by (simp add: resize_def)

lemma resize_grow: "length xs \<le> n \<Longrightarrow> resize n xs = xs @ replicate (n - length xs) None"
  by (simp add: resize_def)

end
