(* ===== verification/Dss_Buffer.thy ===== *)
theory Dss_Buffer
  imports Orcm_Prelude
begin

text \<open>
  The buffers of the data storage service: \<^verbatim>\<open>opal_buffer_t\<close> with the operations
  of \<^verbatim>\<open>opal/dss/dss_internal_functions.c\<close> and the buffer part of
  \<^verbatim>\<open>dss_load_unload.c\<close>.  A buffer is a growing byte array with a pack and an
  unpack position; its contract is that packing appends to the contents and unpacking
  consumes a prefix of what has not been read.
\<close>

section \<open>State\<close>

datatype buffer_type = OPAL_DSS_BUFFER_NON_DESC | OPAL_DSS_BUFFER_FULLY_DESC

text \<open>
  The globals the service reads (MCA variables fixed at start-up) and the C heap:
  \<open>heap_grants n\<close> says whether an allocation of \<open>n\<close> bytes succeeds, and
  \<open>new_grants c\<close> whether \<^verbatim>\<open>OBJ_NEW\<close> of an object of class \<open>c\<close> does;
  \<open>fmt_float\<close> to \<open>str_double\<close> are the C library's conversions between a
  floating point number (given by its bits) and its decimal text.
\<close>

record dss_env =
  opal_dss_initial_size :: int
  opal_dss_threshold_size :: int
  default_buf_type :: buffer_type
  heap_grants :: "nat \<Rightarrow> bool"
  new_grants :: "string \<Rightarrow> bool"
  fmt_float :: "u32 \<Rightarrow> string"
  str_float :: "string \<Rightarrow> u32"
  fmt_double :: "u64 \<Rightarrow> string"
  str_double :: "string \<Rightarrow> u64"

text \<open>No object is larger than \<^verbatim>\<open>PTRDIFF_MAX\<close> bytes.\<close>

definition c_alloc_ok :: "dss_env \<Rightarrow> nat \<Rightarrow> bool" where
  "c_alloc_ok env n \<longleftrightarrow> n < 2 ^ 63 \<and> heap_grants env n"

text \<open>
  \<^verbatim>\<open>pack_ptr\<close> and \<^verbatim>\<open>unpack_ptr\<close> are offsets into \<open>block\<close>, the memory they
  point into (\<open>None\<close> when they are null).  \<^verbatim>\<open>base_ptr\<close> points to the start of that
  block or is null; the two differ after a failed \<^verbatim>\<open>realloc\<close>, which nulls
  \<^verbatim>\<open>base_ptr\<close> and leaves the block and the other two pointers as they were.
\<close>

record opal_buffer =
  buf_type :: buffer_type
  base_set :: bool
  block :: "u8 list option"
  pack_ptr :: nat
  unpack_ptr :: nat
  bytes_allocated :: nat
  bytes_used :: nat

definition opal_buffer_construct :: "dss_env \<Rightarrow> opal_buffer" where
  "opal_buffer_construct env =
     \<lparr>buf_type = default_buf_type env, base_set = False, block = None, pack_ptr = 0,
      unpack_ptr = 0, bytes_allocated = 0, bytes_used = 0\<rparr>"

abbreviation mem :: "opal_buffer \<Rightarrow> u8 list" where
  "mem b \<equiv> (case block b of None \<Rightarrow> [] | Some m \<Rightarrow> m)"

text \<open>
  A call that works on a buffer returns an error code or a value, and the buffer it leaves.
\<close>

type_synonym 'a dss = "opal_buffer \<Rightarrow> (opal_err + 'a) \<times> opal_buffer"

definition dss_return :: "'a \<Rightarrow> 'a dss" where
  "dss_return x = (\<lambda>b. (Inr x, b))"

definition dss_fail :: "opal_err \<Rightarrow> 'a dss" where
  "dss_fail e = (\<lambda>b. (Inl e, b))"

definition dss_bind :: "'a dss \<Rightarrow> ('a \<Rightarrow> 'c dss) \<Rightarrow> 'c dss" where
  "dss_bind m f = (\<lambda>b. case m b of (Inl e, b') \<Rightarrow> (Inl e, b') | (Inr x, b') \<Rightarrow> f x b')"

text \<open>Calls in sequence, each only if the one before returned success.\<close>

fun dss_seq :: "unit dss list \<Rightarrow> unit dss" where
  "dss_seq [] = dss_return ()"
| "dss_seq (m # ms) = dss_bind m (\<lambda>_. dss_seq ms)"

text \<open>The loop \<^verbatim>\<open>for (i = 0; i < n; ++i)\<close> that fills an array of \<open>n\<close> values.\<close>

fun dss_repeat :: "nat \<Rightarrow> 'a dss \<Rightarrow> 'a list dss" where
  "dss_repeat 0 m = dss_return []"
| "dss_repeat (Suc n) m = dss_bind m (\<lambda>x. dss_bind (dss_repeat n m) (\<lambda>xs. dss_return (x # xs)))"

section \<open>Growing a buffer\<close>

text \<open>
  The loop \<^verbatim>\<open>while (to_alloc < required) to_alloc <<= 1\<close> on \<^verbatim>\<open>size_t\<close>.
  Sixty-four doublings shift any value to zero, from where the loop never ends: 65 rounds
  decide it, and \<open>None\<close> is the endless loop.
\<close>

fun double_until :: "nat \<Rightarrow> nat \<Rightarrow> nat \<Rightarrow> nat option" where
  "double_until 0 a required = None"
| "double_until (Suc k) a required =
     (if required \<le> a then Some a else double_until k ((2 * a) mod 2 ^ 64) required)"

definition mem_resize :: "nat \<Rightarrow> u8 list \<Rightarrow> u8 list" where
  "mem_resize n m = take n m @ replicate (n - length m) 0"

text \<open>The size that \<open>opal_dss_buffer_extend\<close> asks for.\<close>

definition extend_size :: "dss_env \<Rightarrow> opal_buffer \<Rightarrow> nat \<Rightarrow> opal_err + nat" where
  "extend_size env buffer required =
     (let threshold = to_size_t (opal_dss_threshold_size env)
      in if required \<ge> threshold then
           if threshold = 0 then Inl C_UNDEFINED
           else Inr (sz_mul (sz_add required (threshold - 1) div threshold) threshold)
         else
           case double_until 65 (if bytes_allocated buffer = 0
                                 then to_size_t (opal_dss_initial_size env)
                                 else bytes_allocated buffer) required of
             None \<Rightarrow> Inl C_DIVERGES
           | Some to_alloc \<Rightarrow> Inr to_alloc)"

text \<open>
  \<open>Inr ()\<close> stands for the returned \<^verbatim>\<open>pack_ptr\<close>; the null result, which every
  caller turns into \<^verbatim>\<open>OPAL_ERR_OUT_OF_RESOURCE\<close>, is that error here.  A call for no
  bytes on a buffer without memory returns the null \<^verbatim>\<open>pack_ptr\<close> it has.  New memory is
  zero in the model; nothing reads it before it is written.  Asking the allocator for zero
  bytes (possible only when the size computation wraps to zero) is left undefined.
\<close>

definition extend_alloc :: "dss_env \<Rightarrow> nat \<Rightarrow> unit dss" where
  "extend_alloc env to_alloc buffer =
     (if to_alloc = 0 then (Inl C_UNDEFINED, buffer)
      else if base_set buffer then
        if c_alloc_ok env to_alloc
        then (Inr (), buffer\<lparr>block := Some (mem_resize to_alloc (mem buffer)),
                             bytes_allocated := to_alloc\<rparr>)
        else (Inl OPAL_ERR_OUT_OF_RESOURCE, buffer\<lparr>base_set := False\<rparr>)
      else
        let buffer = buffer\<lparr>bytes_used := 0\<rparr>
        in if c_alloc_ok env to_alloc
           then (Inr (), buffer\<lparr>base_set := True, block := Some (mem_resize to_alloc []),
                                pack_ptr := 0, unpack_ptr := 0, bytes_allocated := to_alloc\<rparr>)
           else (Inl OPAL_ERR_OUT_OF_RESOURCE, buffer))"

definition opal_dss_buffer_extend :: "dss_env \<Rightarrow> nat \<Rightarrow> unit dss" where
  "opal_dss_buffer_extend env bytes_to_add buffer =
     (if to_size_t (int (bytes_allocated buffer) - int (bytes_used buffer)) \<ge> bytes_to_add
      then if block buffer = None then (Inl OPAL_ERR_OUT_OF_RESOURCE, buffer) else (Inr (), buffer)
      else
        case extend_size env buffer (sz_add (bytes_used buffer) bytes_to_add) of
          Inl e \<Rightarrow> (Inl e, buffer)
        | Inr to_alloc \<Rightarrow> extend_alloc env to_alloc buffer)"

definition opal_dss_too_small :: "opal_buffer \<Rightarrow> nat \<Rightarrow> bool" where
  "opal_dss_too_small buffer bytes_reqd \<longleftrightarrow>
     pack_ptr buffer < unpack_ptr buffer \<or> pack_ptr buffer - unpack_ptr buffer < bytes_reqd"

section \<open>Writing and reading bytes\<close>

text \<open>Copy the bytes to \<^verbatim>\<open>pack_ptr\<close> and advance: the end of every pack function.\<close>

definition store_bytes :: "u8 list \<Rightarrow> unit dss" where
  "store_bytes bs buffer =
     (let p = pack_ptr buffer
      in if block buffer \<noteq> None \<and> p + length bs \<le> length (mem buffer)
         then (Inr (), buffer\<lparr>block := Some (take p (mem buffer) @ bs @
                                             drop (p + length bs) (mem buffer)),
                              pack_ptr := p + length bs,
                              bytes_used := bytes_used buffer + length bs\<rparr>)
         else (Inl C_UNDEFINED, buffer))"

text \<open>
  Check that \<open>n\<close> bytes (a \<^verbatim>\<open>size_t\<close>) remain, copy them from \<^verbatim>\<open>unpack_ptr\<close>,
  advance: the start of every unpack function.
\<close>

definition dss_read :: "nat \<Rightarrow> u8 list dss" where
  "dss_read n buffer =
     (if opal_dss_too_small buffer n
      then (Inl OPAL_ERR_UNPACK_READ_PAST_END_OF_BUFFER, buffer)
      else if unpack_ptr buffer + n \<le> length (mem buffer)
           then (Inr (take n (drop (unpack_ptr buffer) (mem buffer))),
                 buffer\<lparr>unpack_ptr := unpack_ptr buffer + n\<rparr>)
           else (Inl C_UNDEFINED, buffer))"

section \<open>Load, unload, copy\<close>

text \<open>
  The payload is a memory block and its length, an \<^verbatim>\<open>int32_t\<close>; \<open>None\<close> is the null
  payload.  The checks for null arguments have no counterpart: the arguments are values here.
\<close>

definition opal_dss_unload :: "opal_buffer \<Rightarrow> (u8 list \<times> int) option \<times> opal_buffer" where
  "opal_dss_unload buffer =
     (if \<not> base_set buffer \<or> bytes_used buffer = 0 then (None, buffer)
      else (Some (mem buffer, c_int32 (int (bytes_used buffer))),
            buffer\<lparr>base_set := False, block := None, pack_ptr := 0, unpack_ptr := 0,
                   bytes_allocated := 0, bytes_used := 0\<rparr>))"

definition opal_dss_load :: "(u8 list \<times> int) option \<Rightarrow> unit dss" where
  "opal_dss_load payload buffer =
     (case payload of
        None \<Rightarrow> (Inr (), buffer\<lparr>base_set := False, block := None, pack_ptr := 0, unpack_ptr := 0,
                                bytes_used := 0, bytes_allocated := 0\<rparr>)
      | Some (m, n) \<Rightarrow>
          if n < 0 \<or> int (length m) < n then (Inl C_UNDEFINED, buffer)
          else (Inr (), buffer\<lparr>base_set := True, block := Some m, pack_ptr := nat n,
                               unpack_ptr := 0, bytes_allocated := nat n, bytes_used := nat n\<rparr>))"

definition opal_dss_copy_payload :: "dss_env \<Rightarrow> opal_buffer \<Rightarrow> unit dss" where
  "opal_dss_copy_payload env src dest =
     (if bytes_used dest \<noteq> 0 \<and> buf_type dest \<noteq> buf_type src then (Inl OPAL_ERR_BUFFER, dest)
      else
        let dest = dest\<lparr>buf_type := buf_type src\<rparr>;
            bytes_left = c_int32 (int (bytes_used src) - int (unpack_ptr src))
        in if base_set src \<noteq> (block src \<noteq> None) then (Inl C_UNDEFINED, dest)
           else if bytes_left = 0 then (Inr (), dest)
           else dss_bind (opal_dss_buffer_extend env (to_size_t bytes_left))
                  (\<lambda>_. if bytes_left < 0 \<or> length (mem src) < unpack_ptr src + nat bytes_left
                       then dss_fail C_UNDEFINED
                       else store_bytes (take (nat bytes_left) (drop (unpack_ptr src) (mem src))))
                  dest)"

section \<open>The contract of a buffer\<close>

definition buf_inv :: "opal_buffer \<Rightarrow> bool" where
  "buf_inv b \<longleftrightarrow>
     (base_set b \<longleftrightarrow> block b \<noteq> None) \<and> pack_ptr b = bytes_used b \<and>
     unpack_ptr b \<le> bytes_used b \<and> bytes_used b \<le> bytes_allocated b \<and>
     bytes_allocated b \<le> length (mem b) \<and> length (mem b) < 2 ^ 63"

text \<open>What has been packed, and what of it has not been unpacked.\<close>

definition contents :: "opal_buffer \<Rightarrow> u8 list" where
  "contents b = take (bytes_used b) (mem b)"

definition unread :: "opal_buffer \<Rightarrow> u8 list" where
  "unread b = drop (unpack_ptr b) (contents b)"

definition appended :: "opal_buffer \<Rightarrow> opal_buffer \<Rightarrow> u8 list \<Rightarrow> bool" where
  "appended b b' bs \<longleftrightarrow>
     buf_inv b' \<and> block b' \<noteq> None \<and> contents b' = contents b @ bs \<and>
     unpack_ptr b' = unpack_ptr b \<and> buf_type b' = buf_type b"

text \<open>An environment in which every allocation succeeds and the growth sizes are sensible.\<close>

definition env_ok :: "dss_env \<Rightarrow> bool" where
  "env_ok env \<longleftrightarrow>
     0 < opal_dss_initial_size env \<and> opal_dss_initial_size env \<le> INT_MAX \<and>
     0 < opal_dss_threshold_size env \<and> opal_dss_threshold_size env \<le> INT_MAX \<and>
     (\<forall>n. heap_grants env n) \<and> (\<forall>c. new_grants env c)"

definition roomy :: "dss_env \<Rightarrow> opal_buffer \<Rightarrow> nat \<Rightarrow> bool" where
  "roomy env b n \<longleftrightarrow> env_ok env \<and> bytes_used b + n < 2 ^ 62"

lemma buf_inv_construct [simp]: "buf_inv (opal_buffer_construct env)"
  by (simp add: buf_inv_def opal_buffer_construct_def)

lemma contents_construct [simp]: "contents (opal_buffer_construct env) = []"
  by (simp add: contents_def opal_buffer_construct_def)

lemma length_contents: "buf_inv b \<Longrightarrow> length (contents b) = bytes_used b"
  by (simp add: buf_inv_def contents_def)

lemma length_unread: "buf_inv b \<Longrightarrow> length (unread b) = bytes_used b - unpack_ptr b"
  by (simp add: unread_def length_contents)

lemma double_until_terminates:
  assumes "0 < a" "a < 2 ^ 63" "required \<le> 2 ^ k * a" "required < 2 ^ 62"
  shows "\<exists>r. double_until (Suc k) a required = Some r \<and> required \<le> r \<and> r < 2 ^ 63"
  using assms
proof (induction k arbitrary: a)
  case 0
  then show ?case by simp
next
  case (Suc k)
  show ?case
  proof (cases "required \<le> a")
    case True
    then show ?thesis using Suc.prems by simp
  next
    case False
    then have "2 * a < 2 ^ 63" using Suc.prems by simp
    moreover have "required \<le> 2 ^ k * (2 * a)" using Suc.prems by (simp add: mult.assoc mult.left_commute)
    ultimately show ?thesis using Suc.IH[of "2 * a"] Suc.prems False by simp
  qed
qed

lemma extend_size_roomy:
  assumes ok: "env_ok env" and small: "required < 2 ^ 62"
    and alloc: "bytes_allocated b < 2 ^ 63"
  shows "\<exists>r. extend_size env b required = Inr r \<and> required \<le> r \<and> r < 2 ^ 63"
proof -
  obtain i where i: "opal_dss_initial_size env = int i" "0 < i" "i < 2 ^ 31"
    using ok by (auto simp: env_ok_def INT_MAX_def dest!: zero_less_imp_eq_int)
  obtain thr where t: "opal_dss_threshold_size env = int thr" "0 < thr" "thr < 2 ^ 31"
    using ok by (auto simp: env_ok_def INT_MAX_def dest!: zero_less_imp_eq_int)
  show ?thesis
  proof (cases "thr \<le> required")
    case True
    define q where "q = (required + (thr - 1)) div thr"
    have "q * thr \<le> required + (thr - 1)" unfolding q_def by simp
    moreover have "required \<le> q * thr"
    proof -
      have "required + (thr - 1) = q * thr + (required + (thr - 1)) mod thr" by (simp add: q_def)
      moreover have "(required + (thr - 1)) mod thr < thr" using t by simp
      ultimately show ?thesis using t by linarith
    qed
    moreover have "extend_size env b required = Inr (sz_mul q thr)"
    proof -
      have "(required + thr - Suc 0) div thr = q" using t by (simp add: q_def)
      then show ?thesis using True t small by (simp add: extend_size_def)
    qed
    ultimately show ?thesis using t small by simp
  next
    case False
    define a where "a = (if bytes_allocated b = 0 then i else bytes_allocated b)"
    have a: "0 < a" "a < 2 ^ 63" using i alloc by (auto simp: a_def)
    have "required \<le> 2 ^ 64 * a"
    proof -
      have "2 ^ 64 * 1 \<le> 2 ^ 64 * a" using a by (intro mult_le_mono) auto
      then show ?thesis using small by simp
    qed
    then obtain r where "double_until (Suc 64) a required = Some r" "required \<le> r" "r < 2 ^ 63"
      using double_until_terminates[OF a _ small] by blast
    moreover have "(if bytes_allocated b = 0 then to_size_t (opal_dss_initial_size env)
                    else bytes_allocated b) = a" using i by (simp add: a_def)
    ultimately show ?thesis using False t
      by (simp add: extend_size_def del: double_until.simps)
  qed
qed

text \<open>
  A successful extension changes nothing a client can see.  It fails, in a roomy buffer, only
  when no byte is asked for and there is no memory yet.
\<close>

definition extended :: "opal_buffer \<Rightarrow> opal_buffer \<Rightarrow> nat \<Rightarrow> bool" where
  "extended b b' n \<longleftrightarrow>
     base_set b' \<and> block b' \<noteq> None \<and> pack_ptr b' = pack_ptr b \<and> unpack_ptr b' = unpack_ptr b \<and>
     bytes_used b' = bytes_used b \<and> buf_type b' = buf_type b \<and> length (mem b') < 2 ^ 63 \<and>
     bytes_allocated b' \<le> length (mem b') \<and>
     (bytes_used b + n \<le> length (mem b') \<longrightarrow>
        bytes_used b + n \<le> bytes_allocated b' \<and> contents b' = contents b)"

lemma length_mem_resize [simp]: "length (mem_resize n m) = n"
  by (simp add: mem_resize_def)

lemma take_mem_resize: "k \<le> n \<Longrightarrow> k \<le> length m \<Longrightarrow> take k (mem_resize n m) = take k m"
  by (simp add: mem_resize_def min_def)

lemma extend_alloc_extended:
  assumes "buf_inv b" "extend_alloc env r b = (Inr u, b')"
  shows "extended b b' n"
  using assms
  by (cases "base_set b")
     (auto simp: extend_alloc_def extended_def buf_inv_def contents_def c_alloc_ok_def Let_def
        take_mem_resize split: if_splits)

lemma extend_extended:
  assumes inv: "buf_inv b" and ext: "opal_dss_buffer_extend env n b = (Inr u, b')"
  shows "extended b b' n"
proof (cases "to_size_t (int (bytes_allocated b) - int (bytes_used b)) \<ge> n")
  case True
  then show ?thesis using inv ext
    by (auto simp: opal_dss_buffer_extend_def extended_def buf_inv_def split: if_splits)
next
  case False
  then show ?thesis using ext extend_alloc_extended[OF inv]
    by (auto simp: opal_dss_buffer_extend_def split: sum.splits)
qed

lemma extend_succeeds:
  assumes inv: "buf_inv b" and room: "roomy env b n" and nn: "block b \<noteq> None \<or> 0 < n"
  shows "\<exists>b'. opal_dss_buffer_extend env n b = (Inr (), b') \<and> bytes_used b + n \<le> length (mem b')"
proof (cases "to_size_t (int (bytes_allocated b) - int (bytes_used b)) \<ge> n")
  case True
  moreover have "n \<le> bytes_allocated b - bytes_used b" using True inv by (simp add: buf_inv_def)
  moreover have "block b \<noteq> None" using inv nn calculation by (cases "block b") (auto simp: buf_inv_def)
  ultimately show ?thesis using inv
    by (auto simp: opal_dss_buffer_extend_def buf_inv_def)
next
  case False
  let ?required = "bytes_used b + n"
  have "sz_add (bytes_used b) n = ?required" using room by (simp add: roomy_def)
  moreover obtain r where r: "extend_size env b ?required = Inr r" "?required \<le> r" "r < 2 ^ 63"
    using extend_size_roomy[of env ?required b] room inv by (auto simp: roomy_def buf_inv_def)
  moreover have "0 < n" using False by linarith
  then have "0 < r" using r by linarith
  moreover have "c_alloc_ok env r" using r room by (simp add: c_alloc_ok_def roomy_def env_ok_def)
  moreover have "base_set b \<or> bytes_used b = 0" using inv by (auto simp: buf_inv_def)
  ultimately show ?thesis using False
    by (auto simp: opal_dss_buffer_extend_def extend_alloc_def Let_def)
qed

lemma store_bytes_appends:
  assumes inv: "buf_inv b" and ext: "extended b b1 (length bs)"
    and st: "store_bytes bs b1 = (Inr u, b')"
  shows "appended b b' bs"
proof -
  obtain m where m: "block b1 = Some m" using ext by (auto simp: extended_def)
  have p: "pack_ptr b1 = bytes_used b" using inv ext by (simp add: buf_inv_def extended_def)
  have room: "bytes_used b + length bs \<le> length m"
    and b': "b' = b1\<lparr>block := Some (take (bytes_used b) m @ bs @ drop (bytes_used b + length bs) m),
                     pack_ptr := bytes_used b + length bs,
                     bytes_used := bytes_used b1 + length bs\<rparr>"
    using st p m by (auto simp: store_bytes_def Let_def split: if_splits)
  then show ?thesis using inv ext m
    by (auto simp: appended_def extended_def buf_inv_def contents_def)
qed

section \<open>Reasoning about packing and unpacking\<close>

text \<open>
  \<open>packs env nn t p bs\<close>: on every buffer of type \<open>t\<close> (with memory, when \<open>nn\<close> is
  set), \<open>p\<close> appends \<open>bs\<close>, or fails because the buffer has no room for them.
  \<open>reads env t u x bs\<close>: where the unread part starts with \<open>bs\<close>, \<open>u\<close> consumes
  them and returns \<open>x\<close>, given that allocations succeed.
\<close>

definition packs :: "dss_env \<Rightarrow> bool \<Rightarrow> buffer_type \<Rightarrow> unit dss \<Rightarrow> u8 list \<Rightarrow> bool" where
  "packs env nn t p bs \<longleftrightarrow>
     (\<forall>b. buf_inv b \<longrightarrow> buf_type b = t \<longrightarrow> (nn \<longrightarrow> block b \<noteq> None) \<longrightarrow>
        (case p b of (Inr _, b') \<Rightarrow> appended b b' bs | (Inl _, _) \<Rightarrow> \<not> roomy env b (length bs)))"

definition reads :: "dss_env \<Rightarrow> buffer_type \<Rightarrow> 'a dss \<Rightarrow> 'a \<Rightarrow> u8 list \<Rightarrow> bool" where
  "reads env t u x bs \<longleftrightarrow>
     (\<forall>b rest. env_ok env \<longrightarrow> buf_inv b \<longrightarrow> buf_type b = t \<longrightarrow> unread b = bs @ rest \<longrightarrow>
        u b = (Inr x, b\<lparr>unpack_ptr := unpack_ptr b + length bs\<rparr>))"

named_theorems dss_rules

lemma packsD:
  assumes "packs env nn t p bs" "buf_inv b" "buf_type b = t" "nn \<Longrightarrow> block b \<noteq> None"
  shows "p b = (Inr u, b') \<Longrightarrow> appended b b' bs"
    and "p b = (Inl e, b') \<Longrightarrow> \<not> roomy env b (length bs)"
  using assms by (auto simp: packs_def dest!: spec[of _ b])

lemma packs_total:
  assumes "packs env nn t p bs" "buf_inv b" "buf_type b = t" "nn \<Longrightarrow> block b \<noteq> None"
    "roomy env b (length bs)"
  obtains b' where "p b = (Inr (), b')" "appended b b' bs"
proof (cases "p b")
  case (Pair r b')
  then show ?thesis using packsD[OF assms(1-4)] assms(5) that by (cases r) auto
qed

lemma packs_weaken: "packs env False t p bs \<Longrightarrow> packs env nn t p bs"
  by (auto simp: packs_def)

lemma bytes_used_appended:
  "appended b b' bs \<Longrightarrow> buf_inv b \<Longrightarrow> bytes_used b' = bytes_used b + length bs"
  using length_contents[of b'] length_contents[of b] by (auto simp: appended_def)

lemma packs_bind [dss_rules]:
  assumes p: "packs env nn t p bs" and q: "packs env True t (q ()) bs'"
  shows "packs env nn t (dss_bind p q) (bs @ bs')"
  unfolding packs_def
proof (intro allI impI)
  fix b assume b: "buf_inv b" "buf_type b = t" "nn \<longrightarrow> block b \<noteq> None"
  obtain r b1 where pb: "p b = (r, b1)" by fastforce
  show "case dss_bind p q b of (Inr _, b') \<Rightarrow> appended b b' (bs @ bs')
          | (Inl _, _) \<Rightarrow> \<not> roomy env b (length (bs @ bs'))"
  proof (cases r)
    case (Inl e)
    then have "\<not> roomy env b (length bs)" using packsD(2)[OF p b(1,2)] b(3) pb by blast
    then show ?thesis using Inl pb by (auto simp: dss_bind_def roomy_def)
  next
    case (Inr u)
    then have app: "appended b b1 bs" using packsD(1)[OF p b(1,2)] b(3) pb by blast
    then have b1: "buf_inv b1" "buf_type b1 = t" "block b1 \<noteq> None"
      using b by (auto simp: appended_def)
    obtain r' b2 where qb: "q () b1 = (r', b2)" by fastforce
    show ?thesis
    proof (cases r')
      case (Inl e)
      then have "\<not> roomy env b1 (length bs')" using packsD(2)[OF q b1(1,2)] b1(3) qb by blast
      then show ?thesis using Inl Inr pb qb bytes_used_appended[OF app b(1)]
        by (simp add: dss_bind_def roomy_def add.assoc)
    next
      case (Inr u')
      then have "appended b1 b2 bs'" using packsD(1)[OF q b1(1,2)] b1(3) qb by blast
      then show ?thesis using Inr \<open>r = Inr u\<close> pb qb app by (auto simp: dss_bind_def appended_def)
    qed
  qed
qed

lemma packs_return [dss_rules]: "packs env True t (dss_return ()) []"
  by (auto simp: packs_def dss_return_def appended_def)

lemma reads_bind [dss_rules]:
  assumes u: "reads env t u x bs" and v: "reads env t (v x) y bs'"
  shows "reads env t (dss_bind u v) y (bs @ bs')"
  unfolding reads_def
proof (intro allI impI)
  fix b rest assume b: "env_ok env" "buf_inv b" "buf_type b = t" "unread b = (bs @ bs') @ rest"
  let ?b1 = "b\<lparr>unpack_ptr := unpack_ptr b + length bs\<rparr>"
  have ub: "u b = (Inr x, ?b1)" using u b by (simp add: reads_def)
  have len: "length bs \<le> bytes_used b - unpack_ptr b" using b length_unread[of b] by simp
  then have "buf_inv ?b1" using b by (auto simp: buf_inv_def)
  moreover have "unread ?b1 = drop (length bs) (unread b)"
    by (simp add: unread_def contents_def add.commute)
  then have "unread ?b1 = bs' @ rest" using b(4) by simp
  ultimately have "v x ?b1 = (Inr y, ?b1\<lparr>unpack_ptr := unpack_ptr ?b1 + length bs'\<rparr>)"
    using v b by (simp add: reads_def)
  then show "dss_bind u v b = (Inr y, b\<lparr>unpack_ptr := unpack_ptr b + length (bs @ bs')\<rparr>)"
    using ub by (simp add: dss_bind_def add.assoc)
qed

lemma reads_return [dss_rules]: "reads env t (dss_return x) x []"
  by (simp add: reads_def dss_return_def)

lemma packs_store [dss_rules]:
  assumes "nn \<or> bs \<noteq> []"
  shows "packs env nn t (dss_bind (opal_dss_buffer_extend env (length bs)) (\<lambda>_. store_bytes bs)) bs"
  unfolding packs_def
proof (intro allI impI)
  fix b assume b: "buf_inv b" "buf_type b = t" "nn \<longrightarrow> block b \<noteq> None"
  obtain r b1 where ext: "opal_dss_buffer_extend env (length bs) b = (r, b1)" by fastforce
  have pre: "block b \<noteq> None \<or> 0 < length bs" using assms b(3) by auto
  have room: "\<exists>u. r = Inr u \<and> bytes_used b + length bs \<le> length (mem b1)"
    if "roomy env b (length bs)"
    using extend_succeeds[OF b(1) that pre] ext by auto
  show "case dss_bind (opal_dss_buffer_extend env (length bs)) (\<lambda>_. store_bytes bs) b of
            (Inr _, b') \<Rightarrow> appended b b' bs | (Inl _, _) \<Rightarrow> \<not> roomy env b (length bs)"
  proof (cases r)
    case (Inl e)
    then show ?thesis using ext room by (auto simp: dss_bind_def)
  next
    case (Inr u)
    have ex: "extended b b1 (length bs)" using extend_extended[OF b(1)] ext Inr by blast
    have "pack_ptr b1 = bytes_used b" "block b1 \<noteq> None" using ex b(1) by (auto simp: extended_def buf_inv_def)
    then have "store_bytes bs b1 = (Inl e, b2) \<Longrightarrow> \<not> roomy env b (length bs)" for e b2
      using room by (auto simp: store_bytes_def Let_def split: if_splits)
    then show ?thesis using ext Inr store_bytes_appends[OF b(1) ex]
      by (auto simp: dss_bind_def split: prod.split sum.split)
  qed
qed

lemma reads_read [dss_rules]:
  assumes "length bs = n"
  shows "reads env t (dss_read n) bs bs"
  unfolding reads_def
proof (intro allI impI)
  fix b rest assume b: "buf_inv b" "unread b = bs @ rest"
  have len: "n \<le> bytes_used b - unpack_ptr b" using b length_unread[of b] assms by simp
  have "take n (drop (unpack_ptr b) (mem b)) = take n (unread b)"
    using len by (simp add: unread_def contents_def drop_take min_def)
  moreover have "take n (unread b) = bs" using b(2) assms by simp
  moreover have "\<not> opal_dss_too_small b n" using b(1) len by (auto simp: opal_dss_too_small_def buf_inv_def)
  ultimately show "dss_read n b = (Inr bs, b\<lparr>unpack_ptr := unpack_ptr b + length bs\<rparr>)"
    using assms b(1) len by (auto simp: dss_read_def buf_inv_def)
qed

section \<open>Properties\<close>

lemma appended_inv_simps:
  "buf_inv (b\<lparr>buf_type := t\<rparr>) = buf_inv b" "contents (b\<lparr>buf_type := t\<rparr>) = contents b"
  by (simp_all add: buf_inv_def contents_def)

lemma unread_bytes:
  assumes "buf_inv b"
  shows "take (bytes_used b - unpack_ptr b) (drop (unpack_ptr b) (mem b)) = unread b"
  using assms by (simp add: unread_def contents_def drop_take)

text \<open>C27: Copying a payload appends to the destination exactly what is unread in the source,
  takes over the source's description mode, and refuses to mix modes.\<close>

theorem copy_payload_appends:
  assumes "env_ok env" "buf_inv src" "buf_inv dest" "bytes_used src < 2 ^ 31" "bytes_used dest < 2 ^ 61"
  shows "if bytes_used dest \<noteq> 0 \<and> buf_type dest \<noteq> buf_type src
         then opal_dss_copy_payload env src dest = (Inl OPAL_ERR_BUFFER, dest)
         else \<exists>dest'. opal_dss_copy_payload env src dest = (Inr (), dest') \<and> buf_inv dest' \<and>
                buf_type dest' = buf_type src \<and> contents dest' = contents dest @ unread src \<and>
                unpack_ptr dest' = unpack_ptr dest"
proof -
  let ?d = "dest\<lparr>buf_type := buf_type src\<rparr>"
  obtain n where n: "bytes_used src = unpack_ptr src + n"
    using assms(2) by (auto simp: buf_inv_def dest: le_Suc_ex)
  have le: "unpack_ptr src + n \<le> length (mem src)" "base_set src = (block src \<noteq> None)"
    using assms(2) n by (auto simp: buf_inv_def)
  have left: "c_int32 (int (bytes_used src) - int (unpack_ptr src)) = int n" "n < 2 ^ 31"
    using n assms(4) by simp_all
  have len: "length (unread src) = n" using length_unread[OF assms(2)] n by simp
  show ?thesis
  proof (cases "n = 0")
    case True
    then show ?thesis using left len le assms(3)
      by (simp add: opal_dss_copy_payload_def Let_def appended_inv_simps)
  next
    case False
    have "packs env False (buf_type src)
        (dss_bind (opal_dss_buffer_extend env n) (\<lambda>_. store_bytes (unread src))) (unread src)"
      using packs_store[of False "unread src"] False len by auto
    then obtain d' where d': "dss_bind (opal_dss_buffer_extend env n) (\<lambda>_. store_bytes (unread src)) ?d =
        (Inr (), d')" "appended ?d d' (unread src)"
      by (rule packs_total[where b = ?d])
         (use assms len left(2) in \<open>auto simp: appended_inv_simps roomy_def\<close>)
    moreover have "opal_dss_copy_payload env src dest =
        dss_bind (opal_dss_buffer_extend env n) (\<lambda>_. store_bytes (unread src)) ?d"
      if "\<not> (bytes_used dest \<noteq> 0 \<and> buf_type dest \<noteq> buf_type src)"
      using False that left le unread_bytes[OF assms(2)] n
      by (auto simp: opal_dss_copy_payload_def Let_def)
    ultimately show ?thesis
      by (auto simp: opal_dss_copy_payload_def appended_def appended_inv_simps)
  qed
qed

text \<open>C28: Unloading a buffer and loading the payload elsewhere carries the packed bytes over:
  the new buffer holds the same contents, all of it unread, and the old one is empty.\<close>

theorem unload_load:
  assumes "buf_inv b" "0 < bytes_used b" "bytes_used b < 2 ^ 31"
  shows "\<exists>payload b' c'. opal_dss_unload b = (Some payload, b') \<and> contents b' = [] \<and> buf_inv b' \<and>
           opal_dss_load (Some payload) c = (Inr (), c') \<and>
           buf_inv c' \<and> contents c' = contents b \<and> unread c' = contents b"
proof -
  have "base_set b" using assms(1,2) by (cases "block b") (auto simp: buf_inv_def)
  then show ?thesis using assms
    by (auto simp: opal_dss_unload_def opal_dss_load_def contents_def unread_def buf_inv_def)
qed

text \<open>C29: With the growth parameter \<^verbatim>\<open>opal_dss_initial_size\<close> set to zero, the first small
  packing into a fresh buffer never returns: doubling zero does not reach the required size.\<close>

theorem extend_diverges:
  assumes "opal_dss_initial_size env = 0" "0 < n" "int n < opal_dss_threshold_size env"
    "opal_dss_threshold_size env \<le> INT_MAX"
  shows "opal_dss_buffer_extend env n (opal_buffer_construct env) =
           (Inl C_DIVERGES, opal_buffer_construct env)"
proof -
  have "double_until k 0 n = None" for k using assms(2) by (induction k) auto
  moreover have "n < 2 ^ 64" using assms(3,4) by (simp add: INT_MAX_def)
  moreover have "\<not> to_size_t (opal_dss_threshold_size env) \<le> n" using assms(3,4) by (simp add: INT_MAX_def)
  ultimately have "extend_size env (opal_buffer_construct env) n = Inl C_DIVERGES"
    using assms(1) by (simp add: extend_size_def opal_buffer_construct_def del: double_until.simps)
  then show ?thesis using assms(2) \<open>n < 2 ^ 64\<close>
    by (simp add: opal_dss_buffer_extend_def opal_buffer_construct_def)
qed

definition buffer_env :: "int \<Rightarrow> dss_env" where
  "buffer_env initial = \<lparr>opal_dss_initial_size = initial, opal_dss_threshold_size = 1024,
     default_buf_type = OPAL_DSS_BUFFER_NON_DESC, heap_grants = (\<lambda>_. True), new_grants = (\<lambda>_. True),
     fmt_float = (\<lambda>_. ''0.000000''), str_float = (\<lambda>_. 0),
     fmt_double = (\<lambda>_. ''0.000000''), str_double = (\<lambda>_. 0)\<rparr>"

definition example_buffer :: opal_buffer where
  "example_buffer = \<lparr>buf_type = OPAL_DSS_BUFFER_NON_DESC, base_set = True, block = Some [1, 2, 3, 0],
     pack_ptr = 3, unpack_ptr = 1, bytes_allocated = 4, bytes_used = 3\<rparr>"

theorem copy_payload_appends_witness:
  "\<exists>dest'. opal_dss_copy_payload (buffer_env 128) example_buffer (opal_buffer_construct (buffer_env 128)) =
     (Inr (), dest') \<and> contents dest' = [2, 3]"
  using copy_payload_appends[of "buffer_env 128" example_buffer "opal_buffer_construct (buffer_env 128)"]
  by (auto simp: env_ok_def buffer_env_def example_buffer_def buf_inv_def INT_MAX_def
      opal_buffer_construct_def contents_def unread_def)

theorem unload_load_witness:
  "\<exists>payload b' c'. opal_dss_unload example_buffer = (Some payload, b') \<and>
     opal_dss_load (Some payload) (opal_buffer_construct (buffer_env 128)) = (Inr (), c') \<and>
     contents c' = [1, 2, 3]"
  using unload_load[of example_buffer "opal_buffer_construct (buffer_env 128)"]
  by (auto simp: example_buffer_def buf_inv_def contents_def)

theorem extend_diverges_witness:
  "fst (opal_dss_buffer_extend (buffer_env 0) 4 (opal_buffer_construct (buffer_env 0))) = Inl C_DIVERGES"
  using extend_diverges[of "buffer_env 0" 4] by (simp add: buffer_env_def INT_MAX_def)

end
