(* ===== verification/Dss_Types.thy ===== *)
theory Dss_Types
  imports Dss_Buffer
begin

text \<open>
  The C types that travel through the data storage service: the type indicators of
  \<^verbatim>\<open>opal/dss/dss_types.h\<close>, process names, byte objects, ORTE attributes, the
  allocation object of the ORCM scheduler and the objects of its configuration, and the arrays of them that the
  \<^verbatim>\<open>void*\<close> arguments of the pack and unpack functions point to.
\<close>

type_synonym opal_data_type = u8

abbreviation OPAL_UNDEF :: opal_data_type where "OPAL_UNDEF \<equiv> 0"
abbreviation OPAL_BYTE :: opal_data_type where "OPAL_BYTE \<equiv> 1"
abbreviation OPAL_BOOL :: opal_data_type where "OPAL_BOOL \<equiv> 2"
abbreviation OPAL_STRING :: opal_data_type where "OPAL_STRING \<equiv> 3"
abbreviation OPAL_SIZE :: opal_data_type where "OPAL_SIZE \<equiv> 4"
abbreviation OPAL_PID :: opal_data_type where "OPAL_PID \<equiv> 5"
abbreviation OPAL_INT :: opal_data_type where "OPAL_INT \<equiv> 6"
abbreviation OPAL_INT8 :: opal_data_type where "OPAL_INT8 \<equiv> 7"
abbreviation OPAL_INT16 :: opal_data_type where "OPAL_INT16 \<equiv> 8"
abbreviation OPAL_INT32 :: opal_data_type where "OPAL_INT32 \<equiv> 9"
abbreviation OPAL_INT64 :: opal_data_type where "OPAL_INT64 \<equiv> 10"
abbreviation OPAL_UINT :: opal_data_type where "OPAL_UINT \<equiv> 11"
abbreviation OPAL_UINT8 :: opal_data_type where "OPAL_UINT8 \<equiv> 12"
abbreviation OPAL_UINT16 :: opal_data_type where "OPAL_UINT16 \<equiv> 13"
abbreviation OPAL_UINT32 :: opal_data_type where "OPAL_UINT32 \<equiv> 14"
abbreviation OPAL_UINT64 :: opal_data_type where "OPAL_UINT64 \<equiv> 15"
abbreviation OPAL_FLOAT :: opal_data_type where "OPAL_FLOAT \<equiv> 16"
abbreviation OPAL_DOUBLE :: opal_data_type where "OPAL_DOUBLE \<equiv> 17"
abbreviation OPAL_TIMEVAL :: opal_data_type where "OPAL_TIMEVAL \<equiv> 18"
abbreviation OPAL_TIME :: opal_data_type where "OPAL_TIME \<equiv> 19"
abbreviation OPAL_BYTE_OBJECT :: opal_data_type where "OPAL_BYTE_OBJECT \<equiv> 20"
abbreviation OPAL_DATA_TYPE :: opal_data_type where "OPAL_DATA_TYPE \<equiv> 21"
abbreviation OPAL_NULL :: opal_data_type where "OPAL_NULL \<equiv> 22"
abbreviation OPAL_BUFFER :: opal_data_type where "OPAL_BUFFER \<equiv> 27"
abbreviation OPAL_PTR :: opal_data_type where "OPAL_PTR \<equiv> 28"
abbreviation OPAL_NAME :: opal_data_type where "OPAL_NAME \<equiv> 50"
abbreviation OPAL_JOBID :: opal_data_type where "OPAL_JOBID \<equiv> 51"
abbreviation OPAL_VPID :: opal_data_type where "OPAL_VPID \<equiv> 52"
abbreviation ORTE_ATTRIBUTE :: opal_data_type where "ORTE_ATTRIBUTE \<equiv> 117"
abbreviation ORCM_ALLOC :: opal_data_type where "ORCM_ALLOC \<equiv> 151"
abbreviation ORCM_NODE :: opal_data_type where "ORCM_NODE \<equiv> 152"
abbreviation ORCM_RACK :: opal_data_type where "ORCM_RACK \<equiv> 153"
abbreviation ORCM_ROW :: opal_data_type where "ORCM_ROW \<equiv> 154"
abbreviation ORCM_CLUSTER :: opal_data_type where "ORCM_CLUSTER \<equiv> 155"
abbreviation ORCM_SCHEDULER :: opal_data_type where "ORCM_SCHEDULER \<equiv> 156"

text \<open>The representation types on a platform with 1-byte \<^verbatim>\<open>bool\<close>, 4-byte \<^verbatim>\<open>int\<close>
  and \<^verbatim>\<open>pid_t\<close>, 8-byte \<^verbatim>\<open>size_t\<close> and \<^verbatim>\<open>time_t\<close>.\<close>

abbreviation OPAL_DATA_TYPE_T :: opal_data_type where "OPAL_DATA_TYPE_T \<equiv> OPAL_UINT8"
abbreviation DSS_TYPE_BOOL :: opal_data_type where "DSS_TYPE_BOOL \<equiv> OPAL_UINT8"
abbreviation DSS_TYPE_INT :: opal_data_type where "DSS_TYPE_INT \<equiv> OPAL_INT32"
abbreviation DSS_TYPE_SIZE_T :: opal_data_type where "DSS_TYPE_SIZE_T \<equiv> OPAL_UINT64"
abbreviation DSS_TYPE_PID_T :: opal_data_type where "DSS_TYPE_PID_T \<equiv> OPAL_UINT32"
abbreviation OPAL_JOBID_T :: opal_data_type where "OPAL_JOBID_T \<equiv> OPAL_UINT32"
abbreviation OPAL_VPID_T :: opal_data_type where "OPAL_VPID_T \<equiv> OPAL_UINT32"
abbreviation ORTE_ATTR_KEY_T :: opal_data_type where "ORTE_ATTR_KEY_T \<equiv> OPAL_UINT16"

record opal_process_name =
  jobid :: u32
  vpid :: u32

text \<open>\<open>bo_size\<close> is an \<^verbatim>\<open>int32_t\<close>; \<open>None\<close> is the null pointer.\<close>

record opal_byte_object =
  bo_size :: u32
  bo_bytes :: "u8 list option"

text \<open>
  The union of an attribute, one constructor per representation: \<open>A8\<close> holds
  \<^verbatim>\<open>flag\<close>, \<^verbatim>\<open>byte\<close>, \<^verbatim>\<open>int8\<close> and \<^verbatim>\<open>uint8\<close>; \<open>A16\<close> holds
  \<^verbatim>\<open>int16\<close> and \<^verbatim>\<open>uint16\<close>; \<open>A32\<close> holds \<^verbatim>\<open>pid\<close>, \<^verbatim>\<open>integer\<close>,
  \<^verbatim>\<open>int32\<close>, \<^verbatim>\<open>uint\<close>, \<^verbatim>\<open>uint32\<close>, \<^verbatim>\<open>fval\<close> (its bits), \<^verbatim>\<open>vpid\<close> and
  \<^verbatim>\<open>jobid\<close>; \<open>A64\<close> holds \<^verbatim>\<open>size\<close>, \<^verbatim>\<open>int64\<close> and \<^verbatim>\<open>uint64\<close>.
\<close>

datatype attr_data =
    A8 u8
  | A16 u16
  | A32 u32
  | A64 u64
  | AString "string option"
  | ABo opal_byte_object
  | ATv u64 u64
  | APtr nat
  | AZero

record orte_attribute =
  attr_key :: u16
  attr_type :: opal_data_type
  attr_local :: bool
  attr_data :: attr_data

record orcm_alloc =
  al_id :: u64
  al_priority :: u32
  al_account :: "string option"
  al_name :: "string option"
  al_gid :: u32
  al_max_nodes :: u32
  al_max_pes :: u32
  al_min_nodes :: u32
  al_min_pes :: u32
  al_begin :: u64
  al_walltime :: u64
  al_exclusive :: u8
  al_caller_uid :: u32
  al_caller_gid :: u32
  al_interactive :: u8
  al_originator :: opal_process_name
  al_hnp :: opal_process_name
  al_hnpname :: "string option"
  al_hnpuri :: "string option"
  al_parent_name :: "string option"
  al_parent_uri :: "string option"
  al_nodefile :: "string option"
  al_nodes :: "string option"
  al_queues :: "string option"
  al_batchfile :: "string option"
  al_notes :: "string option"
  al_constraints :: "orte_attribute list"

definition orcm_alloc_con :: orcm_alloc where
  "orcm_alloc_con =
     \<lparr>al_id = 0, al_priority = 0, al_account = None, al_name = None, al_gid = 0, al_max_nodes = 0,
      al_max_pes = 0, al_min_nodes = 0, al_min_pes = 0, al_begin = 0, al_walltime = 0,
      al_exclusive = 1, al_caller_uid = 0, al_caller_gid = 0, al_interactive = 0,
      al_originator = \<lparr>jobid = 0, vpid = 0\<rparr>, al_hnp = \<lparr>jobid = 0, vpid = 0\<rparr>,
      al_hnpname = None, al_hnpuri = None, al_parent_name = None, al_parent_uri = None,
      al_nodefile = None, al_nodes = None, al_queues = None, al_batchfile = None,
      al_notes = None, al_constraints = []\<rparr>"

text \<open>
  The configured cluster (\<^verbatim>\<open>orcm/mca/cfgi/cfgi_types.h\<close>): nodes in racks in rows.  A
  topology is known by its exported text, and \<open>TopoFreed\<close> is a pointer to one that has been
  destroyed.  The field \<^verbatim>\<open>name\<close> of a node is \<open>hostname\<close>; the pointers back to the
  enclosing rack, row and cluster are never followed and are left out.
\<close>

datatype topology = TopoNull | Topo string | TopoFreed

record orcm_config =
  cfg_mca_params :: "string list option"
  cfg_env :: "string list option"
  cfg_port :: "string option"
  cfg_aggregator :: u8

record orcm_node =
  hostname :: "string option"
  daemon :: opal_process_name
  nd_config :: orcm_config
  nd_state :: u8
  scd_state :: u8
  npes :: u32
  topology :: topology

record orcm_rack =
  rack_name :: "string option"
  rack_controller :: orcm_node
  rack_nodes :: "orcm_node list"

record orcm_row =
  row_name :: "string option"
  row_controller :: orcm_node
  row_racks :: "orcm_rack list"

record orcm_cluster =
  cluster_name :: "string option"
  cluster_controller :: orcm_node
  cluster_rows :: "orcm_row list"

record orcm_scheduler =
  sched_controller :: orcm_node
  sched_queues :: "string list option"

text \<open>
  An array of C values: words of each width (with \<^verbatim>\<open>float\<close>, \<^verbatim>\<open>double\<close>,
  \<^verbatim>\<open>bool\<close> and \<^verbatim>\<open>time_t\<close> by their bits), strings (\<open>None\<close> is the null
  pointer), and the structures above.
\<close>

datatype dss_data =
    D8 "u8 list"
  | D16 "u16 list"
  | D32 "u32 list"
  | D64 "u64 list"
  | DString "string option list"
  | DTimeval "(u64 \<times> u64) list"
  | DByteObj "opal_byte_object list"
  | DName "opal_process_name list"
  | DAttr "orte_attribute list"
  | DAlloc "orcm_alloc list"
  | DNode "orcm_node list"
  | DRack "orcm_rack list"
  | DRow "orcm_row list"
  | DCluster "orcm_cluster list"
  | DScheduler "orcm_scheduler list"

end
