(* ===== verification/Dss.thy ===== *)
theory Dss
  imports Dss_Types
begin

text \<open>
  The data storage service: the pack functions of \<^verbatim>\<open>opal/dss/dss_pack.c\<close>, the unpack
  functions of \<^verbatim>\<open>dss_unpack.c\<close>, \<^verbatim>\<open>dss_peek.c\<close>, and the round trips between them.
\<close>

section \<open>Byte order\<close>

text \<open>
  \<^verbatim>\<open>htons\<close>, \<^verbatim>\<open>htonl\<close>, \<^verbatim>\<open>hton64\<close> and back: the bytes of a number, most
  significant first.
\<close>

fun be_bytes :: "nat \<Rightarrow> nat \<Rightarrow> u8 list" where
  "be_bytes 0 x = []"
| "be_bytes (Suc n) x = word_of_nat (x div 256 ^ n) # be_bytes n x"

definition of_be :: "u8 list \<Rightarrow> nat" where
  "of_be bs = foldl (\<lambda>a b. a * 256 + unat b) 0 bs"

fun chunks :: "nat \<Rightarrow> nat \<Rightarrow> 'a list \<Rightarrow> 'a list list" where
  "chunks 0 n xs = []"
| "chunks (Suc k) n xs = take n xs # chunks k n (drop n xs)"

section \<open>Packing\<close>

text \<open>
  Every pack function gets the array \<open>src\<close> and \<open>num_vals\<close>, an \<^verbatim>\<open>int32_t\<close>.
  An array that is shorter than \<open>num_vals\<close> or of another type, and a negative count
  that passes the extension, are outside the C semantics.
\<close>

definition pack_vals :: "dss_env \<Rightarrow> nat \<Rightarrow> ('a \<Rightarrow> u8 list) \<Rightarrow> 'a list \<Rightarrow> int \<Rightarrow> unit dss" where
  "pack_vals env sz f xs num_vals =
     dss_bind (opal_dss_buffer_extend env (sz_mul (to_size_t num_vals) sz))
       (\<lambda>_. if num_vals < 0 \<or> int (length xs) < num_vals then dss_fail C_UNDEFINED
            else store_bytes (concat (map f (take (nat num_vals) xs))))"

definition opal_dss_pack_null :: "dss_env \<Rightarrow> dss_data \<Rightarrow> int \<Rightarrow> unit dss" where
  "opal_dss_pack_null env src num_vals =
     pack_vals env 1 (\<lambda>x. [x]) (replicate (nat num_vals) 0) num_vals"

definition opal_dss_pack_byte :: "dss_env \<Rightarrow> dss_data \<Rightarrow> int \<Rightarrow> unit dss" where
  "opal_dss_pack_byte env src num_vals =
     (case src of D8 xs \<Rightarrow> pack_vals env 1 (\<lambda>x. [x]) xs num_vals | _ \<Rightarrow> dss_fail C_UNDEFINED)"

definition opal_dss_pack_int16 :: "dss_env \<Rightarrow> dss_data \<Rightarrow> int \<Rightarrow> unit dss" where
  "opal_dss_pack_int16 env src num_vals =
     (case src of D16 xs \<Rightarrow> pack_vals env 2 (\<lambda>x. be_bytes 2 (unat x)) xs num_vals
      | _ \<Rightarrow> dss_fail C_UNDEFINED)"

definition opal_dss_pack_int32 :: "dss_env \<Rightarrow> dss_data \<Rightarrow> int \<Rightarrow> unit dss" where
  "opal_dss_pack_int32 env src num_vals =
     (case src of D32 xs \<Rightarrow> pack_vals env 4 (\<lambda>x. be_bytes 4 (unat x)) xs num_vals
      | _ \<Rightarrow> dss_fail C_UNDEFINED)"

definition opal_dss_pack_int64 :: "dss_env \<Rightarrow> dss_data \<Rightarrow> int \<Rightarrow> unit dss" where
  "opal_dss_pack_int64 env src num_vals =
     (case src of D64 xs \<Rightarrow> pack_vals env 8 (\<lambda>x. be_bytes 8 (unat x)) xs num_vals
      | _ \<Rightarrow> dss_fail C_UNDEFINED)"

text \<open>The loop \<^verbatim>\<open>for (i = 0; i < num_vals; ++i)\<close> over the elements of an array.\<close>

definition pack_each :: "('a \<Rightarrow> unit dss) \<Rightarrow> 'a list \<Rightarrow> int \<Rightarrow> unit dss" where
  "pack_each p xs num_vals =
     (if int (length xs) < num_vals then dss_fail C_UNDEFINED
      else dss_seq (map p (take (nat num_vals) xs)))"

definition string_bytes :: "string \<Rightarrow> u8 list" where
  "string_bytes s = map (\<lambda>c. word_of_nat (of_char c)) s @ [0]"

text \<open>\<^verbatim>\<open>(int32_t)strlen(s) + 1\<close>, undefined where the addition overflows.\<close>

definition pack_one_string :: "dss_env \<Rightarrow> string option \<Rightarrow> unit dss" where
  "pack_one_string env so =
     (case so of
        None \<Rightarrow> opal_dss_pack_int32 env (D32 [0]) 1
      | Some s \<Rightarrow>
          let len = c_int32 (int (length s)) + 1
          in if INT_MAX < len then dss_fail C_UNDEFINED
             else dss_bind (opal_dss_pack_int32 env (D32 [word_of_int len]) 1)
                    (\<lambda>_. opal_dss_pack_byte env (D8 (string_bytes s)) len))"

definition opal_dss_pack_string :: "dss_env \<Rightarrow> dss_data \<Rightarrow> int \<Rightarrow> unit dss" where
  "opal_dss_pack_string env src num_vals =
     (case src of DString xs \<Rightarrow> pack_each (pack_one_string env) xs num_vals
      | _ \<Rightarrow> dss_fail C_UNDEFINED)"

definition opal_dss_pack_float :: "dss_env \<Rightarrow> dss_data \<Rightarrow> int \<Rightarrow> unit dss" where
  "opal_dss_pack_float env src num_vals =
     (case src of
        D32 xs \<Rightarrow> pack_each (\<lambda>x. opal_dss_pack_string env (DString [Some (fmt_float env x)]) 1) xs num_vals
      | _ \<Rightarrow> dss_fail C_UNDEFINED)"

definition opal_dss_pack_double :: "dss_env \<Rightarrow> dss_data \<Rightarrow> int \<Rightarrow> unit dss" where
  "opal_dss_pack_double env src num_vals =
     (case src of
        D64 xs \<Rightarrow> pack_each (\<lambda>x. opal_dss_pack_string env (DString [Some (fmt_double env x)]) 1) xs num_vals
      | _ \<Rightarrow> dss_fail C_UNDEFINED)"

definition opal_dss_pack_timeval :: "dss_env \<Rightarrow> dss_data \<Rightarrow> int \<Rightarrow> unit dss" where
  "opal_dss_pack_timeval env src num_vals =
     (case src of
        DTimeval xs \<Rightarrow> pack_each (\<lambda>(s, us). opal_dss_pack_int64 env (D64 [s, us]) 2) xs num_vals
      | _ \<Rightarrow> dss_fail C_UNDEFINED)"

definition opal_dss_pack_time :: "dss_env \<Rightarrow> dss_data \<Rightarrow> int \<Rightarrow> unit dss" where
  "opal_dss_pack_time env src num_vals =
     (case src of
        D64 xs \<Rightarrow> pack_each (\<lambda>x. opal_dss_pack_int64 env (D64 [x]) 1) xs num_vals
      | _ \<Rightarrow> dss_fail C_UNDEFINED)"

definition pack_one_byte_object :: "dss_env \<Rightarrow> opal_byte_object \<Rightarrow> unit dss" where
  "pack_one_byte_object env bo =
     dss_bind (opal_dss_pack_int32 env (D32 [bo_size bo]) 1)
       (\<lambda>_. if 0 < sint (bo_size bo)
            then opal_dss_pack_byte env (D8 (case bo_bytes bo of None \<Rightarrow> [] | Some bs \<Rightarrow> bs))
                   (sint (bo_size bo))
            else dss_return ())"

definition opal_dss_pack_byte_object :: "dss_env \<Rightarrow> dss_data \<Rightarrow> int \<Rightarrow> unit dss" where
  "opal_dss_pack_byte_object env src num =
     (case src of DByteObj xs \<Rightarrow> pack_each (pack_one_byte_object env) xs num
      | _ \<Rightarrow> dss_fail C_UNDEFINED)"

section \<open>Unpacking\<close>

text \<open>
  Every unpack function gets \<open>num_vals\<close>, an \<^verbatim>\<open>int32_t\<close>, and returns the array it
  filled.  A negative count converts to a huge \<^verbatim>\<open>size_t\<close> in the length check.
\<close>

definition unpack_vals :: "nat \<Rightarrow> int \<Rightarrow> nat list dss" where
  "unpack_vals sz num_vals =
     dss_bind (dss_read (sz_mul (to_size_t num_vals) sz))
       (\<lambda>bs. dss_return (map of_be (chunks (nat num_vals) sz bs)))"

definition opal_dss_unpack_null :: "int \<Rightarrow> dss_data dss" where
  "opal_dss_unpack_null num_vals =
     dss_bind (dss_read (to_size_t num_vals)) (\<lambda>bs. dss_return (D8 bs))"

definition opal_dss_unpack_byte :: "int \<Rightarrow> dss_data dss" where
  "opal_dss_unpack_byte num_vals =
     dss_bind (dss_read (to_size_t num_vals)) (\<lambda>bs. dss_return (D8 bs))"

definition opal_dss_unpack_int16 :: "int \<Rightarrow> dss_data dss" where
  "opal_dss_unpack_int16 num_vals =
     dss_bind (unpack_vals 2 num_vals) (\<lambda>xs. dss_return (D16 (map word_of_nat xs)))"

definition opal_dss_unpack_int32 :: "int \<Rightarrow> dss_data dss" where
  "opal_dss_unpack_int32 num_vals =
     dss_bind (unpack_vals 4 num_vals) (\<lambda>xs. dss_return (D32 (map word_of_nat xs)))"

definition opal_dss_unpack_int64 :: "int \<Rightarrow> dss_data dss" where
  "opal_dss_unpack_int64 num_vals =
     dss_bind (unpack_vals 8 num_vals) (\<lambda>xs. dss_return (D64 (map word_of_nat xs)))"

text \<open>
  A single value unpacked into a variable of its type.
\<close>

definition get8 :: "dss_data \<Rightarrow> u8 dss" where
  "get8 d = (case d of D8 (x # _) \<Rightarrow> dss_return x | _ \<Rightarrow> dss_fail C_UNDEFINED)"

definition get16 :: "dss_data \<Rightarrow> u16 dss" where
  "get16 d = (case d of D16 (x # _) \<Rightarrow> dss_return x | _ \<Rightarrow> dss_fail C_UNDEFINED)"

definition get32 :: "dss_data \<Rightarrow> u32 dss" where
  "get32 d = (case d of D32 (x # _) \<Rightarrow> dss_return x | _ \<Rightarrow> dss_fail C_UNDEFINED)"

definition get64 :: "dss_data \<Rightarrow> u64 dss" where
  "get64 d = (case d of D64 (x # _) \<Rightarrow> dss_return x | _ \<Rightarrow> dss_fail C_UNDEFINED)"

definition getstr :: "dss_data \<Rightarrow> string option dss" where
  "getstr d = (case d of DString (x # _) \<Rightarrow> dss_return x | _ \<Rightarrow> dss_fail C_UNDEFINED)"

definition getname :: "dss_data \<Rightarrow> opal_process_name dss" where
  "getname d = (case d of DName (x # _) \<Rightarrow> dss_return x | _ \<Rightarrow> dss_fail C_UNDEFINED)"

text \<open>
  The string in a block of bytes ends before the first zero byte; a block without one is not
  a C string, and whoever reads it runs past the block.
\<close>

definition bytes_string :: "u8 list \<Rightarrow> string option" where
  "bytes_string bs =
     (if 0 \<in> set bs then Some (map (\<lambda>b. char_of (unat b)) (takeWhile (\<lambda>b. b \<noteq> 0) bs)) else None)"

definition unpack_one_string :: "dss_env \<Rightarrow> string option dss" where
  "unpack_one_string env =
     dss_bind (opal_dss_unpack_int32 1) (\<lambda>d. dss_bind (get32 d) (\<lambda>len.
       if len = 0 then dss_return None
       else if \<not> c_alloc_ok env (to_size_t (sint len)) then dss_fail OPAL_ERR_OUT_OF_RESOURCE
       else dss_bind (opal_dss_unpack_byte (sint len)) (\<lambda>d.
         case d of
           D8 bs \<Rightarrow> (case bytes_string bs of None \<Rightarrow> dss_fail C_UNDEFINED
                     | Some s \<Rightarrow> dss_return (Some s))
         | _ \<Rightarrow> dss_fail C_UNDEFINED)))"

definition opal_dss_unpack_string :: "dss_env \<Rightarrow> int \<Rightarrow> dss_data dss" where
  "opal_dss_unpack_string env num_vals =
     dss_bind (dss_repeat (nat num_vals) (unpack_one_string env)) (\<lambda>xs. dss_return (DString xs))"

text \<open>The length check some functions make before they start.\<close>

definition dss_guard :: "nat \<Rightarrow> 'a dss \<Rightarrow> 'a dss" where
  "dss_guard n m = (\<lambda>b. if opal_dss_too_small b n
                        then (Inl OPAL_ERR_UNPACK_READ_PAST_END_OF_BUFFER, b) else m b)"

definition unpack_number_text :: "dss_env \<Rightarrow> (string \<Rightarrow> 'a) \<Rightarrow> 'a dss" where
  "unpack_number_text env conv =
     dss_bind (opal_dss_unpack_string env 1) (\<lambda>d. dss_bind (getstr d) (\<lambda>so.
       case so of None \<Rightarrow> dss_fail OPAL_ERR_UNPACK_FAILURE | Some s \<Rightarrow> dss_return (conv s)))"

definition opal_dss_unpack_float :: "dss_env \<Rightarrow> int \<Rightarrow> dss_data dss" where
  "opal_dss_unpack_float env num_vals =
     dss_guard (sz_mul (to_size_t num_vals) 4)
       (dss_bind (dss_repeat (nat num_vals) (unpack_number_text env (str_float env)))
          (\<lambda>xs. dss_return (D32 xs)))"

definition opal_dss_unpack_double :: "dss_env \<Rightarrow> int \<Rightarrow> dss_data dss" where
  "opal_dss_unpack_double env num_vals =
     dss_guard (sz_mul (to_size_t num_vals) 8)
       (dss_bind (dss_repeat (nat num_vals) (unpack_number_text env (str_double env)))
          (\<lambda>xs. dss_return (D64 xs)))"

definition opal_dss_unpack_timeval :: "int \<Rightarrow> dss_data dss" where
  "opal_dss_unpack_timeval num_vals =
     dss_guard (sz_mul (to_size_t num_vals) 16)
       (dss_bind (dss_repeat (nat num_vals)
            (dss_bind (opal_dss_unpack_int64 2)
               (\<lambda>d. case d of D64 [s, us] \<Rightarrow> dss_return (s, us) | _ \<Rightarrow> dss_fail C_UNDEFINED)))
          (\<lambda>xs. dss_return (DTimeval xs)))"

definition opal_dss_unpack_time :: "int \<Rightarrow> dss_data dss" where
  "opal_dss_unpack_time num_vals =
     dss_guard (sz_mul (to_size_t num_vals) 8)
       (dss_bind (dss_repeat (nat num_vals) (dss_bind (opal_dss_unpack_int64 1) get64))
          (\<lambda>xs. dss_return (D64 xs)))"

definition sizeof_byte_object :: nat where
  "sizeof_byte_object = 16"

definition unpack_bo_bytes :: "dss_env \<Rightarrow> opal_byte_object dss" where
  "unpack_bo_bytes env =
     dss_bind (opal_dss_unpack_int32 1) (\<lambda>d. dss_bind (get32 d) (\<lambda>size.
       if 0 < sint size then
         if \<not> c_alloc_ok env (to_size_t (sint size)) then dss_fail OPAL_ERR_OUT_OF_RESOURCE
         else dss_bind (opal_dss_unpack_byte (sint size)) (\<lambda>d.
           case d of D8 bs \<Rightarrow> dss_return \<lparr>bo_size = size, bo_bytes = Some bs\<rparr>
                   | _ \<Rightarrow> dss_fail C_UNDEFINED)
       else dss_return \<lparr>bo_size = size, bo_bytes = None\<rparr>))"

definition opal_dss_unpack_byte_object :: "dss_env \<Rightarrow> int \<Rightarrow> dss_data dss" where
  "opal_dss_unpack_byte_object env num =
     dss_bind (dss_repeat (nat num)
         (if c_alloc_ok env sizeof_byte_object then unpack_bo_bytes env
          else dss_fail OPAL_ERR_OUT_OF_RESOURCE))
       (\<lambda>xs. dss_return (DByteObj xs))"

section \<open>The table of types\<close>

text \<open>
  \<^verbatim>\<open>opal_dss_types\<close>: the pack and unpack function registered for a type, if any.  The
  functions for generic types look the representation type up in the same table; the
  definitions take the table they look into as an argument.
\<close>

record dss_type_info =
  odti_pack_fn :: "dss_data \<Rightarrow> int \<Rightarrow> unit dss"
  odti_unpack_fn :: "int \<Rightarrow> dss_data dss"

type_synonym dss_table = "opal_data_type \<Rightarrow> dss_type_info option"

definition opal_dss_store_data_type :: "dss_table \<Rightarrow> opal_data_type \<Rightarrow> unit dss" where
  "opal_dss_store_data_type tbl type =
     (case tbl OPAL_DATA_TYPE_T of
        None \<Rightarrow> dss_fail OPAL_ERR_PACK_FAILURE
      | Some info \<Rightarrow> odti_pack_fn info (D8 [type]) 1)"

definition opal_dss_get_data_type :: "dss_table \<Rightarrow> opal_data_type dss" where
  "opal_dss_get_data_type tbl =
     (case tbl OPAL_DATA_TYPE_T of
        None \<Rightarrow> dss_fail OPAL_ERR_PACK_FAILURE
      | Some info \<Rightarrow> dss_bind (odti_unpack_fn info 1) get8)"

definition if_described :: "unit dss \<Rightarrow> unit dss" where
  "if_described m = (\<lambda>b. if buf_type b = OPAL_DSS_BUFFER_FULLY_DESC then m b else (Inr (), b))"

definition opal_dss_pack_buffer :: "dss_table \<Rightarrow> dss_data \<Rightarrow> int \<Rightarrow> opal_data_type \<Rightarrow> unit dss" where
  "opal_dss_pack_buffer tbl src num_vals type =
     dss_bind (if_described (opal_dss_store_data_type tbl type)) (\<lambda>_.
       case tbl type of
         None \<Rightarrow> dss_fail OPAL_ERR_PACK_FAILURE
       | Some info \<Rightarrow> odti_pack_fn info src num_vals)"

definition opal_dss_pack ::
  "dss_env \<Rightarrow> dss_table \<Rightarrow> dss_data \<Rightarrow> int \<Rightarrow> opal_data_type \<Rightarrow> unit dss" where
  "opal_dss_pack env tbl src num_vals type =
     dss_bind (if_described (opal_dss_store_data_type tbl OPAL_INT32)) (\<lambda>_.
     dss_bind (opal_dss_pack_int32 env (D32 [word_of_int num_vals]) 1) (\<lambda>_.
     opal_dss_pack_buffer tbl src num_vals type))"

definition opal_dss_unpack_buffer :: "dss_table \<Rightarrow> int \<Rightarrow> opal_data_type \<Rightarrow> dss_data dss" where
  "opal_dss_unpack_buffer tbl num_vals type =
     dss_bind (if_described (dss_bind (opal_dss_get_data_type tbl) (\<lambda>local_type.
                 if type \<noteq> local_type then dss_fail OPAL_ERR_PACK_MISMATCH else dss_return ())))
       (\<lambda>_. case tbl type of
              None \<Rightarrow> dss_fail OPAL_ERR_UNPACK_FAILURE
            | Some info \<Rightarrow> odti_unpack_fn info num_vals)"

text \<open>
  \<^verbatim>\<open>opal_dss_unpack\<close> returns the number of values it unpacked and the array; with
  \<open>space\<close> the room the caller has.  Where the buffer holds more, it unpacks as much as fits
  and then returns the error.
\<close>

definition opal_dss_unpack :: "dss_table \<Rightarrow> int \<Rightarrow> opal_data_type \<Rightarrow> (int \<times> dss_data) dss" where
  "opal_dss_unpack tbl space type =
     (if space = 0 then dss_fail OPAL_ERR_UNPACK_INADEQUATE_SPACE
      else
        dss_bind (if_described (dss_bind (opal_dss_get_data_type tbl) (\<lambda>local_type.
                    if OPAL_INT32 \<noteq> local_type then dss_fail OPAL_ERR_UNPACK_FAILURE
                    else dss_return ()))) (\<lambda>_.
        dss_bind (opal_dss_unpack_int32 1) (\<lambda>d. dss_bind (get32 d) (\<lambda>n.
          let local_num = sint n
          in if local_num > space
             then dss_bind (opal_dss_unpack_buffer tbl space type)
                    (\<lambda>_. dss_fail OPAL_ERR_UNPACK_INADEQUATE_SPACE)
             else dss_bind (opal_dss_unpack_buffer tbl local_num type)
                    (\<lambda>data. dss_return (local_num, data))))))"

section \<open>Peeking\<close>

definition nothing_left :: "opal_buffer \<Rightarrow> bool" where
  "nothing_left b \<longleftrightarrow> \<not> base_set b \<or> bytes_used b \<le> unpack_ptr b"

definition opal_dss_peek_type :: "dss_table \<Rightarrow> opal_data_type dss" where
  "opal_dss_peek_type tbl b =
     (if buf_type b \<noteq> OPAL_DSS_BUFFER_FULLY_DESC then (Inl OPAL_ERR_UNKNOWN_DATA_TYPE, b)
      else if nothing_left b then (Inl OPAL_ERR_UNPACK_READ_PAST_END_OF_BUFFER, b)
      else (fst (opal_dss_get_data_type tbl b), b))"

definition opal_dss_peek :: "dss_table \<Rightarrow> (opal_data_type \<times> int) dss" where
  "opal_dss_peek tbl b =
     (if nothing_left b then (Inl OPAL_ERR_UNPACK_READ_PAST_END_OF_BUFFER, b)
      else if buf_type b \<noteq> OPAL_DSS_BUFFER_FULLY_DESC then (Inl OPAL_ERR_UNKNOWN_DATA_TYPE, b)
      else
        (fst ((dss_bind (opal_dss_get_data_type tbl) (\<lambda>local_type.
                if OPAL_INT32 \<noteq> local_type then dss_fail OPAL_ERR_UNPACK_FAILURE
                else dss_bind (opal_dss_unpack_int32 1) (\<lambda>d. dss_bind (get32 d) (\<lambda>n.
                       dss_bind (opal_dss_get_data_type tbl) (\<lambda>type. dss_return (type, sint n))))))
              b), b))"

section \<open>Generic types\<close>

text \<open>
  A generic type is packed as the type that represents it on this machine, and described even
  in a buffer that is not.  Unpacking reads that description; where another machine used
  another width, the values are converted (\<^verbatim>\<open>UNPACK_SIZE_MISMATCH\<close>).
\<close>

definition if_undescribed :: "unit dss \<Rightarrow> unit dss" where
  "if_undescribed m = (\<lambda>b. if buf_type b \<noteq> OPAL_DSS_BUFFER_FULLY_DESC then m b else (Inr (), b))"

definition pack_generic :: "dss_table \<Rightarrow> opal_data_type \<Rightarrow> dss_data \<Rightarrow> int \<Rightarrow> unit dss" where
  "pack_generic tbl rep src num_vals =
     dss_bind (if_undescribed (opal_dss_store_data_type tbl rep))
       (\<lambda>_. opal_dss_pack_buffer tbl src num_vals rep)"

definition opal_dss_pack_bool :: "dss_table \<Rightarrow> dss_data \<Rightarrow> int \<Rightarrow> unit dss" where
  "opal_dss_pack_bool tbl = pack_generic tbl DSS_TYPE_BOOL"

definition opal_dss_pack_int :: "dss_table \<Rightarrow> dss_data \<Rightarrow> int \<Rightarrow> unit dss" where
  "opal_dss_pack_int tbl = pack_generic tbl DSS_TYPE_INT"

definition opal_dss_pack_sizet :: "dss_table \<Rightarrow> dss_data \<Rightarrow> int \<Rightarrow> unit dss" where
  "opal_dss_pack_sizet tbl = pack_generic tbl DSS_TYPE_SIZE_T"

definition opal_dss_pack_pid :: "dss_table \<Rightarrow> dss_data \<Rightarrow> int \<Rightarrow> unit dss" where
  "opal_dss_pack_pid tbl = pack_generic tbl DSS_TYPE_PID_T"

definition remote_width :: "opal_data_type \<Rightarrow> nat option" where
  "remote_width t =
     (if t = OPAL_UINT8 \<or> t = OPAL_INT8 then Some 1
      else if t = OPAL_UINT16 \<or> t = OPAL_INT16 then Some 2
      else if t = OPAL_UINT32 \<or> t = OPAL_INT32 then Some 4
      else if t = OPAL_UINT64 \<or> t = OPAL_INT64 then Some 8 else None)"

definition remote_signed :: "opal_data_type \<Rightarrow> bool" where
  "remote_signed t \<longleftrightarrow> t = OPAL_INT8 \<or> t = OPAL_INT16 \<or> t = OPAL_INT32 \<or> t = OPAL_INT64"

definition remote_values :: "opal_data_type \<Rightarrow> dss_data \<Rightarrow> int list" where
  "remote_values t d =
     (case d of
        D8 xs \<Rightarrow> map (\<lambda>x. if remote_signed t then sint x else uint x) xs
      | D16 xs \<Rightarrow> map (\<lambda>x. if remote_signed t then sint x else uint x) xs
      | D32 xs \<Rightarrow> map (\<lambda>x. if remote_signed t then sint x else uint x) xs
      | D64 xs \<Rightarrow> map (\<lambda>x. if remote_signed t then sint x else uint x) xs
      | _ \<Rightarrow> [])"

definition unpack_remote ::
  "dss_env \<Rightarrow> dss_table \<Rightarrow> opal_data_type \<Rightarrow> (int list \<Rightarrow> dss_data) \<Rightarrow> int \<Rightarrow> opal_data_type \<Rightarrow>
   dss_data dss" where
  "unpack_remote env tbl rep convert num_vals remote_type =
     (if remote_type = rep then opal_dss_unpack_buffer tbl num_vals rep
      else case remote_width remote_type of
             None \<Rightarrow> dss_fail OPAL_ERR_NOT_FOUND
           | Some w \<Rightarrow>
               if \<not> c_alloc_ok env (sz_mul w (to_size_t num_vals)) then dss_fail C_UNDEFINED
               else dss_bind (opal_dss_unpack_buffer tbl num_vals remote_type)
                      (\<lambda>d. dss_return (convert (remote_values remote_type d))))"

definition remote_type_of :: "dss_table \<Rightarrow> opal_data_type dss" where
  "remote_type_of tbl = (\<lambda>b. if buf_type b = OPAL_DSS_BUFFER_FULLY_DESC then opal_dss_peek_type tbl b
                             else opal_dss_get_data_type tbl b)"

definition unpack_generic ::
  "dss_env \<Rightarrow> dss_table \<Rightarrow> opal_data_type \<Rightarrow> (int list \<Rightarrow> dss_data) \<Rightarrow> int \<Rightarrow> dss_data dss" where
  "unpack_generic env tbl rep convert num_vals =
     dss_bind (remote_type_of tbl) (unpack_remote env tbl rep convert num_vals)"

definition opal_dss_unpack_bool :: "dss_env \<Rightarrow> dss_table \<Rightarrow> int \<Rightarrow> dss_data dss" where
  "opal_dss_unpack_bool env tbl =
     unpack_generic env tbl DSS_TYPE_BOOL (\<lambda>is. D8 (map (\<lambda>i. if i = 0 then 0 else 1) is))"

definition opal_dss_unpack_int :: "dss_env \<Rightarrow> dss_table \<Rightarrow> int \<Rightarrow> dss_data dss" where
  "opal_dss_unpack_int env tbl =
     unpack_generic env tbl DSS_TYPE_INT (\<lambda>is. D32 (map word_of_int is))"

definition opal_dss_unpack_sizet :: "dss_env \<Rightarrow> dss_table \<Rightarrow> int \<Rightarrow> dss_data dss" where
  "opal_dss_unpack_sizet env tbl =
     unpack_generic env tbl DSS_TYPE_SIZE_T (\<lambda>is. D64 (map word_of_int is))"

definition opal_dss_unpack_pid :: "dss_env \<Rightarrow> dss_table \<Rightarrow> int \<Rightarrow> dss_data dss" where
  "opal_dss_unpack_pid env tbl =
     unpack_generic env tbl DSS_TYPE_PID_T (\<lambda>is. D32 (map word_of_int is))"

definition opal_dss_pack_data_type :: "dss_table \<Rightarrow> dss_data \<Rightarrow> int \<Rightarrow> unit dss" where
  "opal_dss_pack_data_type tbl src num_vals = opal_dss_pack_buffer tbl src num_vals OPAL_DATA_TYPE_T"

definition opal_dss_unpack_data_type :: "dss_table \<Rightarrow> int \<Rightarrow> dss_data dss" where
  "opal_dss_unpack_data_type tbl num_vals = opal_dss_unpack_buffer tbl num_vals OPAL_DATA_TYPE_T"

definition opal_dss_pack_jobid :: "dss_table \<Rightarrow> dss_data \<Rightarrow> int \<Rightarrow> unit dss" where
  "opal_dss_pack_jobid tbl src num_vals = opal_dss_pack_buffer tbl src num_vals OPAL_JOBID_T"

definition opal_dss_unpack_jobid :: "dss_table \<Rightarrow> int \<Rightarrow> dss_data dss" where
  "opal_dss_unpack_jobid tbl num_vals = opal_dss_unpack_buffer tbl num_vals OPAL_JOBID_T"

definition opal_dss_pack_vpid :: "dss_table \<Rightarrow> dss_data \<Rightarrow> int \<Rightarrow> unit dss" where
  "opal_dss_pack_vpid tbl src num_vals = opal_dss_pack_buffer tbl src num_vals OPAL_VPID_T"

definition opal_dss_unpack_vpid :: "dss_table \<Rightarrow> int \<Rightarrow> dss_data dss" where
  "opal_dss_unpack_vpid tbl num_vals = opal_dss_unpack_buffer tbl num_vals OPAL_VPID_T"

text \<open>
  A list of names travels as the array of its job ids and the array of its process ids.
\<close>

definition opal_dss_pack_name :: "dss_env \<Rightarrow> dss_table \<Rightarrow> dss_data \<Rightarrow> int \<Rightarrow> unit dss" where
  "opal_dss_pack_name env tbl src num_vals =
     (case src of
        DName procs \<Rightarrow>
          if \<not> c_alloc_ok env (sz_mul (to_size_t num_vals) 4) then dss_fail OPAL_ERR_OUT_OF_RESOURCE
          else if int (length procs) < num_vals then dss_fail C_UNDEFINED
          else dss_bind (opal_dss_pack_jobid tbl (D32 (map jobid (take (nat num_vals) procs))) num_vals)
                 (\<lambda>_. opal_dss_pack_vpid tbl (D32 (map vpid (take (nat num_vals) procs))) num_vals)
      | _ \<Rightarrow> dss_fail C_UNDEFINED)"

definition opal_dss_unpack_name :: "dss_env \<Rightarrow> dss_table \<Rightarrow> int \<Rightarrow> dss_data dss" where
  "opal_dss_unpack_name env tbl num_vals =
     (if \<not> c_alloc_ok env (sz_mul (to_size_t num_vals) 4) then dss_fail OPAL_ERR_OUT_OF_RESOURCE
      else
        dss_bind (opal_dss_unpack_jobid tbl num_vals) (\<lambda>js.
        dss_bind (opal_dss_unpack_vpid tbl num_vals) (\<lambda>vs.
          case (js, vs) of
            (D32 js, D32 vs) \<Rightarrow>
              dss_return (DName (map2 (\<lambda>j v. \<lparr>jobid = j, vpid = v\<rparr>) js vs))
          | _ \<Rightarrow> dss_fail C_UNDEFINED)))"

section \<open>The registered functions\<close>

definition intrinsic_types :: "dss_env \<Rightarrow> dss_table" where
  "intrinsic_types env t =
     (if t = OPAL_NULL then
        Some \<lparr>odti_pack_fn = opal_dss_pack_null env, odti_unpack_fn = opal_dss_unpack_null\<rparr>
      else if t = OPAL_BYTE \<or> t = OPAL_INT8 \<or> t = OPAL_UINT8 then
        Some \<lparr>odti_pack_fn = opal_dss_pack_byte env, odti_unpack_fn = opal_dss_unpack_byte\<rparr>
      else if t = OPAL_INT16 \<or> t = OPAL_UINT16 then
        Some \<lparr>odti_pack_fn = opal_dss_pack_int16 env, odti_unpack_fn = opal_dss_unpack_int16\<rparr>
      else if t = OPAL_INT32 \<or> t = OPAL_UINT32 then
        Some \<lparr>odti_pack_fn = opal_dss_pack_int32 env, odti_unpack_fn = opal_dss_unpack_int32\<rparr>
      else if t = OPAL_INT64 \<or> t = OPAL_UINT64 then
        Some \<lparr>odti_pack_fn = opal_dss_pack_int64 env, odti_unpack_fn = opal_dss_unpack_int64\<rparr>
      else if t = OPAL_STRING then
        Some \<lparr>odti_pack_fn = opal_dss_pack_string env, odti_unpack_fn = opal_dss_unpack_string env\<rparr>
      else if t = OPAL_BYTE_OBJECT then
        Some \<lparr>odti_pack_fn = opal_dss_pack_byte_object env,
              odti_unpack_fn = opal_dss_unpack_byte_object env\<rparr>
      else if t = OPAL_FLOAT then
        Some \<lparr>odti_pack_fn = opal_dss_pack_float env, odti_unpack_fn = opal_dss_unpack_float env\<rparr>
      else if t = OPAL_DOUBLE then
        Some \<lparr>odti_pack_fn = opal_dss_pack_double env, odti_unpack_fn = opal_dss_unpack_double env\<rparr>
      else if t = OPAL_TIMEVAL then
        Some \<lparr>odti_pack_fn = opal_dss_pack_timeval env, odti_unpack_fn = opal_dss_unpack_timeval\<rparr>
      else if t = OPAL_TIME then
        Some \<lparr>odti_pack_fn = opal_dss_pack_time env, odti_unpack_fn = opal_dss_unpack_time\<rparr>
      else None)"

text \<open>The generic types, whose functions use the intrinsic ones through the table.\<close>

definition opal_dss_types :: "dss_env \<Rightarrow> dss_table" where
  "opal_dss_types env t =
     (let tbl = intrinsic_types env
      in if t = OPAL_BOOL then
           Some \<lparr>odti_pack_fn = opal_dss_pack_bool tbl, odti_unpack_fn = opal_dss_unpack_bool env tbl\<rparr>
         else if t = OPAL_INT \<or> t = OPAL_UINT then
           Some \<lparr>odti_pack_fn = opal_dss_pack_int tbl, odti_unpack_fn = opal_dss_unpack_int env tbl\<rparr>
         else if t = OPAL_SIZE then
           Some \<lparr>odti_pack_fn = opal_dss_pack_sizet tbl, odti_unpack_fn = opal_dss_unpack_sizet env tbl\<rparr>
         else if t = OPAL_PID then
           Some \<lparr>odti_pack_fn = opal_dss_pack_pid tbl, odti_unpack_fn = opal_dss_unpack_pid env tbl\<rparr>
         else if t = OPAL_DATA_TYPE then
           Some \<lparr>odti_pack_fn = opal_dss_pack_data_type tbl,
                 odti_unpack_fn = opal_dss_unpack_data_type tbl\<rparr>
         else if t = OPAL_NAME then
           Some \<lparr>odti_pack_fn = opal_dss_pack_name env tbl,
                 odti_unpack_fn = opal_dss_unpack_name env tbl\<rparr>
         else if t = OPAL_JOBID then
           Some \<lparr>odti_pack_fn = opal_dss_pack_jobid tbl, odti_unpack_fn = opal_dss_unpack_jobid tbl\<rparr>
         else if t = OPAL_VPID then
           Some \<lparr>odti_pack_fn = opal_dss_pack_vpid tbl, odti_unpack_fn = opal_dss_unpack_vpid tbl\<rparr>
         else tbl t)"

section \<open>Wire format of the words\<close>

lemma length_be_bytes [simp]: "length (be_bytes n x) = n"
  by (induction n) auto

lemma foldl_be: "foldl (\<lambda>a (b::u8). a * 256 + unat b) k bs = k * 256 ^ length bs + of_be bs"
proof (induction bs arbitrary: k)
  case Nil
  then show ?case by (simp add: of_be_def)
next
  case (Cons b bs)
  have "of_be (b # bs) = unat b * 256 ^ length bs + of_be bs"
    using Cons.IH[of "unat b"] by (simp add: of_be_def)
  then show ?case using Cons.IH[of "k * 256 + unat b"] by (simp add: algebra_simps)
qed

lemma of_be_Cons: "of_be (b # bs) = unat b * 256 ^ length bs + of_be bs"
  using foldl_be[of "unat b" bs] by (simp add: of_be_def)

lemma of_be_be_bytes: "of_be (be_bytes n x) = x mod 256 ^ n"
proof (induction n)
  case 0
  then show ?case by (simp add: of_be_def)
next
  case (Suc n)
  have "x mod 256 ^ Suc n = 256 ^ n * (x div 256 ^ n mod 256) + x mod 256 ^ n"
    using mod_mult2_eq[of x "256 ^ n" 256] by (simp add: mult.commute)
  then show ?case by (simp add: of_be_Cons Suc.IH unat_of_nat mult.commute)
qed

lemma unat_bound: "unat (w :: 'a::len word) < 2 ^ LENGTH('a)"
  by (rule unsigned_less)

lemma of_be_word [simp]:
  "word_of_nat (of_be (be_bytes 2 (unat (x::u16)))) = x"
  "word_of_nat (of_be (be_bytes 4 (unat (y::u32)))) = y"
  "word_of_nat (of_be (be_bytes 8 (unat (z::u64)))) = z"
  using unat_bound[of x] unat_bound[of y] unat_bound[of z]
  by (simp_all add: of_be_be_bytes)

lemma chunks_concat:
  "(\<And>x. x \<in> set xs \<Longrightarrow> length (f x) = n) \<Longrightarrow> chunks (length xs) n (concat (map f xs) @ ys) = map f xs"
  by (induction xs) auto

lemma length_concat_map:
  "(\<And>x. x \<in> set xs \<Longrightarrow> length (f x) = n) \<Longrightarrow> length (concat (map f xs)) = length xs * n"
  by (induction xs) auto

section \<open>Round trips\<close>

text \<open>
  \<open>transfers env t p u x\<close>: there are bytes that \<open>p\<close> appends and from which \<open>u\<close>
  reads \<open>x\<close> back.
\<close>

definition transfers :: "dss_env \<Rightarrow> bool \<Rightarrow> buffer_type \<Rightarrow> unit dss \<Rightarrow> 'a dss \<Rightarrow> 'a \<Rightarrow> bool" where
  "transfers env nn t p u x \<longleftrightarrow> (\<exists>bs. packs env nn t p bs \<and> reads env t u x bs)"

named_theorems transfer_rules

lemma transfers_bind [transfer_rules]:
  assumes "transfers env nn t p u x" "transfers env True t (q ()) (v x) y"
  shows "transfers env nn t (dss_bind p q) (dss_bind u v) y"
  using assms unfolding transfers_def by (blast intro: packs_bind reads_bind)

lemma transfers_return [transfer_rules]: "transfers env True t (dss_return ()) (dss_return x) x"
  unfolding transfers_def by (blast intro: packs_return reads_return)

lemma dss_bind_return [simp]: "dss_bind m dss_return = m"
  by (rule ext) (auto simp: dss_bind_def dss_return_def split: prod.split sum.split)

lemma return_dss_bind [simp]: "dss_bind (dss_return x) f = f x"
  by (rule ext) (simp add: dss_bind_def dss_return_def)

lemma fail_dss_bind [simp]: "dss_bind (dss_fail e) f = dss_fail e"
  by (rule ext) (simp add: dss_bind_def dss_fail_def)

lemma dss_bind_assoc: "dss_bind (dss_bind m f) g = dss_bind m (\<lambda>x. dss_bind (f x) g)"
  by (rule ext) (auto simp: dss_bind_def split: prod.split sum.split)

text \<open>Post-processing what was read.\<close>

lemma transfers_map:
  assumes "transfers env nn t p u x" "f x = dss_return y"
  shows "transfers env nn t p (dss_bind u f) y"
  using assms reads_bind[where v = f and bs' = "[]"] reads_return[of env t y]
  unfolding transfers_def by fastforce

lemma reads_bind_return:
  assumes "reads env t u x bs" "f x = dss_return y"
  shows "reads env t (dss_bind u f) y bs"
  using reads_bind[OF assms(1), of f y "[]"] assms(2) reads_return by fastforce

lemma transfersI: "packs env nn t p bs \<Longrightarrow> reads env t u x bs \<Longrightarrow> transfers env nn t p u x"
  by (auto simp: transfers_def)

subsection \<open>Arrays of words\<close>

lemma packs_vals:
  assumes "length xs < 2 ^ 31" "sz \<le> 16" "0 < sz" "\<And>x. length (f x) = sz" "nn \<or> xs \<noteq> []"
  shows "packs env nn t (pack_vals env sz f xs (int (length xs))) (concat (map f xs))"
proof -
  let ?bs = "concat (map f xs)"
  have len: "length ?bs = length xs * sz" using length_concat_map[of xs f sz] assms(4) by simp
  have "length xs * sz \<le> 2 ^ 31 * 16" using assms(1,2) by (intro mult_le_mono) auto
  then have "sz_mul (to_size_t (int (length xs))) sz = length ?bs" using assms(1) len by simp
  moreover have "0 < length ?bs" if "xs \<noteq> []" using that assms(3) len by simp
  then have "nn \<or> ?bs \<noteq> []" using assms(5) by fastforce
  ultimately show ?thesis using packs_store[of nn ?bs] by (simp add: pack_vals_def)
qed

lemma reads_vals:
  assumes "length xs < 2 ^ 31" "sz \<le> 16" "\<And>x. length (f x) = sz"
  shows "reads env t (unpack_vals sz (int (length xs))) (map (of_be \<circ> f) xs) (concat (map f xs))"
proof -
  let ?bs = "concat (map f xs)"
  have len: "length ?bs = length xs * sz" using length_concat_map[of xs f sz] assms(3) by simp
  have "length xs * sz \<le> 2 ^ 31 * 16" using assms(1,2) by (intro mult_le_mono) auto
  then have "length ?bs = sz_mul (to_size_t (int (length xs))) sz" using assms(1) len by simp
  then show ?thesis unfolding unpack_vals_def
    using chunks_concat[of xs f sz "[]"] assms(3) by (intro reads_bind_return[OF reads_read]) auto
qed

lemma packs_byte:
  "length xs < 2 ^ 31 \<Longrightarrow> nn \<or> xs \<noteq> [] \<Longrightarrow>
   packs env nn t (opal_dss_pack_byte env (D8 xs) (int (length xs))) xs"
  using packs_vals[of xs 1 "\<lambda>x. [x]" nn env t] by (simp add: opal_dss_pack_byte_def concat_map_singleton)

lemma packs_int16:
  "length xs < 2 ^ 31 \<Longrightarrow> nn \<or> xs \<noteq> [] \<Longrightarrow>
   packs env nn t (opal_dss_pack_int16 env (D16 xs) (int (length xs)))
     (concat (map (\<lambda>x. be_bytes 2 (unat x)) xs))"
  using packs_vals[of xs 2 "\<lambda>x. be_bytes 2 (unat x)" nn env t] by (simp add: opal_dss_pack_int16_def)

lemma packs_int32:
  "length xs < 2 ^ 31 \<Longrightarrow> nn \<or> xs \<noteq> [] \<Longrightarrow>
   packs env nn t (opal_dss_pack_int32 env (D32 xs) (int (length xs)))
     (concat (map (\<lambda>x. be_bytes 4 (unat x)) xs))"
  using packs_vals[of xs 4 "\<lambda>x. be_bytes 4 (unat x)" nn env t] by (simp add: opal_dss_pack_int32_def)

lemma packs_int64:
  "length xs < 2 ^ 31 \<Longrightarrow> nn \<or> xs \<noteq> [] \<Longrightarrow>
   packs env nn t (opal_dss_pack_int64 env (D64 xs) (int (length xs)))
     (concat (map (\<lambda>x. be_bytes 8 (unat x)) xs))"
  using packs_vals[of xs 8 "\<lambda>x. be_bytes 8 (unat x)" nn env t] by (simp add: opal_dss_pack_int64_def)

lemma reads_byte:
  "length xs < 2 ^ 31 \<Longrightarrow> reads env t (opal_dss_unpack_byte (int (length xs))) (D8 xs) xs"
  unfolding opal_dss_unpack_byte_def by (rule reads_bind_return[OF reads_read]) auto

lemma reads_int16:
  "length xs < 2 ^ 31 \<Longrightarrow>
   reads env t (opal_dss_unpack_int16 (int (length xs))) (D16 xs) (concat (map (\<lambda>x. be_bytes 2 (unat x)) xs))"
  unfolding opal_dss_unpack_int16_def by (rule reads_bind_return[OF reads_vals]) (auto simp: o_def)

lemma reads_int32:
  "length xs < 2 ^ 31 \<Longrightarrow>
   reads env t (opal_dss_unpack_int32 (int (length xs))) (D32 xs) (concat (map (\<lambda>x. be_bytes 4 (unat x)) xs))"
  unfolding opal_dss_unpack_int32_def by (rule reads_bind_return[OF reads_vals]) (auto simp: o_def)

lemma reads_int64:
  "length xs < 2 ^ 31 \<Longrightarrow>
   reads env t (opal_dss_unpack_int64 (int (length xs))) (D64 xs) (concat (map (\<lambda>x. be_bytes 8 (unat x)) xs))"
  unfolding opal_dss_unpack_int64_def by (rule reads_bind_return[OF reads_vals]) (auto simp: o_def)

text \<open>One word at a time.\<close>

lemma packs_one:
  "packs env nn t (opal_dss_pack_byte env (D8 [x]) 1) [x]"
  "packs env nn t (opal_dss_pack_int32 env (D32 [y]) 1) (be_bytes 4 (unat y))"
  "packs env nn t (opal_dss_pack_int64 env (D64 [z]) 1) (be_bytes 8 (unat z))"
  using packs_byte[of "[x]" nn env t] packs_int32[of "[y]" nn env t] packs_int64[of "[z]" nn env t]
  by (simp_all del: be_bytes.simps)

lemma reads_one:
  "reads env t (dss_bind (opal_dss_unpack_byte 1) get8) x [x]"
  "reads env t (dss_bind (opal_dss_unpack_int32 1) get32) y (be_bytes 4 (unat y))"
  "reads env t (dss_bind (opal_dss_unpack_int64 1) get64) z (be_bytes 8 (unat z))"
  using reads_byte[of "[x]" env t] reads_int32[of "[y]" env t] reads_int64[of "[z]" env t]
  by (auto intro!: reads_bind_return simp: get8_def get32_def get64_def simp del: be_bytes.simps)

subsection \<open>Strings\<close>

definition wf_string :: "string option \<Rightarrow> bool" where
  "wf_string so = (case so of None \<Rightarrow> True | Some s \<Rightarrow> length s < 2 ^ 31 - 1 \<and> CHR 0x00 \<notin> set s)"

definition string_enc :: "string option \<Rightarrow> u8 list" where
  "string_enc so = (case so of None \<Rightarrow> be_bytes 4 0
                    | Some s \<Rightarrow> be_bytes 4 (length s + 1) @ string_bytes s)"

lemma char_byte:
  "char_of (unat (word_of_nat (of_char c) :: u8)) = c"
  "(word_of_nat (of_char c) :: u8) = 0 \<longleftrightarrow> c = CHR 0x00"
proof -
  have u: "unat (word_of_nat (of_char c) :: u8) = of_char c" by (simp add: unat_of_nat)
  then show "char_of (unat (word_of_nat (of_char c) :: u8)) = c" by simp
  have "(word_of_nat (of_char c) :: u8) = 0 \<longleftrightarrow> unat (word_of_nat (of_char c) :: u8) = 0"
    by (simp add: unat_eq_0)
  also have "\<dots> \<longleftrightarrow> (of_char c :: nat) = of_char (CHR 0x00)" using u by simp
  finally show "(word_of_nat (of_char c) :: u8) = 0 \<longleftrightarrow> c = CHR 0x00" by (simp only: of_char_eq_iff)
qed

lemma u32_of_length:
  assumes "n < 2 ^ 31"
  shows "unat (word_of_int (int n) :: u32) = n" "sint (word_of_int (int n) :: u32) = int n"
proof -
  show "unat (word_of_int (int n) :: u32) = n"
    using assms by (simp add: unat_of_nat)
  show "sint (word_of_int (int n) :: u32) = int n"
    using assms by (simp only: signed_of_int) (simp add: signed_take_bit_int_eq_self)
qed

lemma bytes_string_bytes:
  assumes "CHR 0x00 \<notin> set s"
  shows "bytes_string (string_bytes s) = Some s"
proof -
  let ?bs = "map (\<lambda>c. word_of_nat (of_char c)) s :: u8 list"
  have "\<forall>x \<in> set ?bs. x \<noteq> 0" using assms char_byte(2) by fastforce
  then have "takeWhile (\<lambda>b. b \<noteq> 0) (?bs @ [0]) = ?bs"
    by (subst takeWhile_append2) auto
  then show ?thesis by (simp add: bytes_string_def string_bytes_def o_def char_byte(1))
qed

lemma length_string_bytes [simp]: "length (string_bytes s) = length s + 1"
  by (simp add: string_bytes_def)

lemma packs_one_string:
  assumes "wf_string so"
  shows "packs env nn t (pack_one_string env so) (string_enc so)"
proof (cases so)
  case None
  then show ?thesis using packs_one(2)[of env nn t 0]
    by (simp add: pack_one_string_def string_enc_def del: be_bytes.simps)
next
  case (Some s)
  then have s: "length s < 2 ^ 31 - 1" using assms by (simp add: wf_string_def)
  define n where "n = length (string_bytes s)"
  have n: "n < 2 ^ 31" "n = length s + 1" using s by (auto simp: n_def)
  have "packs env nn t (dss_bind (opal_dss_pack_int32 env (D32 [word_of_int (int n)]) 1)
          (\<lambda>_. opal_dss_pack_byte env (D8 (string_bytes s)) (int n)))
          (be_bytes 4 (unat (word_of_int (int n) :: u32)) @ string_bytes s)"
    unfolding n_def using s by (intro packs_bind packs_one packs_byte) auto
  moreover have "c_int32 (int (length s)) + 1 = int n" using s n by simp
  ultimately show ?thesis using Some n(1) u32_of_length(1)[OF n(1)]
    by (simp add: pack_one_string_def string_enc_def Let_def INT_MAX_def n(2) add.commute
        del: be_bytes.simps)
qed

lemma reads_step:
  "reads env t (dss_bind u f) x bs \<Longrightarrow> reads env t (g x) y bs' \<Longrightarrow>
   reads env t (dss_bind u (\<lambda>d. dss_bind (f d) g)) y (bs @ bs')"
  unfolding dss_bind_assoc[symmetric] by (rule reads_bind)

lemma env_ok_alloc: "env_ok env \<Longrightarrow> n < 2 ^ 63 \<Longrightarrow> c_alloc_ok env n"
  by (simp add: env_ok_def c_alloc_ok_def)

text \<open>Allocations succeed wherever \<open>reads\<close> says anything.\<close>

lemma reads_env: "(env_ok env \<Longrightarrow> reads env t u x bs) \<Longrightarrow> reads env t u x bs"
  by (auto simp: reads_def)

lemma reads_one_string:
  assumes "wf_string so"
  shows "reads env t (unpack_one_string env) so (string_enc so)"
proof (rule reads_env)
  assume env: "env_ok env"
  show ?thesis
  proof (cases so)
    case None
    have enc: "string_enc so = be_bytes 4 (unat (0 :: u32))" using None by (simp add: string_enc_def)
    show ?thesis unfolding unpack_one_string_def dss_bind_assoc[symmetric] enc
      by (rule reads_bind_return[OF reads_one(2)]) (simp add: None)
  next
    case (Some s)
    then have s: "length s < 2 ^ 31 - 1" "CHR 0x00 \<notin> set s" using assms by (auto simp: wf_string_def)
    define n where "n = length (string_bytes s)"
    have n: "n < 2 ^ 31" "n = length s + 1" using s by (auto simp: n_def)
    define w where "w = (word_of_int (int n) :: u32)"
    have w: "unat w = n" "sint w = int n" using u32_of_length[OF n(1)] by (auto simp: w_def)
    have "w \<noteq> 0" using w(1) n(2) by auto
    moreover have "c_alloc_ok env (to_size_t (sint w))" using env_ok_alloc[OF env] n(1) w(2) by simp
    moreover have "reads env t (dss_bind (opal_dss_unpack_byte (sint w)) (\<lambda>d.
         case d of
           D8 bs \<Rightarrow> (case bytes_string bs of None \<Rightarrow> dss_fail C_UNDEFINED
                     | Some s \<Rightarrow> dss_return (Some s))
         | _ \<Rightarrow> dss_fail C_UNDEFINED)) (Some s) (string_bytes s)"
      unfolding w(2) n_def using s
      by (intro reads_bind_return[OF reads_byte]) (auto simp: bytes_string_bytes)
    moreover have enc: "string_enc (Some s) = be_bytes 4 (unat w) @ string_bytes s"
      using w n by (simp add: string_enc_def)
    ultimately show ?thesis unfolding unpack_one_string_def Some enc
      by (intro reads_step[OF reads_one(2)]) simp
  qed
qed

lemma string_enc_nonempty: "4 \<le> length (string_enc so)" "string_enc so \<noteq> []"
proof -
  show "4 \<le> length (string_enc so)" by (auto simp: string_enc_def split: option.split)
  then show "string_enc so \<noteq> []" by fastforce
qed

subsection \<open>Loops\<close>

lemma packs_seq:
  assumes "\<And>x. x \<in> set xs \<Longrightarrow> packs env True t (p x) (enc x)"
  shows "packs env True t (dss_seq (map p xs)) (concat (map enc xs))"
  using assms by (induction xs) (auto intro: packs_bind packs_return)

lemma packs_each:
  assumes "\<And>x. x \<in> set xs \<Longrightarrow> packs env True t (p x) (enc x)"
  shows "packs env True t (pack_each p xs (int (length xs))) (concat (map enc xs))"
  using packs_seq[OF assms] by (simp add: pack_each_def)

lemma reads_repeat:
  assumes "\<And>x. x \<in> set xs \<Longrightarrow> reads env t u x (enc x)"
  shows "reads env t (dss_repeat (length xs) u) xs (concat (map enc xs))"
  using assms
proof (induction xs)
  case Nil
  then show ?case by (simp add: reads_return)
next
  case (Cons x xs)
  then have "reads env t (dss_bind (dss_repeat (length xs) u) (\<lambda>xs. dss_return (x # xs))) (x # xs)
               (concat (map enc xs))"
    by (intro reads_bind_return[where x = xs]) auto
  then show ?case using Cons.prems by (auto intro!: reads_bind)
qed

lemma reads_guard:
  assumes "reads env t u x bs" "n \<le> length bs"
  shows "reads env t (dss_guard n u) x bs"
  unfolding reads_def
proof (intro allI impI)
  fix b rest assume b: "env_ok env" "buf_inv b" "buf_type b = t" "unread b = bs @ rest"
  then have "n \<le> bytes_used b - unpack_ptr b" using length_unread[of b] assms(2) by simp
  then have "\<not> opal_dss_too_small b n" using b(2) by (auto simp: opal_dss_too_small_def buf_inv_def)
  then show "dss_guard n u b = (Inr x, b\<lparr>unpack_ptr := unpack_ptr b + length bs\<rparr>)"
    using assms(1) b by (simp add: dss_guard_def reads_def)
qed

subsection \<open>The intrinsic types\<close>

text \<open>
  What each type's functions promise, as an interface: packing an array of \<open>ok\<close> values and
  unpacking as many gives the array.
\<close>

locale dss_codec =
  fixes pack_fn :: "dss_env \<Rightarrow> dss_data \<Rightarrow> int \<Rightarrow> unit dss"
    and unpack_fn :: "dss_env \<Rightarrow> int \<Rightarrow> dss_data dss"
    and arr :: "'a list \<Rightarrow> dss_data"
    and ok :: "dss_env \<Rightarrow> 'a \<Rightarrow> bool"
  assumes carries: "length xs < 2 ^ 31 \<Longrightarrow> (\<forall>x \<in> set xs. ok env x) \<Longrightarrow>
    transfers env True t (pack_fn env (arr xs) (int (length xs))) (unpack_fn env (int (length xs))) (arr xs)"
begin

lemma carries_one:
  "ok env x \<Longrightarrow> transfers env True t (pack_fn env (arr [x]) 1) (unpack_fn env 1) (arr [x])"
  using carries[of "[x]" env t] by simp

end

interpretation c_byte: dss_codec opal_dss_pack_byte "\<lambda>_. opal_dss_unpack_byte" D8 "\<lambda>_ _. True"
  by unfold_locales (rule transfersI[OF packs_byte reads_byte]; simp)

interpretation c_int16: dss_codec opal_dss_pack_int16 "\<lambda>_. opal_dss_unpack_int16" D16 "\<lambda>_ _. True"
  by unfold_locales (rule transfersI[OF packs_int16 reads_int16]; simp)

interpretation c_int32: dss_codec opal_dss_pack_int32 "\<lambda>_. opal_dss_unpack_int32" D32 "\<lambda>_ _. True"
  by unfold_locales (rule transfersI[OF packs_int32 reads_int32]; simp)

interpretation c_int64: dss_codec opal_dss_pack_int64 "\<lambda>_. opal_dss_unpack_int64" D64 "\<lambda>_ _. True"
  by unfold_locales (rule transfersI[OF packs_int64 reads_int64]; simp)

lemma packs_string:
  "\<forall>x \<in> set xs. wf_string x \<Longrightarrow>
   packs env True t (opal_dss_pack_string env (DString xs) (int (length xs))) (concat (map string_enc xs))"
  using packs_each[of xs env t "pack_one_string env" string_enc]
  by (simp add: opal_dss_pack_string_def packs_one_string)

lemma reads_string:
  "\<forall>x \<in> set xs. wf_string x \<Longrightarrow>
   reads env t (opal_dss_unpack_string env (int (length xs))) (DString xs) (concat (map string_enc xs))"
  unfolding opal_dss_unpack_string_def nat_int
  by (rule reads_bind_return[OF reads_repeat]) (auto simp: reads_one_string)

interpretation c_string: dss_codec opal_dss_pack_string opal_dss_unpack_string DString "\<lambda>_. wf_string"
  by unfold_locales (rule transfersI[OF packs_string reads_string])

lemma length_string_enc: "length (string_enc (Some s)) = length s + 5"
  by (simp add: string_enc_def)

lemma length_concat_ge:
  "(\<And>x. x \<in> set xs \<Longrightarrow> k \<le> length (f x)) \<Longrightarrow> length xs * k \<le> length (concat (map f xs))"
proof (induction xs)
  case (Cons x xs)
  then have "k \<le> length (f x)" "length xs * k \<le> length (concat (map f xs))" by auto
  then show ?case by simp
qed simp

lemma guard_size:
  assumes "length xs < 2 ^ 31" "k \<le> 16"
  shows "sz_mul (to_size_t (int (length xs))) k = length xs * k"
proof -
  have "length xs * k \<le> 2 ^ 31 * 16" using assms by (intro mult_le_mono) auto
  then show ?thesis using assms(1) by simp
qed

text \<open>A loop that transfers the elements one by one, after the length check.\<close>

lemma transfers_each_guarded:
  assumes small: "length xs < 2 ^ 31" "k \<le> 16"
    and each: "\<And>x. x \<in> set xs \<Longrightarrow> packs env True t (p x) (enc x)"
      "\<And>x. x \<in> set xs \<Longrightarrow> reads env t u x (enc x)" "\<And>x. x \<in> set xs \<Longrightarrow> k \<le> length (enc x)"
  shows "transfers env True t (pack_each p xs (int (length xs)))
           (dss_guard (sz_mul (to_size_t (int (length xs))) k)
              (dss_bind (dss_repeat (nat (int (length xs))) u) (\<lambda>xs. dss_return (c xs)))) (c xs)"
proof (rule transfersI)
  show "packs env True t (pack_each p xs (int (length xs))) (concat (map enc xs))"
    using each(1) by (rule packs_each)
  show "reads env t (dss_guard (sz_mul (to_size_t (int (length xs))) k)
          (dss_bind (dss_repeat (nat (int (length xs))) u) (\<lambda>xs. dss_return (c xs)))) (c xs)
          (concat (map enc xs))"
    unfolding guard_size[OF small] nat_int
    using length_concat_ge[of xs k enc] each
    by (intro reads_guard reads_bind_return[OF reads_repeat]) auto
qed

lemma number_text:
  assumes "wf_string (Some s)" "conv s = x"
  shows "packs env True t (opal_dss_pack_string env (DString [Some s]) 1) (string_enc (Some s))"
    and "reads env t (unpack_number_text env conv) x (string_enc (Some s))"
proof -
  show "packs env True t (opal_dss_pack_string env (DString [Some s]) 1) (string_enc (Some s))"
    using packs_string[of "[Some s]" env t] assms(1) by simp
  have "reads env t (opal_dss_unpack_string env 1) (DString [Some s]) (string_enc (Some s))"
    using reads_string[of "[Some s]" env t] assms(1) by simp
  then show "reads env t (unpack_number_text env conv) x (string_enc (Some s))"
    unfolding unpack_number_text_def using assms(2)
    by (intro reads_bind_return) (auto simp: getstr_def)
qed

text \<open>
  A floating point number travels as its \<^verbatim>\<open>%f\<close> text: it arrives where reading the text
  gives the number back.
\<close>

definition float_ok :: "dss_env \<Rightarrow> u32 \<Rightarrow> bool" where
  "float_ok env x \<longleftrightarrow> wf_string (Some (fmt_float env x)) \<and> str_float env (fmt_float env x) = x"

definition double_ok :: "dss_env \<Rightarrow> u64 \<Rightarrow> bool" where
  "double_ok env x \<longleftrightarrow> wf_string (Some (fmt_double env x)) \<and> 3 \<le> length (fmt_double env x) \<and>
                     str_double env (fmt_double env x) = x"

interpretation c_float: dss_codec opal_dss_pack_float opal_dss_unpack_float D32 float_ok
proof unfold_locales
  fix xs :: "u32 list" and env t
  assume "length xs < 2 ^ 31" and ok: "\<forall>x \<in> set xs. float_ok env x"
  then show "transfers env True t (opal_dss_pack_float env (D32 xs) (int (length xs)))
               (opal_dss_unpack_float env (int (length xs))) (D32 xs)"
    unfolding opal_dss_pack_float_def opal_dss_unpack_float_def dss_data.case
    by (intro transfers_each_guarded[where enc = "\<lambda>x. string_enc (Some (fmt_float env x))"])
       (auto intro!: number_text simp: float_ok_def string_enc_nonempty)
qed

interpretation c_double: dss_codec opal_dss_pack_double opal_dss_unpack_double D64 double_ok
proof unfold_locales
  fix xs :: "u64 list" and env t
  assume "length xs < 2 ^ 31" and ok: "\<forall>x \<in> set xs. double_ok env x"
  then show "transfers env True t (opal_dss_pack_double env (D64 xs) (int (length xs)))
               (opal_dss_unpack_double env (int (length xs))) (D64 xs)"
    unfolding opal_dss_pack_double_def opal_dss_unpack_double_def dss_data.case
    by (intro transfers_each_guarded[where enc = "\<lambda>x. string_enc (Some (fmt_double env x))"])
       (auto intro!: number_text simp: double_ok_def length_string_enc)
qed

interpretation c_time: dss_codec opal_dss_pack_time "\<lambda>_. opal_dss_unpack_time" D64 "\<lambda>_ _. True"
proof unfold_locales
  fix xs :: "u64 list" and env t
  assume "length xs < 2 ^ 31"
  then show "transfers env True t (opal_dss_pack_time env (D64 xs) (int (length xs)))
               (opal_dss_unpack_time (int (length xs))) (D64 xs)"
    unfolding opal_dss_pack_time_def opal_dss_unpack_time_def dss_data.case
    by (intro transfers_each_guarded[where enc = "\<lambda>x. be_bytes 8 (unat x)"] packs_one reads_one) auto
qed

interpretation c_timeval: dss_codec opal_dss_pack_timeval "\<lambda>_. opal_dss_unpack_timeval" DTimeval "\<lambda>_ _. True"
proof unfold_locales
  fix xs :: "(u64 \<times> u64) list" and env t
  assume small: "length xs < 2 ^ 31"
  have p: "packs env True t (opal_dss_pack_int64 env (D64 [s, us]) 2) (be_bytes 8 (unat s) @ be_bytes 8 (unat us))" for s us
    using packs_int64[of "[s, us]" True env t] by (simp del: be_bytes.simps)
  have r: "reads env t (opal_dss_unpack_int64 2) (D64 [s, us]) (be_bytes 8 (unat s) @ be_bytes 8 (unat us))" for s us
    using reads_int64[of "[s, us]" env t] by (simp del: be_bytes.simps)
  show "transfers env True t (opal_dss_pack_timeval env (DTimeval xs) (int (length xs)))
               (opal_dss_unpack_timeval (int (length xs))) (DTimeval xs)"
    unfolding opal_dss_pack_timeval_def opal_dss_unpack_timeval_def dss_data.case
    using small
    by (intro transfers_each_guarded[where enc = "\<lambda>(s, us). be_bytes 8 (unat s) @ be_bytes 8 (unat us)"])
       (auto intro!: p reads_bind_return[OF r] simp del: be_bytes.simps)
qed

text \<open>A byte object that is consistent: its bytes are there exactly when its size is positive.\<close>

definition bo_ok :: "opal_byte_object \<Rightarrow> bool" where
  "bo_ok bo \<longleftrightarrow>
     (case bo_bytes bo of None \<Rightarrow> sint (bo_size bo) \<le> 0
      | Some bs \<Rightarrow> 0 < sint (bo_size bo) \<and> int (length bs) = sint (bo_size bo))"

lemma sint_u32_less: "sint (w :: u32) < 2 ^ 31"
  using sint_lt[of w] by simp

lemma byte_object_carried:
  assumes "bo_ok bo"
  shows "packs env True t (pack_one_byte_object env bo)
           (be_bytes 4 (unat (bo_size bo)) @ (case bo_bytes bo of None \<Rightarrow> [] | Some bs \<Rightarrow> bs))" (is ?p)
    and "reads env t (unpack_bo_bytes env) bo
           (be_bytes 4 (unat (bo_size bo)) @ (case bo_bytes bo of None \<Rightarrow> [] | Some bs \<Rightarrow> bs))" (is ?r)
proof -
  show ?p unfolding pack_one_byte_object_def
  proof (intro packs_bind packs_one)
    show "packs env True t (if 0 < sint (bo_size bo)
            then opal_dss_pack_byte env (D8 (case bo_bytes bo of None \<Rightarrow> [] | Some bs \<Rightarrow> bs)) (sint (bo_size bo))
            else dss_return ()) (case bo_bytes bo of None \<Rightarrow> [] | Some bs \<Rightarrow> bs)"
    proof (cases "bo_bytes bo")
      case None
      then show ?thesis using assms by (simp add: bo_ok_def packs_return)
    next
      case (Some bs)
      then have "sint (bo_size bo) = int (length bs)" "0 < sint (bo_size bo)" using assms by (auto simp: bo_ok_def)
      then show ?thesis using packs_byte[of bs True env t] sint_u32_less[of "bo_size bo"] Some by simp
    qed
  qed
  show ?r unfolding unpack_bo_bytes_def
  proof (rule reads_env, intro reads_step[OF reads_one(2)])
    assume env: "env_ok env"
    show "reads env t (if 0 < sint (bo_size bo)
            then if \<not> c_alloc_ok env (to_size_t (sint (bo_size bo))) then dss_fail OPAL_ERR_OUT_OF_RESOURCE
                 else dss_bind (opal_dss_unpack_byte (sint (bo_size bo))) (\<lambda>d.
                   case d of D8 bs \<Rightarrow> dss_return \<lparr>bo_size = bo_size bo, bo_bytes = Some bs\<rparr>
                           | _ \<Rightarrow> dss_fail C_UNDEFINED)
            else dss_return \<lparr>bo_size = bo_size bo, bo_bytes = None\<rparr>) bo
            (case bo_bytes bo of None \<Rightarrow> [] | Some bs \<Rightarrow> bs)"
    proof (cases "bo_bytes bo")
      case None
      then show ?thesis using assms reads_return[of env t bo] by (cases bo) (simp add: bo_ok_def)
    next
      case (Some bs)
      then have bs: "sint (bo_size bo) = int (length bs)" "0 < int (length bs)" using assms by (auto simp: bo_ok_def)
      then have small: "length bs < 2 ^ 31" using sint_u32_less[of "bo_size bo"] by simp
      then have "c_alloc_ok env (length bs)" using env_ok_alloc[OF env] by simp
      then show ?thesis using Some bs small
        by (auto intro!: reads_bind_return[OF reads_byte]) (cases bo, simp)
    qed
  qed
qed

interpretation c_byte_object: dss_codec opal_dss_pack_byte_object opal_dss_unpack_byte_object DByteObj "\<lambda>_. bo_ok"
proof unfold_locales
  fix xs env t
  assume "length xs < 2 ^ 31" and ok: "\<forall>x \<in> set xs. bo_ok x"
  let ?enc = "\<lambda>bo. be_bytes 4 (unat (bo_size bo)) @ (case bo_bytes bo of None \<Rightarrow> [] | Some bs \<Rightarrow> bs)"
  have "packs env True t (opal_dss_pack_byte_object env (DByteObj xs) (int (length xs))) (concat (map ?enc xs))"
    unfolding opal_dss_pack_byte_object_def dss_data.case using ok
    by (intro packs_each byte_object_carried) auto
  moreover have "reads env t (opal_dss_unpack_byte_object env (int (length xs))) (DByteObj xs) (concat (map ?enc xs))"
  proof (rule reads_env)
    assume "env_ok env"
    then have "c_alloc_ok env sizeof_byte_object" by (simp add: env_ok_alloc sizeof_byte_object_def)
    then show ?thesis unfolding opal_dss_unpack_byte_object_def nat_int using ok
      by (intro reads_bind_return[OF reads_repeat]) (auto intro!: byte_object_carried)
  qed
  ultimately show "transfers env True t (opal_dss_pack_byte_object env (DByteObj xs) (int (length xs)))
               (opal_dss_unpack_byte_object env (int (length xs))) (DByteObj xs)"
    by (rule transfersI)
qed

subsection \<open>Described and undescribed buffers\<close>

lemma packs_cong: "(\<And>b. buf_type b = t \<Longrightarrow> p b = q b) \<Longrightarrow> packs env nn t p bs = packs env nn t q bs"
  by (simp add: packs_def)

lemma reads_cong: "(\<And>b. buf_type b = t \<Longrightarrow> u b = v b) \<Longrightarrow> reads env t u x bs = reads env t v x bs"
  by (auto simp: reads_def)

lemma transfers_cong:
  "(\<And>b. buf_type b = t \<Longrightarrow> p b = q b) \<Longrightarrow> (\<And>b. buf_type b = t \<Longrightarrow> u b = v b) \<Longrightarrow>
   transfers env nn t p u x = transfers env nn t q v x"
  using packs_cong[of t p q env nn] reads_cong[of t u v env x] by (simp add: transfers_def)

lemma if_described_full:
  "buf_type b = OPAL_DSS_BUFFER_FULLY_DESC \<Longrightarrow> dss_bind (if_described m) f b = dss_bind m f b"
  by (simp add: dss_bind_def if_described_def)

lemma if_described_non:
  "buf_type b = OPAL_DSS_BUFFER_NON_DESC \<Longrightarrow> dss_bind (if_described m) f b = f () b"
  by (simp add: dss_bind_def if_described_def)

text \<open>What the table must have for descriptions to work.\<close>

definition tbl_ok :: "dss_env \<Rightarrow> dss_table \<Rightarrow> bool" where
  "tbl_ok env tbl \<longleftrightarrow>
     (\<exists>info. tbl OPAL_DATA_TYPE_T = Some info \<and> odti_pack_fn info = opal_dss_pack_byte env \<and>
             odti_unpack_fn info = opal_dss_unpack_byte)"

lemma packs_tag: "tbl_ok env tbl \<Longrightarrow> packs env nn t (opal_dss_store_data_type tbl ty) [ty]"
  by (auto simp: tbl_ok_def opal_dss_store_data_type_def intro: packs_one)

lemma reads_tag: "tbl_ok env tbl \<Longrightarrow> reads env t (opal_dss_get_data_type tbl) ty [ty]"
  by (auto simp: tbl_ok_def opal_dss_get_data_type_def intro: reads_one)

text \<open>A checked description: written, read back, compared.\<close>

lemma transfers_tag:
  assumes "tbl_ok env tbl"
  shows "transfers env nn t (opal_dss_store_data_type tbl ty)
           (dss_bind (opal_dss_get_data_type tbl) (\<lambda>local_type.
              if ty \<noteq> local_type then dss_fail e else dss_return ())) ()"
  using assms by (intro transfersI[OF packs_tag reads_bind_return[OF reads_tag]]) auto

lemma transfers_described:
  assumes "tbl_ok env tbl" "transfers env True t (q ()) (v ()) x"
    and "t = OPAL_DSS_BUFFER_NON_DESC \<Longrightarrow> transfers env nn t (q ()) (v ()) x"
  shows "transfers env nn t (dss_bind (if_described (opal_dss_store_data_type tbl ty)) q)
           (dss_bind (if_described (dss_bind (opal_dss_get_data_type tbl) (\<lambda>local_type.
              if ty \<noteq> local_type then dss_fail e else dss_return ()))) v) x"
proof (cases t)
  case OPAL_DSS_BUFFER_NON_DESC
  then show ?thesis using assms(3) by (simp add: transfers_cong[OF if_described_non if_described_non])
next
  case OPAL_DSS_BUFFER_FULLY_DESC
  have "transfers env nn t (dss_bind (opal_dss_store_data_type tbl ty) q)
          (dss_bind (dss_bind (opal_dss_get_data_type tbl) (\<lambda>local_type.
              if ty \<noteq> local_type then dss_fail e else dss_return ())) v) x"
    by (rule transfers_bind[where x = "()"]) (fact transfers_tag[OF assms(1)] assms(2))+
  then show ?thesis using OPAL_DSS_BUFFER_FULLY_DESC
    by (simp add: transfers_cong[OF if_described_full if_described_full])
qed

lemma transfers_buffer:
  assumes "tbl_ok env tbl" "tbl ty = Some info"
    "transfers env True t (odti_pack_fn info d n) (odti_unpack_fn info n) d"
  shows "transfers env True t (opal_dss_pack_buffer tbl d n ty) (opal_dss_unpack_buffer tbl n ty) d"
  unfolding opal_dss_pack_buffer_def opal_dss_unpack_buffer_def
  using assms by (intro transfers_described) auto

lemma transfers_message:
  assumes "tbl_ok env tbl" "0 \<le> n" "n < 2 ^ 31" "n \<le> space" "space \<noteq> 0"
    "transfers env True t (opal_dss_pack_buffer tbl d n ty) (opal_dss_unpack_buffer tbl n ty) d'"
  shows "transfers env False t (opal_dss_pack env tbl d n ty) (opal_dss_unpack tbl space ty) (n, d')"
proof -
  define w where "w = (word_of_int n :: u32)"
  have w: "sint w = n" using u32_of_length(2)[of "nat n"] assms(2,3) by (simp add: w_def)
  have "transfers env nn t (opal_dss_pack_int32 env (D32 [w]) 1)
          (dss_bind (opal_dss_unpack_int32 1) get32) w" for nn
    by (rule transfersI[OF packs_one(2) reads_one(2)])
  moreover have "transfers env True t (opal_dss_pack_buffer tbl d n ty)
      (dss_bind (opal_dss_unpack_buffer tbl n ty) (\<lambda>data. dss_return (n, data))) (n, d')"
    using assms(6) by (rule transfers_map) simp
  ultimately have "transfers env nn t
      (dss_bind (opal_dss_pack_int32 env (D32 [w]) 1) (\<lambda>_. opal_dss_pack_buffer tbl d n ty))
      (dss_bind (dss_bind (opal_dss_unpack_int32 1) get32) (\<lambda>m.
          let local_num = sint m
          in if local_num > space
             then dss_bind (opal_dss_unpack_buffer tbl space ty)
                    (\<lambda>_. dss_fail OPAL_ERR_UNPACK_INADEQUATE_SPACE)
             else dss_bind (opal_dss_unpack_buffer tbl local_num ty)
                    (\<lambda>data. dss_return (local_num, data)))) (n, d')" for nn
    using w assms(4) by (intro transfers_bind) (auto simp: Let_def)
  note body = this[unfolded dss_bind_assoc]
  show ?thesis
    unfolding opal_dss_pack_def opal_dss_unpack_def w_def[symmetric] if_not_P[OF assms(5)]
    by (rule transfers_described[OF assms(1)]) (rule body)+
qed

subsection \<open>Generic types and names\<close>

lemma reads_peek:
  assumes "tbl_ok env tbl" "reads env OPAL_DSS_BUFFER_FULLY_DESC (f ty) x (ty # bs)"
  shows "reads env OPAL_DSS_BUFFER_FULLY_DESC (dss_bind (opal_dss_peek_type tbl) f) x (ty # bs)"
  unfolding reads_def
proof (intro allI impI)
  fix b rest assume b: "env_ok env" "buf_inv b" "buf_type b = OPAL_DSS_BUFFER_FULLY_DESC"
    "unread b = (ty # bs) @ rest"
  then have "bytes_used b - unpack_ptr b > 0" using length_unread[OF b(2)] by simp
  then have "\<not> nothing_left b" using b(2) by (auto simp: nothing_left_def buf_inv_def)
  moreover have "opal_dss_get_data_type tbl b = (Inr ty, b\<lparr>unpack_ptr := unpack_ptr b + 1\<rparr>)"
    using reads_tag[OF assms(1), of "buf_type b" ty] b by (simp add: reads_def)
  ultimately have "opal_dss_peek_type tbl b = (Inr ty, b)" using b(3) by (simp add: opal_dss_peek_type_def)
  then show "dss_bind (opal_dss_peek_type tbl) f b =
      (Inr x, b\<lparr>unpack_ptr := unpack_ptr b + length (ty # bs)\<rparr>)"
    using assms(2) b by (simp add: dss_bind_def reads_def)
qed

lemma packs_buffer_full:
  assumes "tbl_ok env tbl" "tbl ty = Some info"
    "packs env True OPAL_DSS_BUFFER_FULLY_DESC (odti_pack_fn info d n) bs"
  shows "packs env nn OPAL_DSS_BUFFER_FULLY_DESC (opal_dss_pack_buffer tbl d n ty) (ty # bs)"
proof -
  have "packs env nn OPAL_DSS_BUFFER_FULLY_DESC
          (dss_bind (opal_dss_store_data_type tbl ty) (\<lambda>_. odti_pack_fn info d n)) ([ty] @ bs)"
    using packs_tag[OF assms(1)] assms(3) by (rule packs_bind)
  then show ?thesis unfolding opal_dss_pack_buffer_def assms(2) option.case
    by (simp add: packs_cong[OF if_described_full])
qed

lemma reads_buffer_full:
  assumes "tbl_ok env tbl" "tbl ty = Some info"
    "reads env OPAL_DSS_BUFFER_FULLY_DESC (odti_unpack_fn info n) d bs"
  shows "reads env OPAL_DSS_BUFFER_FULLY_DESC (opal_dss_unpack_buffer tbl n ty) d (ty # bs)"
proof -
  have "reads env OPAL_DSS_BUFFER_FULLY_DESC
          (dss_bind (dss_bind (opal_dss_get_data_type tbl) (\<lambda>local_type.
              if ty \<noteq> local_type then dss_fail OPAL_ERR_PACK_MISMATCH else dss_return ()))
             (\<lambda>_. odti_unpack_fn info n)) d ([ty] @ bs)"
    using assms(3) by (intro reads_bind[OF reads_bind_return[OF reads_tag[OF assms(1)]]]) auto
  then show ?thesis unfolding opal_dss_unpack_buffer_def assms(2) option.case
    by (simp add: reads_cong[OF if_described_full])
qed

lemma generic_full:
  assumes "buf_type b = OPAL_DSS_BUFFER_FULLY_DESC"
  shows "pack_generic tbl rep d n b = opal_dss_pack_buffer tbl d n rep b"
    and "unpack_generic env tbl rep convert n b =
         dss_bind (opal_dss_peek_type tbl) (unpack_remote env tbl rep convert n) b"
  using assms
  by (simp_all add: pack_generic_def unpack_generic_def remote_type_of_def if_undescribed_def dss_bind_def)

lemma transfers_generic:
  assumes tbl: "tbl_ok env tbl" "tbl rep = Some info"
    and inner: "transfers env True t (odti_pack_fn info d n) (odti_unpack_fn info n) d"
  shows "transfers env True t (pack_generic tbl rep d n) (unpack_generic env tbl rep convert n) d"
proof (cases t)
  case OPAL_DSS_BUFFER_NON_DESC
  then have "packs env True t (if_undescribed (opal_dss_store_data_type tbl rep)) [rep]"
    using packs_tag[OF tbl(1), of True t rep]
    by (subst packs_cong[where q = "opal_dss_store_data_type tbl rep"]) (auto simp: if_undescribed_def)
  moreover have "reads env t (remote_type_of tbl) rep [rep]"
    using reads_tag[OF tbl(1), of t rep] OPAL_DSS_BUFFER_NON_DESC
    by (subst reads_cong[where v = "opal_dss_get_data_type tbl"]) (auto simp: remote_type_of_def)
  ultimately have "transfers env True t (if_undescribed (opal_dss_store_data_type tbl rep))
                     (remote_type_of tbl) rep"
    by (rule transfersI)
  then show ?thesis unfolding pack_generic_def unpack_generic_def
    using transfers_buffer[OF tbl inner] by (intro transfers_bind) (auto simp: unpack_remote_def)
next
  case OPAL_DSS_BUFFER_FULLY_DESC
  obtain bs where bs: "packs env True t (odti_pack_fn info d n) bs" "reads env t (odti_unpack_fn info n) d bs"
    using inner by (auto simp: transfers_def)
  have "packs env True t (opal_dss_pack_buffer tbl d n rep) (rep # bs)"
    using packs_buffer_full[OF tbl] bs(1) OPAL_DSS_BUFFER_FULLY_DESC by simp
  moreover have "reads env t (unpack_remote env tbl rep convert n rep) d (rep # bs)"
    using reads_buffer_full[OF tbl] bs(2) OPAL_DSS_BUFFER_FULLY_DESC by (simp add: unpack_remote_def)
  then have "reads env t (dss_bind (opal_dss_peek_type tbl) (unpack_remote env tbl rep convert n)) d (rep # bs)"
    using reads_peek[OF tbl(1)] OPAL_DSS_BUFFER_FULLY_DESC by simp
  ultimately show ?thesis using OPAL_DSS_BUFFER_FULLY_DESC
    by (intro transfersI[where bs = "rep # bs"])
       (simp_all add: packs_cong[OF generic_full(1)] reads_cong[OF generic_full(2)])
qed

lemma tbl_ok_intrinsic [simp]: "tbl_ok env (intrinsic_types env)" "tbl_ok env (opal_dss_types env)"
  by (simp_all add: tbl_ok_def intrinsic_types_def opal_dss_types_def)

lemma transfers_alloc:
  assumes "n < 2 ^ 63" "transfers env nn t p u x"
  shows "transfers env nn t (if \<not> c_alloc_ok env n then dss_fail e else p)
           (if \<not> c_alloc_ok env n then dss_fail e' else u) x"
proof (cases "c_alloc_ok env n")
  case False
  then have "\<not> env_ok env" using env_ok_alloc assms(1) by blast
  then show ?thesis using False by (simp add: transfers_def packs_def reads_def dss_fail_def roomy_def)
qed (use assms(2) in simp)

lemma zip_names: "map2 (\<lambda>j v. \<lparr>jobid = j, vpid = v\<rparr>) (map jobid xs) (map vpid xs) = xs"
  by (induction xs) auto

lemma transfers_name:
  assumes "length xs < 2 ^ 31"
  shows "transfers env True t (opal_dss_pack_name env (intrinsic_types env) (DName xs) (int (length xs)))
           (opal_dss_unpack_name env (intrinsic_types env) (int (length xs))) (DName xs)"
proof -
  let ?tbl = "intrinsic_types env" and ?n = "int (length xs)"
  have u32: "transfers env True t (opal_dss_pack_buffer ?tbl (D32 ys) ?n OPAL_UINT32)
               (opal_dss_unpack_buffer ?tbl ?n OPAL_UINT32) (D32 ys)" if "length ys = length xs" for ys
    using c_int32.carries[of ys env t] assms that
    by (intro transfers_buffer) (auto simp: intrinsic_types_def)
  have "transfers env True t
      (dss_bind (opal_dss_pack_jobid ?tbl (D32 (map jobid xs)) ?n)
         (\<lambda>_. opal_dss_pack_vpid ?tbl (D32 (map vpid xs)) ?n))
      (dss_bind (opal_dss_unpack_jobid ?tbl ?n) (\<lambda>js.
         dss_bind (opal_dss_unpack_vpid ?tbl ?n) (\<lambda>vs.
          case (js, vs) of
            (D32 js, D32 vs) \<Rightarrow> dss_return (DName (map2 (\<lambda>j v. \<lparr>jobid = j, vpid = v\<rparr>) js vs))
          | _ \<Rightarrow> dss_fail C_UNDEFINED))) (DName xs)"
    unfolding opal_dss_pack_jobid_def opal_dss_pack_vpid_def opal_dss_unpack_jobid_def
      opal_dss_unpack_vpid_def
    by (rule transfers_bind[OF u32], simp, rule transfers_map[OF u32]) (simp_all add: zip_names)
  note body = this
  have "opal_dss_pack_name env ?tbl (DName xs) ?n =
          (if \<not> c_alloc_ok env (sz_mul (to_size_t ?n) 4) then dss_fail OPAL_ERR_OUT_OF_RESOURCE
           else dss_bind (opal_dss_pack_jobid ?tbl (D32 (map jobid xs)) ?n)
                  (\<lambda>_. opal_dss_pack_vpid ?tbl (D32 (map vpid xs)) ?n))"
    by (simp add: opal_dss_pack_name_def)
  moreover have "sz_mul (to_size_t ?n) 4 < 2 ^ 63" using guard_size[of xs 4] assms by simp
  ultimately show ?thesis unfolding opal_dss_unpack_name_def
    by (simp only:) (rule transfers_alloc[OF _ body])
qed

subsection \<open>Every type of the table\<close>

fun dss_length :: "dss_data \<Rightarrow> nat" where
  "dss_length (D8 xs) = length xs"
| "dss_length (D16 xs) = length xs"
| "dss_length (D32 xs) = length xs"
| "dss_length (D64 xs) = length xs"
| "dss_length (DString xs) = length xs"
| "dss_length (DTimeval xs) = length xs"
| "dss_length (DByteObj xs) = length xs"
| "dss_length (DName xs) = length xs"
| "dss_length (DAttr xs) = length xs"
| "dss_length (DAlloc xs) = length xs"
| "dss_length (DNode xs) = length xs"
| "dss_length (DRack xs) = length xs"
| "dss_length (DRow xs) = length xs"
| "dss_length (DCluster xs) = length xs"
| "dss_length (DScheduler xs) = length xs"

text \<open>The arrays that a type of the table carries.\<close>

definition dss_ok :: "dss_env \<Rightarrow> opal_data_type \<Rightarrow> dss_data \<Rightarrow> bool" where
  "dss_ok env ty d =
     (case d of
        D8 xs \<Rightarrow> ty \<in> {OPAL_BYTE, OPAL_INT8, OPAL_UINT8, OPAL_BOOL, OPAL_DATA_TYPE}
      | D16 xs \<Rightarrow> ty \<in> {OPAL_INT16, OPAL_UINT16}
      | D32 xs \<Rightarrow> ty \<in> {OPAL_INT32, OPAL_UINT32, OPAL_INT, OPAL_UINT, OPAL_PID, OPAL_JOBID, OPAL_VPID} \<or>
                  ty = OPAL_FLOAT \<and> (\<forall>x \<in> set xs. float_ok env x)
      | D64 xs \<Rightarrow> ty \<in> {OPAL_INT64, OPAL_UINT64, OPAL_SIZE, OPAL_TIME} \<or>
                  ty = OPAL_DOUBLE \<and> (\<forall>x \<in> set xs. double_ok env x)
      | DString xs \<Rightarrow> ty = OPAL_STRING \<and> (\<forall>x \<in> set xs. wf_string x)
      | DTimeval xs \<Rightarrow> ty = OPAL_TIMEVAL
      | DByteObj xs \<Rightarrow> ty = OPAL_BYTE_OBJECT \<and> (\<forall>x \<in> set xs. bo_ok x)
      | DName xs \<Rightarrow> ty = OPAL_NAME
      | _ \<Rightarrow> False)"

text \<open>The representation types of the generic ones.\<close>

lemma generic_carries:
  assumes "dss_length d < 2 ^ 31"
  shows "d = D8 xs \<Longrightarrow> transfers env True t (pack_generic (intrinsic_types env) OPAL_UINT8 d (int (dss_length d)))
           (unpack_generic env (intrinsic_types env) OPAL_UINT8 c (int (dss_length d))) d"
    and "d = D32 ys \<Longrightarrow> rep \<in> {OPAL_INT32, OPAL_UINT32} \<Longrightarrow>
         transfers env True t (pack_generic (intrinsic_types env) rep d (int (dss_length d)))
           (unpack_generic env (intrinsic_types env) rep c (int (dss_length d))) d"
    and "d = D64 zs \<Longrightarrow> transfers env True t (pack_generic (intrinsic_types env) OPAL_UINT64 d (int (dss_length d)))
           (unpack_generic env (intrinsic_types env) OPAL_UINT64 c (int (dss_length d))) d"
  using assms c_byte.carries[of xs env t] c_int32.carries[of ys env t] c_int64.carries[of zs env t]
  by (auto intro!: transfers_generic simp: intrinsic_types_def)

lemma alias_carries:
  assumes "dss_length d < 2 ^ 31"
  shows "d = D8 xs \<Longrightarrow> transfers env True t (opal_dss_pack_buffer (intrinsic_types env) d (int (dss_length d)) OPAL_UINT8)
           (opal_dss_unpack_buffer (intrinsic_types env) (int (dss_length d)) OPAL_UINT8) d"
    and "d = D32 ys \<Longrightarrow> transfers env True t (opal_dss_pack_buffer (intrinsic_types env) d (int (dss_length d)) OPAL_UINT32)
           (opal_dss_unpack_buffer (intrinsic_types env) (int (dss_length d)) OPAL_UINT32) d"
  using assms c_byte.carries[of xs env t] c_int32.carries[of ys env t]
  by (auto intro!: transfers_buffer simp: intrinsic_types_def)

lemmas table_defs =
  opal_dss_types_def intrinsic_types_def opal_dss_pack_bool_def opal_dss_unpack_bool_def
  opal_dss_pack_int_def opal_dss_unpack_int_def opal_dss_pack_sizet_def opal_dss_unpack_sizet_def
  opal_dss_pack_pid_def opal_dss_unpack_pid_def opal_dss_pack_data_type_def
  opal_dss_unpack_data_type_def opal_dss_pack_jobid_def opal_dss_unpack_jobid_def
  opal_dss_pack_vpid_def opal_dss_unpack_vpid_def Let_def

definition table_carries :: "dss_env \<Rightarrow> buffer_type \<Rightarrow> opal_data_type \<Rightarrow> dss_data \<Rightarrow> bool" where
  "table_carries env t ty d \<longleftrightarrow>
     (\<exists>info. opal_dss_types env ty = Some info \<and>
        transfers env True t (odti_pack_fn info d (int (dss_length d)))
          (odti_unpack_fn info (int (dss_length d))) d)"

lemma table_carries_D8:
  assumes "dss_ok env ty (D8 xs)" "length xs < 2 ^ 31"
  shows "table_carries env t ty (D8 xs)"
  using assms c_byte.carries[of xs env t] generic_carries(1)[of "D8 xs" xs env t]
    alias_carries(1)[of "D8 xs" xs env t]
  unfolding table_carries_def dss_ok_def dss_data.case insert_iff empty_iff
  by (elim disjE) (simp_all add: table_defs)

lemma table_carries_D32:
  assumes "dss_ok env ty (D32 xs)" "length xs < 2 ^ 31"
  shows "table_carries env t ty (D32 xs)"
  using assms c_int32.carries[of xs env t] generic_carries(2)[of "D32 xs" xs _ env t]
    alias_carries(2)[of "D32 xs" xs env t] c_float.carries[of xs env t]
  unfolding table_carries_def dss_ok_def dss_data.case insert_iff empty_iff
  by (elim disjE) (simp_all add: table_defs)

lemma table_carries_D64:
  assumes "dss_ok env ty (D64 xs)" "length xs < 2 ^ 31"
  shows "table_carries env t ty (D64 xs)"
  using assms c_int64.carries[of xs env t] generic_carries(3)[of "D64 xs" xs env t]
    c_time.carries[of xs env t] c_double.carries[of xs env t]
  unfolding table_carries_def dss_ok_def dss_data.case insert_iff empty_iff
  by (elim disjE) (simp_all add: table_defs)

lemma dss_types_carry:
  assumes "dss_ok env ty d" "dss_length d < 2 ^ 31"
  shows "table_carries env t ty d"
proof (cases d)
  case (D16 xs)
  then show ?thesis using assms c_int16.carries[of xs env t]
    by (auto simp: table_carries_def dss_ok_def table_defs)
next
  case (DString xs)
  then show ?thesis using assms c_string.carries[of xs env t]
    by (auto simp: table_carries_def dss_ok_def table_defs)
next
  case (DTimeval xs)
  then show ?thesis using assms c_timeval.carries[of xs env t]
    by (auto simp: table_carries_def dss_ok_def table_defs)
next
  case (DByteObj xs)
  then show ?thesis using assms c_byte_object.carries[of xs env t]
    by (auto simp: table_carries_def dss_ok_def table_defs)
next
  case (DName xs)
  then show ?thesis using assms transfers_name[of xs env t]
    by (auto simp: table_carries_def dss_ok_def opal_dss_types_def Let_def)
qed (use assms table_carries_D8 table_carries_D32 table_carries_D64 in \<open>auto simp: dss_ok_def\<close>)

text \<open>
  A transfer, said of the buffers: there is one byte string that \<open>p\<close> appends to every
  buffer that has memory and room for it, and that \<open>u\<close> turns into \<open>x\<close> wherever it
  comes next.
\<close>

definition delivers :: "buffer_type \<Rightarrow> unit dss \<Rightarrow> 'a dss \<Rightarrow> 'a \<Rightarrow> bool" where
  "delivers t p u x \<longleftrightarrow>
     (\<exists>bs. (\<forall>b. buf_inv b \<and> buf_type b = t \<and> block b \<noteq> None \<and> bytes_used b + length bs < 2 ^ 62 \<longrightarrow>
              (\<exists>b'. p b = (Inr (), b') \<and> buf_inv b' \<and> contents b' = contents b @ bs \<and>
                    unpack_ptr b' = unpack_ptr b)) \<and>
           (\<forall>b rest. buf_inv b \<and> buf_type b = t \<and> unread b = bs @ rest \<longrightarrow>
              u b = (Inr x, b\<lparr>unpack_ptr := unpack_ptr b + length bs\<rparr>)))"

lemma transfers_delivers:
  assumes "transfers env True t p u x" "env_ok env"
  shows "delivers t p u x"
proof -
  obtain bs where bs: "packs env True t p bs" "reads env t u x bs" using assms(1) by (auto simp: transfers_def)
  have "\<exists>b'. p b = (Inr (), b') \<and> buf_inv b' \<and> contents b' = contents b @ bs \<and> unpack_ptr b' = unpack_ptr b"
    if "buf_inv b \<and> buf_type b = t \<and> block b \<noteq> None \<and> bytes_used b + length bs < 2 ^ 62" for b
    using packs_total[OF bs(1), of b] that assms(2) by (auto simp: roomy_def appended_def)
  moreover have "u b = (Inr x, b\<lparr>unpack_ptr := unpack_ptr b + length bs\<rparr>)"
    if "buf_inv b \<and> buf_type b = t \<and> unread b = bs @ rest" for b rest
    using bs(2) that assms(2) by (auto simp: reads_def)
  ultimately show ?thesis unfolding delivers_def by (intro exI[of _ bs]) blast
qed

subsection \<open>Messages\<close>

text \<open>
  A message is what one call of \<^verbatim>\<open>opal_dss.pack\<close> stores: a type and an array.  A sender
  packs several, a receiver unpacks them in the same order, with room for each.
\<close>

type_synonym message = "opal_data_type \<times> dss_data"

fun pack_messages :: "dss_env \<Rightarrow> message list \<Rightarrow> unit dss" where
  "pack_messages env [] = dss_return ()"
| "pack_messages env ((ty, d) # ms) =
     dss_bind (opal_dss_pack env (opal_dss_types env) d (int (dss_length d)) ty)
       (\<lambda>_. pack_messages env ms)"

fun unpack_messages :: "dss_env \<Rightarrow> (opal_data_type \<times> int) list \<Rightarrow> (int \<times> dss_data) list dss" where
  "unpack_messages env [] = dss_return []"
| "unpack_messages env ((ty, space) # rs) =
     dss_bind (opal_dss_unpack (opal_dss_types env) space ty)
       (\<lambda>x. dss_bind (unpack_messages env rs) (\<lambda>xs. dss_return (x # xs)))"

definition message_ok :: "dss_env \<Rightarrow> message \<Rightarrow> bool" where
  "message_ok env m \<longleftrightarrow>
     dss_ok env (fst m) (snd m) \<and> 0 < dss_length (snd m) \<and> dss_length (snd m) < 2 ^ 31"

lemma message_transfers:
  assumes "message_ok env (ty, d)"
  shows "transfers env False t (opal_dss_pack env (opal_dss_types env) d (int (dss_length d)) ty)
           (opal_dss_unpack (opal_dss_types env) (int (dss_length d)) ty) (int (dss_length d), d)"
proof -
  obtain info where "opal_dss_types env ty = Some info"
    "transfers env True t (odti_pack_fn info d (int (dss_length d))) (odti_unpack_fn info (int (dss_length d))) d"
    using dss_types_carry[of env ty d t] assms by (auto simp: message_ok_def table_carries_def)
  then show ?thesis using assms
    by (intro transfers_message transfers_buffer) (auto simp: message_ok_def)
qed

lemma transfers_weaken: "transfers env False t p u x \<Longrightarrow> transfers env nn t p u x"
  by (auto simp: transfers_def intro: packs_weaken)

lemma messages_transfer:
  assumes "\<forall>m \<in> set ms. message_ok env m"
  shows "transfers env True t (pack_messages env ms)
           (unpack_messages env (map (\<lambda>(ty, d). (ty, int (dss_length d))) ms))
           (map (\<lambda>(ty, d). (int (dss_length d), d)) ms)"
  using assms
proof (induction ms)
  case Nil
  then show ?case by (simp add: transfers_return)
next
  case (Cons m ms)
  obtain ty d where m: "m = (ty, d)" by fastforce
  have "transfers env True t (pack_messages env ms)
      (dss_bind (unpack_messages env (map (\<lambda>(ty, d). (ty, int (dss_length d))) ms))
         (\<lambda>xs. dss_return ((int (dss_length d), d) # xs)))
      ((int (dss_length d), d) # map (\<lambda>(ty, d). (int (dss_length d), d)) ms)"
    using Cons by (intro transfers_map) auto
  then show ?case using Cons.prems m
    by (auto intro!: transfers_bind transfers_weaken[OF message_transfers])
qed

lemma messages_transfer_fresh:
  assumes "\<forall>m \<in> set ms. message_ok env m" "ms \<noteq> []"
  shows "transfers env False t (pack_messages env ms)
           (unpack_messages env (map (\<lambda>(ty, d). (ty, int (dss_length d))) ms))
           (map (\<lambda>(ty, d). (int (dss_length d), d)) ms)"
proof (cases ms)
  case (Cons m ms')
  obtain ty d where m: "m = (ty, d)" by fastforce
  have "transfers env True t (pack_messages env ms')
      (dss_bind (unpack_messages env (map (\<lambda>(ty, d). (ty, int (dss_length d))) ms'))
         (\<lambda>xs. dss_return ((int (dss_length d), d) # xs)))
      ((int (dss_length d), d) # map (\<lambda>(ty, d). (int (dss_length d), d)) ms')"
    using messages_transfer[of ms' env t] assms(1) Cons by (intro transfers_map) auto
  then show ?thesis using assms(1) m Cons
    by (auto intro!: transfers_bind message_transfers)
qed (use assms(2) in simp)

text \<open>From a transfer to one buffer on which both ends work.\<close>

lemma transfers_through:
  assumes "transfers env nn t p u x" "env_ok env" "buf_inv b" "buf_type b = t" "nn \<Longrightarrow> block b \<noteq> None"
    "unread b = []" "p b = (Inr y, b1)"
  obtains b2 where "u b1 = (Inr x, b2)" "unread b2 = []" "buf_inv b2"
proof -
  obtain bs where bs: "packs env nn t p bs" "reads env t u x bs" using assms(1) by (auto simp: transfers_def)
  have app: "appended b b1 bs" using packsD(1)[OF bs(1) assms(3,4)] assms(5,7) by blast
  moreover have "unpack_ptr b = length (contents b)"
    using assms(3,6) length_contents[OF assms(3)] by (simp add: unread_def buf_inv_def)
  ultimately have un: "unread b1 = bs" by (simp add: unread_def appended_def)
  then have "u b1 = (Inr x, b1\<lparr>unpack_ptr := unpack_ptr b1 + length bs\<rparr>)"
    using bs(2) assms(2,4) app by (simp add: reads_def appended_def)
  moreover have "unread (b1\<lparr>unpack_ptr := unpack_ptr b1 + length bs\<rparr>) = []"
    using un by (auto simp: unread_def contents_def)
  moreover have "buf_inv (b1\<lparr>unpack_ptr := unpack_ptr b1 + length bs\<rparr>)"
    using app un length_unread[of b1] by (auto simp: appended_def buf_inv_def)
  ultimately show ?thesis using that by blast
qed

lemma reads_then:
  assumes "reads env t u x bs" "env_ok env" "buf_inv b" "buf_type b = t" "unread b = bs @ rest"
  obtains b' where "\<And>f. dss_bind u f b = f x b'" "buf_inv b'" "buf_type b' = t" "unread b' = rest"
proof (rule that[of "b\<lparr>unpack_ptr := unpack_ptr b + length bs\<rparr>"])
  show "dss_bind u f b = f x (b\<lparr>unpack_ptr := unpack_ptr b + length bs\<rparr>)" for f
    using assms by (simp add: reads_def dss_bind_def)
  show "buf_inv (b\<lparr>unpack_ptr := unpack_ptr b + length bs\<rparr>)"
    using assms(3,5) length_unread[OF assms(3)] by (auto simp: buf_inv_def)
  have "unread (b\<lparr>unpack_ptr := unpack_ptr b + length bs\<rparr>) = drop (length bs) (unread b)"
    by (simp add: unread_def contents_def add.commute)
  then show "unread (b\<lparr>unpack_ptr := unpack_ptr b + length bs\<rparr>) = rest" using assms(5) by simp
qed (use assms(4) in simp)

text \<open>A described message starts with the tag of the count, the count, and its own tag.\<close>

lemma packs_message_full:
  assumes "message_ok env (ty, d)"
  shows "\<exists>bs. packs env False OPAL_DSS_BUFFER_FULLY_DESC
           (opal_dss_pack env (opal_dss_types env) d (int (dss_length d)) ty)
           (OPAL_INT32 # be_bytes 4 (dss_length d) @ ty # bs)"
proof -
  let ?t = OPAL_DSS_BUFFER_FULLY_DESC and ?tbl = "opal_dss_types env" and ?n = "int (dss_length d)"
  obtain info bs where info: "?tbl ty = Some info" "packs env True ?t (odti_pack_fn info d ?n) bs"
    using dss_types_carry[of env ty d ?t] assms
    by (auto simp: message_ok_def table_carries_def transfers_def)
  have n: "unat (word_of_int ?n :: u32) = dss_length d"
    using assms by (intro u32_of_length) (simp add: message_ok_def)
  have "packs env False ?t (dss_bind (opal_dss_store_data_type ?tbl OPAL_INT32) (\<lambda>_.
      dss_bind (opal_dss_pack_int32 env (D32 [word_of_int ?n]) 1) (\<lambda>_.
      opal_dss_pack_buffer ?tbl d ?n ty)))
      ([OPAL_INT32] @ be_bytes 4 (unat (word_of_int ?n :: u32)) @ ty # bs)"
    using packs_buffer_full[where tbl = ?tbl, OF tbl_ok_intrinsic(2) info]
    by (intro packs_bind packs_tag packs_one) simp_all
  then show ?thesis unfolding opal_dss_pack_def n
    by (intro exI[of _ bs]) (simp add: packs_cong[OF if_described_full] del: be_bytes.simps)
qed

lemma unpack_mismatch:
  assumes env: "env_ok env" "buf_inv b" "buf_type b = OPAL_DSS_BUFFER_FULLY_DESC"
    and un: "unread b = OPAL_INT32 # be_bytes 4 n @ ty # rest"
    and n: "n < 2 ^ 31" "int n \<le> space" "space \<noteq> 0" and ne: "ty' \<noteq> ty"
  shows "fst (opal_dss_unpack (opal_dss_types env) space ty' b) = Inl OPAL_ERR_PACK_MISMATCH"
proof -
  let ?tbl = "opal_dss_types env" and ?t = OPAL_DSS_BUFFER_FULLY_DESC
  let ?K = "\<lambda>n. let local_num = sint n
          in if local_num > space
             then dss_bind (opal_dss_unpack_buffer ?tbl space ty')
                    (\<lambda>_. dss_fail OPAL_ERR_UNPACK_INADEQUATE_SPACE)
             else dss_bind (opal_dss_unpack_buffer ?tbl local_num ty')
                    (\<lambda>data. dss_return (local_num, data))"
  define w where "w = (word_of_int (int n) :: u32)"
  have w: "unat w = n" "sint w = int n" using u32_of_length[OF n(1)] by (simp_all add: w_def)
  have "reads env ?t (dss_bind (opal_dss_get_data_type ?tbl) (\<lambda>local_type.
            if OPAL_INT32 \<noteq> local_type then dss_fail OPAL_ERR_UNPACK_FAILURE else dss_return ())) () [OPAL_INT32]"
    by (rule reads_bind_return[OF reads_tag]) simp_all
  then obtain b1 where b1: "\<And>f :: unit \<Rightarrow> (int \<times> dss_data) dss. dss_bind (dss_bind (opal_dss_get_data_type ?tbl) (\<lambda>local_type.
            if OPAL_INT32 \<noteq> local_type then dss_fail OPAL_ERR_UNPACK_FAILURE else dss_return ())) f b = f () b1"
    "buf_inv b1" "buf_type b1 = ?t" "unread b1 = be_bytes 4 n @ ty # rest"
    by (rule reads_then[OF _ env]) (use un in auto)
  obtain b2 where b2: "\<And>f :: u32 \<Rightarrow> (int \<times> dss_data) dss. dss_bind (dss_bind (opal_dss_unpack_int32 1) get32) f b1 = f w b2"
    "buf_inv b2" "buf_type b2 = ?t" "unread b2 = ty # rest"
    by (rule reads_then[OF reads_one(2)[of env ?t w] env(1) b1(2,3)]) (use b1(4) w in auto)
  obtain b3 where b3: "\<And>f :: u8 \<Rightarrow> dss_data dss. dss_bind (opal_dss_get_data_type ?tbl) f b2 = f ty b3"
    by (rule reads_then[OF reads_tag[of env ?tbl ?t ty] env(1) b2(2,3)]) (use b2(4) in auto)
  have "opal_dss_unpack_buffer ?tbl (int n) ty' b2 = (Inl OPAL_ERR_PACK_MISMATCH, b3)"
    unfolding opal_dss_unpack_buffer_def if_described_full[OF b2(3)] dss_bind_assoc b3
    using ne by (simp add: dss_fail_def dss_bind_def)
  then have "?K w b2 = (Inl OPAL_ERR_PACK_MISMATCH, b3)"
    using n(2) w by (simp add: Let_def dss_bind_def)
  moreover have "opal_dss_unpack ?tbl space ty' b =
      dss_bind (opal_dss_unpack_int32 1) (\<lambda>d. dss_bind (get32 d) ?K) b1"
    unfolding opal_dss_unpack_def if_described_full[OF env(3)] if_not_P[OF n(3)] b1(1) by (rule refl)
  ultimately show ?thesis using b2(1)[of ?K] by (simp only: dss_bind_assoc fst_conv)
qed

lemma packs_int32_message:
  assumes "xs \<noteq> []" "length xs < 2 ^ 31"
  shows "packs env False OPAL_DSS_BUFFER_FULLY_DESC
           (opal_dss_pack env (opal_dss_types env) (D32 xs) (int (length xs)) OPAL_INT32)
           ([OPAL_INT32] @ be_bytes 4 (length xs) @ OPAL_INT32 # concat (map (\<lambda>x. be_bytes 4 (unat x)) xs))"
proof -
  let ?t = OPAL_DSS_BUFFER_FULLY_DESC and ?tbl = "opal_dss_types env" and ?n = "int (length xs)"
  let ?info = "\<lparr>odti_pack_fn = opal_dss_pack_int32 env, odti_unpack_fn = opal_dss_unpack_int32\<rparr>"
  have n: "unat (word_of_int ?n :: u32) = length xs" using assms(2) by (rule u32_of_length)
  have "?tbl OPAL_INT32 = Some ?info" by (simp add: table_defs)
  moreover have "packs env True ?t (odti_pack_fn ?info (D32 xs) ?n) (concat (map (\<lambda>x. be_bytes 4 (unat x)) xs))"
    using packs_int32[OF assms(2)] by simp
  ultimately have "packs env nn ?t (opal_dss_pack_buffer ?tbl (D32 xs) ?n OPAL_INT32)
      (OPAL_INT32 # concat (map (\<lambda>x. be_bytes 4 (unat x)) xs))" for nn
    by (rule packs_buffer_full[OF tbl_ok_intrinsic(2)])
  then have "packs env False ?t (dss_bind (opal_dss_store_data_type ?tbl OPAL_INT32) (\<lambda>_.
      dss_bind (opal_dss_pack_int32 env (D32 [word_of_int ?n]) 1) (\<lambda>_.
      opal_dss_pack_buffer ?tbl (D32 xs) ?n OPAL_INT32)))
      ([OPAL_INT32] @ be_bytes 4 (unat (word_of_int ?n :: u32)) @
       OPAL_INT32 # concat (map (\<lambda>x. be_bytes 4 (unat x)) xs))"
    by (intro packs_bind packs_tag packs_one) simp_all
  then show ?thesis unfolding opal_dss_pack_def n
    by (simp add: packs_cong[OF if_described_full] del: be_bytes.simps)
qed

section \<open>Properties\<close>

text \<open>An environment for examples: the default sizes, a heap that never fails, described buffers.\<close>

definition example_env :: dss_env where
  "example_env = \<lparr>opal_dss_initial_size = 128, opal_dss_threshold_size = 1024,
     default_buf_type = OPAL_DSS_BUFFER_FULLY_DESC, heap_grants = (\<lambda>_. True), new_grants = (\<lambda>_. True),
     fmt_float = (\<lambda>_. ''0.000000''), str_float = (\<lambda>_. 0),
     fmt_double = (\<lambda>_. ''0.000000''), str_double = (\<lambda>_. 0)\<rparr>"

definition example_messages :: "message list" where
  "example_messages = [(OPAL_INT32, D32 [7, 8]), (OPAL_INT32, D32 [9])]"

lemma env_ok_example [simp]: "env_ok example_env"
  by (simp add: env_ok_def example_env_def INT_MAX_def)

lemma example_messages_ok [simp]: "\<forall>m \<in> set example_messages. message_ok example_env m" "example_messages \<noteq> []"
  by (simp_all add: example_messages_def message_ok_def dss_ok_def)

lemma construct_simps [simp]:
  "buf_type (opal_buffer_construct env) = default_buf_type env"
  "bytes_used (opal_buffer_construct env) = 0" "unread (opal_buffer_construct env) = []"
  by (simp_all add: opal_buffer_construct_def unread_def contents_def)

lemma example_env_simps [simp]: "default_buf_type example_env = OPAL_DSS_BUFFER_FULLY_DESC"
  by (simp add: example_env_def)

lemma example_packed:
  "\<exists>b. pack_messages example_env example_messages (opal_buffer_construct example_env) = (Inr (), b)"
proof -
  let ?w = "\<lambda>xs :: u32 list. concat (map (\<lambda>x. be_bytes 4 (unat x)) xs)"
  have p: "packs example_env False OPAL_DSS_BUFFER_FULLY_DESC (pack_messages example_env example_messages)
     (([OPAL_INT32] @ be_bytes 4 (length [7, 8 :: u32]) @ OPAL_INT32 # ?w [7, 8]) @
      ([OPAL_INT32] @ be_bytes 4 (length [9 :: u32]) @ OPAL_INT32 # ?w [9]) @ [])" (is "packs _ _ _ _ ?bs")
    unfolding example_messages_def pack_messages.simps
    using packs_int32_message[of "[7, 8]" example_env]
      packs_weaken[OF packs_int32_message[of "[9]" example_env]]
    by (intro packs_bind packs_return) (simp_all del: be_bytes.simps)
  have r: "roomy example_env (opal_buffer_construct example_env) (length ?bs)"
    by (simp add: roomy_def)
  show ?thesis by (rule packs_total[OF p buf_inv_construct _ _ r]) auto
qed



text \<open>C11: For every well-formed message and either kind of buffer there is one byte string that
  packing appends and from which unpacking returns the message: packing succeeds on every
  buffer with room, leaves what was packed before and the unpack position untouched, and
  unpacking consumes exactly those bytes wherever they come next.\<close>

theorem dss_message_delivered:
  assumes "env_ok env" "message_ok env (ty, d)"
  shows "\<exists>bs. (\<forall>b. buf_inv b \<and> buf_type b = t \<and> bytes_used b + length bs < 2 ^ 62 \<longrightarrow>
             (\<exists>b'. opal_dss_pack env (opal_dss_types env) d (int (dss_length d)) ty b = (Inr (), b') \<and>
                   buf_inv b' \<and> contents b' = contents b @ bs \<and> unpack_ptr b' = unpack_ptr b)) \<and>
           (\<forall>b rest. buf_inv b \<and> buf_type b = t \<and> unread b = bs @ rest \<longrightarrow>
             opal_dss_unpack (opal_dss_types env) (int (dss_length d)) ty b =
               (Inr (int (dss_length d), d), b\<lparr>unpack_ptr := unpack_ptr b + length bs\<rparr>))"
proof -
  let ?pack = "opal_dss_pack env (opal_dss_types env) d (int (dss_length d)) ty"
  let ?unpack = "opal_dss_unpack (opal_dss_types env) (int (dss_length d)) ty"
  obtain bs where bs: "packs env False t ?pack bs" "reads env t ?unpack (int (dss_length d), d) bs"
    using message_transfers[OF assms(2)] by (auto simp: transfers_def)
  have "\<exists>b'. ?pack b = (Inr (), b') \<and> buf_inv b' \<and> contents b' = contents b @ bs \<and> unpack_ptr b' = unpack_ptr b"
    if "buf_inv b \<and> buf_type b = t \<and> bytes_used b + length bs < 2 ^ 62" for b
    using packs_total[OF bs(1), of b] that assms(1) by (auto simp: roomy_def appended_def)
  moreover have "?unpack b = (Inr (int (dss_length d), d), b\<lparr>unpack_ptr := unpack_ptr b + length bs\<rparr>)"
    if "buf_inv b \<and> buf_type b = t \<and> unread b = bs @ rest" for b rest
    using bs(2) that assms(1) by (auto simp: reads_def)
  ultimately show ?thesis by (intro exI[of _ bs]) blast
qed

theorem dss_message_delivered_witness:
  "\<exists>bs. (\<forall>b. buf_inv b \<and> buf_type b = OPAL_DSS_BUFFER_NON_DESC \<and> bytes_used b + length bs < 2 ^ 62 \<longrightarrow>
             (\<exists>b'. opal_dss_pack example_env (opal_dss_types example_env) (DString [Some ''n1'', None]) 2
                     OPAL_STRING b = (Inr (), b') \<and>
                   buf_inv b' \<and> contents b' = contents b @ bs \<and> unpack_ptr b' = unpack_ptr b)) \<and>
           (\<forall>b rest. buf_inv b \<and> buf_type b = OPAL_DSS_BUFFER_NON_DESC \<and> unread b = bs @ rest \<longrightarrow>
             opal_dss_unpack (opal_dss_types example_env) 2 OPAL_STRING b =
               (Inr (2, DString [Some ''n1'', None]), b\<lparr>unpack_ptr := unpack_ptr b + length bs\<rparr>))"
  using dss_message_delivered[OF env_ok_example, of OPAL_STRING "DString [Some ''n1'', None]" OPAL_DSS_BUFFER_NON_DESC]
  by (simp add: message_ok_def dss_ok_def wf_string_def)

text \<open>C25: In a described buffer, unpacking a message as another type than it was packed as is
  refused with \<^verbatim>\<open>OPAL_ERR_PACK_MISMATCH\<close>.\<close>

theorem dss_type_mismatch:
  assumes "env_ok env" "message_ok env (ty, d)" "ty' \<noteq> ty"
    and "default_buf_type env = OPAL_DSS_BUFFER_FULLY_DESC"
    and "opal_dss_pack env (opal_dss_types env) d (int (dss_length d)) ty (opal_buffer_construct env) = (Inr (), b)"
  shows "fst (opal_dss_unpack (opal_dss_types env) (int (dss_length d)) ty' b) = Inl OPAL_ERR_PACK_MISMATCH"
proof -
  let ?b0 = "opal_buffer_construct env"
  obtain bs where "packs env False OPAL_DSS_BUFFER_FULLY_DESC
           (opal_dss_pack env (opal_dss_types env) d (int (dss_length d)) ty)
           (OPAL_INT32 # be_bytes 4 (dss_length d) @ ty # bs)"
    using packs_message_full[OF assms(2)] by blast
  then have app: "appended ?b0 b (OPAL_INT32 # be_bytes 4 (dss_length d) @ ty # bs)"
    using packsD(1)[where b = ?b0] assms(4,5) by simp
  then have "unread b = OPAL_INT32 # be_bytes 4 (dss_length d) @ ty # bs"
    by (auto simp: appended_def unread_def opal_buffer_construct_def contents_def)
  moreover have "buf_inv b" "buf_type b = OPAL_DSS_BUFFER_FULLY_DESC"
    using app assms(4) by (auto simp: appended_def)
  ultimately show ?thesis using assms(1-3) unpack_mismatch by (auto simp: message_ok_def)
qed

theorem dss_type_mismatch_witness:
  "\<exists>b. opal_dss_pack example_env (opal_dss_types example_env) (D32 [7]) 1 OPAL_INT32
          (opal_buffer_construct example_env) = (Inr (), b) \<and>
       fst (opal_dss_unpack (opal_dss_types example_env) 1 OPAL_UINT32 b) = Inl OPAL_ERR_PACK_MISMATCH"
proof -
  have "roomy example_env (opal_buffer_construct example_env) 10" by (simp add: roomy_def)
  then obtain b where b: "opal_dss_pack example_env (opal_dss_types example_env) (D32 [7]) 1 OPAL_INT32
          (opal_buffer_construct example_env) = (Inr (), b)"
    using packs_total[OF packs_int32_message[of "[7]" example_env], of "opal_buffer_construct example_env"]
    by (auto simp del: be_bytes.simps)
  moreover have "message_ok example_env (OPAL_INT32, D32 [7])" by (simp add: message_ok_def dss_ok_def)
  ultimately show ?thesis
    using dss_type_mismatch[of example_env OPAL_INT32 "D32 [7]" OPAL_UINT32 b] by auto
qed

text \<open>C26: Unpacking from a buffer with nothing left to read returns
  \<^verbatim>\<open>OPAL_ERR_UNPACK_READ_PAST_END_OF_BUFFER\<close> and leaves the buffer as it was.\<close>

theorem dss_unpack_exhausted:
  assumes "buf_inv b" "unread b = []" "space \<noteq> 0"
  shows "opal_dss_unpack (opal_dss_types env) space ty b =
           (Inl OPAL_ERR_UNPACK_READ_PAST_END_OF_BUFFER, b)"
proof -
  have "opal_dss_too_small b (Suc n)" for n
    using assms(1,2) length_unread[OF assms(1)] by (simp add: opal_dss_too_small_def buf_inv_def)
  from this[of 0] this[of 3] have "opal_dss_too_small b 1" "opal_dss_too_small b 4" by simp_all
  then have "opal_dss_get_data_type (opal_dss_types env) b = (Inl OPAL_ERR_UNPACK_READ_PAST_END_OF_BUFFER, b)"
    "opal_dss_unpack_int32 1 b = (Inl OPAL_ERR_UNPACK_READ_PAST_END_OF_BUFFER, b)"
    by (simp_all add: opal_dss_get_data_type_def table_defs opal_dss_unpack_byte_def dss_read_def
        opal_dss_unpack_int32_def unpack_vals_def dss_bind_def)
  then show ?thesis using assms(3)
    by (cases "buf_type b") (simp_all add: opal_dss_unpack_def if_described_def dss_bind_def)
qed

theorem dss_unpack_exhausted_witness:
  "opal_dss_unpack (opal_dss_types example_env) 1 OPAL_INT32 (opal_buffer_construct example_env) =
     (Inl OPAL_ERR_UNPACK_READ_PAST_END_OF_BUFFER, opal_buffer_construct example_env)"
  by (rule dss_unpack_exhausted) simp_all

end
