(* ===== verification/Attr.thy ===== *)
theory Attr
  imports Dss
begin

text \<open>
  ORTE attributes: the keyed, typed values of \<^verbatim>\<open>orte/util/attr.c\<close> that jobs, nodes and
  allocations carry, and how \<^verbatim>\<open>orte_dt_pack_attr\<close> and \<^verbatim>\<open>orte_dt_unpack_attr\<close> send
  them.
\<close>

section \<open>Values\<close>

text \<open>
  The cases of the type switches, grouped by the member of the union they use.
\<close>

datatype attr_class = C8 | C16 | C32 | C64 | CString | CBo | CTv | CPtr

definition attr_class :: "opal_data_type \<Rightarrow> attr_class option" where
  "attr_class t =
     (if t = OPAL_BOOL \<or> t = OPAL_BYTE \<or> t = OPAL_INT8 \<or> t = OPAL_UINT8 then Some C8
      else if t = OPAL_INT16 \<or> t = OPAL_UINT16 then Some C16
      else if t = OPAL_PID \<or> t = OPAL_INT \<or> t = OPAL_INT32 \<or> t = OPAL_UINT \<or> t = OPAL_UINT32 \<or>
              t = OPAL_FLOAT \<or> t = OPAL_VPID \<or> t = OPAL_JOBID then Some C32
      else if t = OPAL_SIZE \<or> t = OPAL_INT64 \<or> t = OPAL_UINT64 then Some C64
      else if t = OPAL_STRING then Some CString
      else if t = OPAL_BYTE_OBJECT then Some CBo
      else if t = OPAL_TIMEVAL then Some CTv
      else if t = OPAL_PTR then Some CPtr
      else None)"

definition no_bytes :: opal_byte_object where
  "no_bytes = \<lparr>bo_size = 0, bo_bytes = None\<rparr>"

text \<open>
  Reading a member of the union: the value last stored through a member of the same
  representation, or zeros after \<^verbatim>\<open>memset\<close>.  Another member than the one stored is
  never read by this code.
\<close>

definition read_as :: "attr_class \<Rightarrow> attr_data \<Rightarrow> attr_data option" where
  "read_as c d =
     (case c of
        C8 \<Rightarrow> (case d of A8 x \<Rightarrow> Some (A8 x) | AZero \<Rightarrow> Some (A8 0) | _ \<Rightarrow> None)
      | C16 \<Rightarrow> (case d of A16 x \<Rightarrow> Some (A16 x) | AZero \<Rightarrow> Some (A16 0) | _ \<Rightarrow> None)
      | C32 \<Rightarrow> (case d of A32 x \<Rightarrow> Some (A32 x) | AZero \<Rightarrow> Some (A32 0) | _ \<Rightarrow> None)
      | C64 \<Rightarrow> (case d of A64 x \<Rightarrow> Some (A64 x) | AZero \<Rightarrow> Some (A64 0) | _ \<Rightarrow> None)
      | CString \<Rightarrow> (case d of AString s \<Rightarrow> Some (AString s) | AZero \<Rightarrow> Some (AString None) | _ \<Rightarrow> None)
      | CBo \<Rightarrow> (case d of ABo b \<Rightarrow> Some (ABo b) | AZero \<Rightarrow> Some (ABo no_bytes) | _ \<Rightarrow> None)
      | CTv \<Rightarrow> (case d of ATv s us \<Rightarrow> Some (ATv s us) | AZero \<Rightarrow> Some (ATv 0 0) | _ \<Rightarrow> None)
      | CPtr \<Rightarrow> (case d of APtr p \<Rightarrow> Some (APtr p) | AZero \<Rightarrow> Some (APtr 0) | _ \<Rightarrow> None))"

text \<open>A byte object is copied only when it has bytes and a positive size.\<close>

definition copy_bo :: "opal_byte_object \<Rightarrow> opal_byte_object" where
  "copy_bo bo =
     (case bo_bytes bo of
        Some bs \<Rightarrow> if 0 < sint (bo_size bo)
                   then \<lparr>bo_size = bo_size bo, bo_bytes = Some (take (nat (sint (bo_size bo))) bs)\<rparr>
                   else no_bytes
      | None \<Rightarrow> no_bytes)"

section \<open>Load and unload\<close>

text \<open>The argument \<^verbatim>\<open>data\<close> is \<open>None\<close> when it is null.\<close>

definition load_value :: "attr_class \<Rightarrow> attr_data option \<Rightarrow> attr_data option" where
  "load_value c data =
     (case data of
        None \<Rightarrow> (case c of CString \<Rightarrow> Some (AString None) | CBo \<Rightarrow> Some (ABo no_bytes) | _ \<Rightarrow> None)
      | Some d \<Rightarrow> (case read_as c d of Some (ABo bo) \<Rightarrow> Some (ABo (copy_bo bo)) | v \<Rightarrow> v))"

definition orte_attr_load ::
  "orte_attribute \<Rightarrow> attr_data option \<Rightarrow> opal_data_type \<Rightarrow> opal_err + orte_attribute" where
  "orte_attr_load kv data type =
     (if data = None \<and> type \<noteq> OPAL_STRING \<and> type \<noteq> OPAL_BYTE_OBJECT
      then Inr (kv\<lparr>attr_type := type, attr_data := AZero\<rparr>)
      else case attr_class type of
             None \<Rightarrow> Inl OPAL_ERR_NOT_SUPPORTED
           | Some c \<Rightarrow> (case load_value c data of
                          None \<Rightarrow> Inl C_UNDEFINED
                        | Some v \<Rightarrow> Inr (kv\<lparr>attr_type := type, attr_data := v\<rparr>)))"

text \<open>
  \<open>has_dest\<close> says whether \<^verbatim>\<open>*data\<close> points to memory of the caller.  (With assertions
  compiled in, its absence for the types that need it aborts.)  The one value of type
  \<^verbatim>\<open>OPAL_BUFFER\<close> an attribute can be loaded with is the zeroed one, whose copy is an
  empty buffer.
\<close>

definition orte_attr_unload :: "orte_attribute \<Rightarrow> bool \<Rightarrow> opal_data_type \<Rightarrow> opal_err + attr_data" where
  "orte_attr_unload kv has_dest type =
     (if type \<noteq> attr_type kv then Inl OPAL_ERR_TYPE_MISMATCH
      else if \<not> has_dest \<and> type \<noteq> OPAL_STRING \<and> type \<noteq> OPAL_BYTE_OBJECT \<and> type \<noteq> OPAL_BUFFER \<and>
              type \<noteq> OPAL_PTR
      then Inl OPAL_ERR_BAD_PARAM
      else case attr_class type of
             None \<Rightarrow> if type \<noteq> OPAL_BUFFER then Inl OPAL_ERR_NOT_SUPPORTED
                     else if attr_data kv = AZero then Inr AZero else Inl C_UNDEFINED
           | Some c \<Rightarrow> (case read_as c (attr_data kv) of
                          None \<Rightarrow> Inl C_UNDEFINED
                        | Some (ABo bo) \<Rightarrow> Inr (ABo (copy_bo bo))
                        | Some d \<Rightarrow> Inr d))"

section \<open>Attribute lists\<close>

text \<open>
  \<open>want\<close> is \<open>None\<close> when the caller passes no \<^verbatim>\<open>data\<close>, and otherwise whether it
  brings memory.  The result is the returned flag and the value stored, if any.
\<close>

fun orte_get_attribute ::
  "orte_attribute list \<Rightarrow> u16 \<Rightarrow> bool option \<Rightarrow> opal_data_type \<Rightarrow> bool \<times> attr_data option" where
  "orte_get_attribute [] key want type = (False, None)"
| "orte_get_attribute (kv # attributes) key want type =
     (if key = attr_key kv then
        if attr_type kv \<noteq> type then (False, None)
        else case want of
               None \<Rightarrow> (True, None)
             | Some has_dest \<Rightarrow> (True, case orte_attr_unload kv has_dest type of
                                          Inl _ \<Rightarrow> None | Inr d \<Rightarrow> Some d)
      else orte_get_attribute attributes key want type)"

definition orte_attr_cons :: orte_attribute where
  "orte_attr_cons = \<lparr>attr_key = 0, attr_type = OPAL_UNDEF, attr_local = True, attr_data = AZero\<rparr>"

fun orte_set_attribute ::
  "orte_attribute list \<Rightarrow> u16 \<Rightarrow> bool \<Rightarrow> attr_data option \<Rightarrow> opal_data_type \<Rightarrow>
   opal_err + orte_attribute list" where
  "orte_set_attribute [] key local data type =
     (case orte_attr_load (orte_attr_cons\<lparr>attr_key := key, attr_local := local\<rparr>) data type of
        Inl e \<Rightarrow> Inl e | Inr kv \<Rightarrow> Inr [kv])"
| "orte_set_attribute (kv # attributes) key local data type =
     (if key = attr_key kv then
        if attr_type kv \<noteq> type then Inl OPAL_ERR_TYPE_MISMATCH
        else case orte_attr_load kv data type of Inl e \<Rightarrow> Inl e | Inr kv \<Rightarrow> Inr (kv # attributes)
      else case orte_set_attribute attributes key local data type of
             Inl e \<Rightarrow> Inl e | Inr attributes \<Rightarrow> Inr (kv # attributes))"

fun orte_remove_attribute :: "orte_attribute list \<Rightarrow> u16 \<Rightarrow> orte_attribute list" where
  "orte_remove_attribute [] key = []"
| "orte_remove_attribute (kv # attributes) key =
     (if key = attr_key kv then attributes else kv # orte_remove_attribute attributes key)"

section \<open>Names of keys\<close>

text \<open>
  The names ORTE gives its own keys (\<^verbatim>\<open>orte/util/attr.h\<close>), and the converters other
  projects register for theirs, in a table of \<^verbatim>\<open>MAX_CONVERTERS\<close> entries.
\<close>

definition MAX_CONVERTERS :: nat where
  "MAX_CONVERTERS = 5"

record orte_attr_converter =
  cv_project :: string
  cv_key_base :: u16
  cv_key_max :: u16
  cv_converter :: "u16 \<Rightarrow> string"

definition orte_attr_register ::
  "orte_attr_converter list \<Rightarrow> string \<Rightarrow> u16 \<Rightarrow> u16 \<Rightarrow> (u16 \<Rightarrow> string) \<Rightarrow>
   opal_err + orte_attr_converter list" where
  "orte_attr_register converters project key_base key_max converter =
     (if length converters < MAX_CONVERTERS
      then Inr (converters @ [\<lparr>cv_project = take 9 project, cv_key_base = key_base,
                               cv_key_max = key_max, cv_converter = converter\<rparr>])
      else Inl OPAL_ERR_OUT_OF_RESOURCE)"

definition orte_key_names :: "(u16 \<times> string) list" where
  "orte_key_names =
     [
      (1, ''APP-HOSTFILE''),
      (2, ''APP-ADD-HOSTFILE''),
      (3, ''APP-DASH-HOST''),
      (4, ''APP-ADD-HOST''),
      (5, ''APP-USER-CWD''),
      (6, ''APP-USE-SESSION-DIR-AS-CWD''),
      (7, ''APP-PRELOAD-BIN''),
      (8, ''APP-PRELOAD-FILES''),
      (9, ''APP-SSTORE-LOAD''),
      (10, ''APP-RECOVERY-DEFINED''),
      (11, ''APP-MAX-RESTARTS''),
      (12, ''APP-MIN-NODES''),
      (13, ''APP-NODES-MANDATORY''),
      (14, ''APP-MAX-PPN''),
      (15, ''APP-PREFIX-DIR''),
      (101, ''NODE-USERNAME''),
      (102, ''NODE-LAUNCHID''),
      (103, ''NODE-HOSTID''),
      (104, ''NODE-ALIAS''),
      (105, ''NODE-SERIAL-NUM''),
      (201, ''JOB-LAUNCH-MSG-SENT''),
      (202, ''JOB-LAUNCH-MSG-RECVD''),
      (203, ''JOB-MAX-LAUNCH-MSG-RECVD''),
      (204, ''JOB-FILE-MAPS''),
      (205, ''JOB-CKPT-STATE''),
      (206, ''JOB-SNAPSHOT-REF''),
      (207, ''JOB-SNAPSHOT-LOC''),
      (208, ''JOB-SNAPC-INIT-BARRIER-ID''),
      (209, ''JOB-SNAPC-FINI-BARRIER-ID''),
      (210, ''JOB-NUM-NONZERO-EXIT''),
      (211, ''JOB-FAILURE-TIMER-EVENT''),
      (212, ''JOB-ABORTED-PROC''),
      (213, ''JOB-MAPPER''),
      (214, ''JOB-REDUCER''),
      (215, ''JOB-COMBINER''),
      (216, ''JOB-INDEX-ARGV''),
      (217, ''JOB-NO-VM''),
      (218, ''JOB-SPIN-FOR-DEBUG''),
      (219, ''JOB-CONTINUOUS-OP''),
      (220, ''JOB-RECOVERY-DEFINED''),
      (221, ''JOB-ENABLE-RECOVERY''),
      (222, ''JOB-NON-ORTE-JOB''),
      (223, ''JOB-STDOUT-TARGET''),
      (224, ''JOB-POWER''),
      (225, ''JOB-MAX_FREQ''),
      (226, ''JOB-MIN_FREQ''),
      (227, ''JOB-FREQ-GOVERNOR''),
      (228, ''JOB-FAIL-NOTIFIED''),
      (229, ''JOB-TERM-NOTIFIED''),
      (230, ''JOB-PEER-MODX-ID''),
      (231, ''JOB-INIT-BAR-ID''),
      (232, ''JOB-FINI-BAR-ID''),
      (233, ''JOB-FWD-IO-TO-TOOL''),
      (234, ''JOB-PHYSICAL-CPUIDS''),
      (235, ''JOB-LAUNCHED-DAEMONS''),
      (236, ''JOB-REPORT-BINDINGS''),
      (237, ''JOB-SLOT-LIST''),
      (238, ''JOB-NOTIFICATIONS''),
      (301, ''PROC-NOBARRIER''),
      (302, ''PROC-CPU-BITMAP''),
      (303, ''PROC-HWLOC-LOCALE''),
      (304, ''PROC-HWLOC-BOUND''),
      (305, ''PROC-PRIOR-NODE''),
      (306, ''PROC-NUM-RESTARTS''),
      (307, ''PROC-RESTART-TIME''),
      (308, ''PROC-FAST-FAILS''),
      (309, ''PROC-CKPT-STATE''),
      (310, ''PROC-SNAPHOT-REF''),
      (311, ''PROC-SNAPSHOT-LOC''),
      (312, ''PROC-NODENAME''),
      (313, ''PROC-CGROUP''),
      (314, ''PROC-NBEATS'')]"

definition orte_attr_key_to_str :: "orte_attr_converter list \<Rightarrow> u16 \<Rightarrow> string" where
  "orte_attr_key_to_str converters key =
     (if 0 < key \<and> key < 1000
      then (case map_of orte_key_names key of None \<Rightarrow> ''UNKNOWN-KEY'' | Some s \<Rightarrow> s)
      else case find (\<lambda>c. cv_key_base c < key \<and> key < cv_key_max c) converters of
             None \<Rightarrow> ''UNKNOWN-KEY''
           | Some c \<Rightarrow> cv_converter c key)"

section \<open>Sending attributes\<close>

text \<open>The array of one value that is packed for a type packed through the table.\<close>

definition attr_payload :: "attr_data \<Rightarrow> dss_data option" where
  "attr_payload d =
     (case d of A8 x \<Rightarrow> Some (D8 [x]) | A16 x \<Rightarrow> Some (D16 [x]) | A32 x \<Rightarrow> Some (D32 [x])
      | A64 x \<Rightarrow> Some (D64 [x]) | AString s \<Rightarrow> Some (DString [s]) | ATv s us \<Rightarrow> Some (DTimeval [(s, us)])
      | _ \<Rightarrow> None)"

definition payload_attr :: "dss_data \<Rightarrow> attr_data option" where
  "payload_attr d =
     (case d of D8 [x] \<Rightarrow> Some (A8 x) | D16 [x] \<Rightarrow> Some (A16 x) | D32 [x] \<Rightarrow> Some (A32 x)
      | D64 [x] \<Rightarrow> Some (A64 x) | DString [s] \<Rightarrow> Some (AString s) | DTimeval [(s, us)] \<Rightarrow> Some (ATv s us)
      | _ \<Rightarrow> None)"

definition pack_attr_data :: "dss_env \<Rightarrow> dss_table \<Rightarrow> orte_attribute \<Rightarrow> unit dss" where
  "pack_attr_data env tbl a =
     (case attr_class (attr_type a) of
        None \<Rightarrow> dss_fail OPAL_ERROR
      | Some CPtr \<Rightarrow> dss_return ()
      | Some CBo \<Rightarrow>
          (case read_as CBo (attr_data a) of
             Some (ABo bo) \<Rightarrow> pack_one_byte_object env bo
           | _ \<Rightarrow> dss_fail C_UNDEFINED)
      | Some c \<Rightarrow>
          (case Option.bind (read_as c (attr_data a)) attr_payload of
             Some d \<Rightarrow> opal_dss_pack_buffer tbl d 1 (attr_type a)
           | None \<Rightarrow> dss_fail C_UNDEFINED))"

definition orte_dt_pack_attr :: "dss_env \<Rightarrow> dss_table \<Rightarrow> dss_data \<Rightarrow> int \<Rightarrow> unit dss" where
  "orte_dt_pack_attr env tbl src num_vals =
     (case src of
        DAttr attrs \<Rightarrow>
          pack_each (\<lambda>a. dss_bind (opal_dss_pack_buffer tbl (D16 [attr_key a]) 1 ORTE_ATTR_KEY_T) (\<lambda>_.
                         dss_bind (opal_dss_pack_buffer tbl (D8 [attr_type a]) 1 OPAL_DATA_TYPE) (\<lambda>_.
                         pack_attr_data env tbl a))) attrs num_vals
      | _ \<Rightarrow> dss_fail C_UNDEFINED)"

definition unpack_attr_data :: "dss_env \<Rightarrow> dss_table \<Rightarrow> opal_data_type \<Rightarrow> attr_data dss" where
  "unpack_attr_data env tbl type =
     (case attr_class type of
        None \<Rightarrow> dss_fail OPAL_ERROR
      | Some CPtr \<Rightarrow> dss_fail OPAL_ERROR
      | Some CBo \<Rightarrow> dss_bind (unpack_bo_bytes env) (\<lambda>bo. dss_return (ABo bo))
      | Some _ \<Rightarrow>
          dss_bind (opal_dss_unpack_buffer tbl 1 type) (\<lambda>d.
            case payload_attr d of None \<Rightarrow> dss_fail C_UNDEFINED | Some v \<Rightarrow> dss_return v))"

definition unpack_one_attr :: "dss_env \<Rightarrow> dss_table \<Rightarrow> orte_attribute dss" where
  "unpack_one_attr env tbl =
     (if \<not> new_grants env ''orte_attribute_t'' then dss_fail OPAL_ERR_OUT_OF_RESOURCE
      else
        dss_bind (opal_dss_unpack_buffer tbl 1 ORTE_ATTR_KEY_T) (\<lambda>d. dss_bind (get16 d) (\<lambda>key.
        dss_bind (opal_dss_unpack_buffer tbl 1 OPAL_DATA_TYPE) (\<lambda>d. dss_bind (get8 d) (\<lambda>type.
        dss_bind (unpack_attr_data env tbl type) (\<lambda>v.
          dss_return (orte_attr_cons\<lparr>attr_key := key, attr_type := type, attr_data := v\<rparr>)))))))"

definition orte_dt_unpack_attr :: "dss_env \<Rightarrow> dss_table \<Rightarrow> int \<Rightarrow> dss_data dss" where
  "orte_dt_unpack_attr env tbl num_vals =
     dss_bind (dss_repeat (nat num_vals) (unpack_one_attr env tbl)) (\<lambda>xs. dss_return (DAttr xs))"

text \<open>The table once ORTE has registered its types (the ones modelled here).\<close>

definition orte_dss_types :: "dss_env \<Rightarrow> dss_table" where
  "orte_dss_types env t =
     (if t = ORTE_ATTRIBUTE
      then Some \<lparr>odti_pack_fn = orte_dt_pack_attr env (opal_dss_types env),
                 odti_unpack_fn = orte_dt_unpack_attr env (opal_dss_types env)\<rparr>
      else opal_dss_types env t)"

section \<open>Attribute lists behave like a map\<close>

lemma load_type: "orte_attr_load kv data type = Inr kv' \<Longrightarrow> attr_type kv' = type \<and> attr_key kv' = attr_key kv"
  by (auto simp: orte_attr_load_def split: if_splits option.splits)

definition attr_keys :: "orte_attribute list \<Rightarrow> u16 list" where
  "attr_keys = map attr_key"

lemma set_keys:
  assumes "orte_set_attribute attrs key loc data type = Inr attrs'"
  shows "attr_keys attrs' = (if key \<in> set (attr_keys attrs) then attr_keys attrs else attr_keys attrs @ [key])"
  using assms
  by (induction attrs arbitrary: attrs')
     (auto simp: attr_keys_def orte_attr_cons_def dest: load_type split: sum.splits if_splits)

lemma get_not_found: "key \<notin> set (attr_keys attrs) \<Longrightarrow> orte_get_attribute attrs key want type = (False, None)"
  by (induction attrs) (auto simp: attr_keys_def)

text \<open>What a caller reads after loading a value of a type.\<close>

definition loaded_value :: "attr_data option \<Rightarrow> opal_data_type \<Rightarrow> attr_data option" where
  "loaded_value data type =
     (case attr_class type of
        None \<Rightarrow> None
      | Some c \<Rightarrow> load_value c (Some (case data of None \<Rightarrow> AZero | Some d \<Rightarrow> d)))"

lemma copy_bo_idem [simp]: "copy_bo (copy_bo bo) = copy_bo bo" "copy_bo no_bytes = no_bytes"
  by (auto simp: copy_bo_def no_bytes_def split: option.splits)

lemma class_string: "attr_class t = Some CString \<longleftrightarrow> t = OPAL_STRING" "attr_class t = Some CBo \<longleftrightarrow> t = OPAL_BYTE_OBJECT"
  by (auto simp: attr_class_def)

lemma read_load: "load_value c data = Some v \<Longrightarrow>
  (case read_as c v of None \<Rightarrow> Inl C_UNDEFINED | Some (ABo bo) \<Rightarrow> Inr (ABo (copy_bo bo)) | Some d \<Rightarrow> Inr d) = Inr v"
  by (cases c) (auto simp: load_value_def read_as_def split: option.splits attr_data.splits)

lemma unload_loaded:
  assumes "orte_attr_load kv data type = Inr kv'" "attr_class type = Some c"
  shows "(case orte_attr_unload kv' True type of Inl _ \<Rightarrow> None | Inr d \<Rightarrow> Some d) = loaded_value data type"
proof (cases "data = None \<and> type \<noteq> OPAL_STRING \<and> type \<noteq> OPAL_BYTE_OBJECT")
  case True
  then show ?thesis using assms
    by (cases c) (auto simp: orte_attr_load_def orte_attr_unload_def loaded_value_def load_value_def read_as_def)
next
  case False
  then obtain v where v: "load_value c data = Some v" "attr_type kv' = type" "attr_data kv' = v"
    using assms by (auto simp: orte_attr_load_def split: option.splits)
  moreover have "loaded_value data type = load_value c data"
    using False assms(2) class_string[of type]
    by (cases data) (auto simp: loaded_value_def load_value_def read_as_def)
  ultimately show ?thesis using assms(2) read_load[OF v(1)]
    by (simp add: orte_attr_unload_def)
qed

lemma set_cases:
  assumes "orte_set_attribute attrs key loc data type = Inr attrs'"
  obtains (update) xs kv ys kv' where "attrs = xs @ kv # ys" "attrs' = xs @ kv' # ys"
      "key \<notin> set (attr_keys xs)" "attr_key kv = key" "attr_type kv = type" "orte_attr_load kv data type = Inr kv'"
    | (insert) kv' where "attrs' = attrs @ [kv']" "key \<notin> set (attr_keys attrs)"
      "orte_attr_load (orte_attr_cons\<lparr>attr_key := key, attr_local := loc\<rparr>) data type = Inr kv'"
  using assms
proof (induction attrs arbitrary: attrs' thesis)
  case Nil
  then obtain kv' where "orte_attr_load (orte_attr_cons\<lparr>attr_key := key, attr_local := loc\<rparr>) data type = Inr kv'"
    "attrs' = [kv']" by (simp split: sum.splits)
  then show ?case by (intro Nil.prems(2)[of kv']) (simp_all add: attr_keys_def)
next
  case (Cons a attrs)
  show ?case
  proof (cases "key = attr_key a")
    case True
    then obtain kv' where "orte_attr_load a data type = Inr kv'" "attrs' = kv' # attrs" "attr_type a = type"
      using Cons.prems(3) by (auto split: sum.splits if_splits)
    then show ?thesis using True by (intro Cons.prems(1)[of "[]" a attrs kv']) (simp_all add: attr_keys_def)
  next
    case False
    then obtain rest where rest: "orte_set_attribute attrs key loc data type = Inr rest" "attrs' = a # rest"
      using Cons.prems(3) by (auto split: sum.splits)
    show ?thesis
    proof (rule Cons.IH[OF _ _ rest(1)])
      fix xs kv ys kv'
      assume "attrs = xs @ kv # ys" "rest = xs @ kv' # ys" "key \<notin> set (attr_keys xs)" "attr_key kv = key"
        "attr_type kv = type" "orte_attr_load kv data type = Inr kv'"
      then show ?thesis using rest(2) False
        by (intro Cons.prems(1)[of "a # xs" kv ys kv']) (simp_all add: attr_keys_def)
    next
      fix kv' assume "rest = attrs @ [kv']" "key \<notin> set (attr_keys attrs)"
        "orte_attr_load (orte_attr_cons\<lparr>attr_key := key, attr_local := loc\<rparr>) data type = Inr kv'"
      then show ?thesis using rest(2) False by (intro Cons.prems(2)[of kv']) (simp_all add: attr_keys_def)
    qed
  qed
qed

lemma get_skip: "key \<notin> set (attr_keys xs) \<Longrightarrow> orte_get_attribute (xs @ ys) key want type = orte_get_attribute ys key want type"
  by (induction xs) (auto simp: attr_keys_def)

lemma get_prefix:
  "attr_key kv = attr_key kv' \<Longrightarrow> key' \<noteq> attr_key kv \<Longrightarrow>
   orte_get_attribute (xs @ kv # ys) key' want type = orte_get_attribute (xs @ kv' # ys) key' want type"
  "key' \<noteq> attr_key kv \<Longrightarrow> orte_get_attribute (xs @ [kv]) key' want type = orte_get_attribute xs key' want type"
  by (induction xs) auto

lemma get_set_same:
  assumes "orte_set_attribute attrs key loc data type = Inr attrs'" "attr_class type = Some c"
  shows "orte_get_attribute attrs' key (Some True) type = (True, loaded_value data type)"
  using assms(1)
proof (cases rule: set_cases)
  case (update xs kv ys kv')
  then show ?thesis using load_type[OF update(6)] unload_loaded[OF update(6) assms(2)]
    by (simp add: get_skip)
next
  case (insert kv')
  then show ?thesis using load_type[OF insert(3)] unload_loaded[OF insert(3) assms(2)]
    by (simp add: get_skip)
qed

lemma get_set_other:
  assumes "orte_set_attribute attrs key loc data type = Inr attrs'" "key' \<noteq> key"
  shows "orte_get_attribute attrs' key' want type' = orte_get_attribute attrs key' want type'"
  using assms(1)
proof (cases rule: set_cases)
  case (update xs kv ys kv')
  then show ?thesis using load_type[OF update(6)] get_prefix(1)[of kv' kv key' xs ys] assms(2) by simp
next
  case (insert kv')
  then show ?thesis using load_type[OF insert(3)] get_prefix(2)[of key' kv' attrs] assms(2) by simp
qed

lemma set_mismatch:
  "orte_set_attribute attrs key loc data type = Inl OPAL_ERR_TYPE_MISMATCH \<longleftrightarrow>
   (\<exists>kv. find (\<lambda>kv. attr_key kv = key) attrs = Some kv \<and> attr_type kv \<noteq> type)"
proof (induction attrs)
  case Nil
  then show ?case by (auto simp: orte_attr_load_def split: option.splits)
next
  case (Cons kv attrs)
  have "orte_attr_load kv data type \<noteq> Inl OPAL_ERR_TYPE_MISMATCH"
    by (auto simp: orte_attr_load_def split: option.splits)
  then show ?case using Cons by (auto split: sum.splits)
qed

lemma remove_keys: "distinct (attr_keys attrs) \<Longrightarrow> attr_keys (orte_remove_attribute attrs key) = remove1 key (attr_keys attrs)"
  by (induction attrs) (auto simp: attr_keys_def)

lemma get_remove_other:
  "key' \<noteq> key \<Longrightarrow> orte_get_attribute (orte_remove_attribute attrs key) key' want type =
                orte_get_attribute attrs key' want type"
  by (induction attrs) auto

section \<open>Attributes over the wire\<close>

text \<open>What arrives: the value, and a fresh object's \<^verbatim>\<open>local\<close> flag.\<close>

definition sent_attr :: "orte_attribute \<Rightarrow> orte_attribute" where
  "sent_attr a =
     (case Option.bind (attr_class (attr_type a)) (\<lambda>c. read_as c (attr_data a)) of
        None \<Rightarrow> a
      | Some v \<Rightarrow> a\<lparr>attr_local := True, attr_data := v\<rparr>)"

definition attr_ok :: "dss_env \<Rightarrow> orte_attribute \<Rightarrow> bool" where
  "attr_ok env a \<longleftrightarrow>
     (case Option.bind (attr_class (attr_type a)) (\<lambda>c. read_as c (attr_data a)) of
        None \<Rightarrow> False
      | Some v \<Rightarrow> (case v of APtr _ \<Rightarrow> False | AString s \<Rightarrow> wf_string s | ABo bo \<Rightarrow> bo_ok bo
                   | A32 x \<Rightarrow> attr_type a = OPAL_FLOAT \<longrightarrow> float_ok env x | _ \<Rightarrow> True))"

lemma types_carry_one:
  assumes "dss_ok env ty d" "dss_length d = 1"
  shows "transfers env True t (opal_dss_pack_buffer (opal_dss_types env) d 1 ty)
           (opal_dss_unpack_buffer (opal_dss_types env) 1 ty) d"
proof -
  obtain info where "opal_dss_types env ty = Some info"
    "transfers env True t (odti_pack_fn info d 1) (odti_unpack_fn info 1) d"
    using dss_types_carry[of env ty d t] assms by (auto simp: table_carries_def)
  then show ?thesis by (intro transfers_buffer) simp_all
qed

lemma payload_attr_payload: "attr_payload v = Some d \<Longrightarrow> payload_attr d = Some v"
  by (auto simp: attr_payload_def payload_attr_def split: attr_data.splits)

lemma payload_ok:
  assumes "attr_class ty = Some c" "read_as c w = Some v" "attr_payload v = Some d"
    and "\<And>s. v = AString s \<Longrightarrow> wf_string s" "\<And>x. v = A32 x \<Longrightarrow> ty = OPAL_FLOAT \<Longrightarrow> float_ok env x"
  shows "dss_ok env ty d" "dss_length d = 1"
proof -
  show "dss_length d = 1" using assms(3) by (auto simp: attr_payload_def split: attr_data.splits)
  show "dss_ok env ty d" using assms
    by (cases c) (auto simp: read_as_def attr_payload_def dss_ok_def attr_class_def
        split: attr_data.splits if_splits)
qed

lemma transfers_step:
  "transfers env nn t p (dss_bind u f) x \<Longrightarrow> transfers env True t (q ()) (g x) y \<Longrightarrow>
   transfers env nn t (dss_bind p q) (dss_bind u (\<lambda>d. dss_bind (f d) g)) y"
  unfolding dss_bind_assoc[symmetric] by (rule transfers_bind)

lemma transfers_new:
  assumes "transfers env nn t p u x"
  shows "transfers env nn t p (if \<not> new_grants env c then dss_fail e else u) x"
proof (cases "new_grants env c")
  case False
  then have "\<not> env_ok env" by (auto simp: env_ok_def)
  then show ?thesis using assms False by (auto simp: transfers_def reads_def)
qed (use assms in simp)

lemma attr_data_carried:
  assumes "attr_ok env a"
  shows "transfers env True t (pack_attr_data env (opal_dss_types env) a)
           (unpack_attr_data env (opal_dss_types env) (attr_type a)) (attr_data (sent_attr a))"
proof -
  obtain c v where c: "attr_class (attr_type a) = Some c" "read_as c (attr_data a) = Some v"
    using assms by (auto simp: attr_ok_def split: option.splits Option.bind_splits)
  have s: "attr_data (sent_attr a) = v" using c by (simp add: sent_attr_def)
  have ok: "\<And>st. v = AString st \<Longrightarrow> wf_string st" "\<And>x. v = A32 x \<Longrightarrow> attr_type a = OPAL_FLOAT \<Longrightarrow> float_ok env x"
    "\<And>p. v \<noteq> APtr p" "\<And>bo. v = ABo bo \<Longrightarrow> bo_ok bo"
    using assms c by (auto simp: attr_ok_def)
  show ?thesis
  proof (cases "attr_payload v")
    case (Some d)
    have "transfers env True t (opal_dss_pack_buffer (opal_dss_types env) d 1 (attr_type a))
       (dss_bind (opal_dss_unpack_buffer (opal_dss_types env) 1 (attr_type a)) (\<lambda>d.
          case payload_attr d of None \<Rightarrow> dss_fail C_UNDEFINED | Some v \<Rightarrow> dss_return v)) v"
      using types_carry_one[OF payload_ok[OF c Some ok(1,2)]] payload_attr_payload[OF Some]
      by (intro transfers_map) auto
    moreover have "c \<noteq> CBo" "c \<noteq> CPtr"
      using c(2) Some ok(3) by (auto simp: read_as_def attr_payload_def split: attr_data.splits)
    ultimately show ?thesis using c Some s
      by (cases c) (simp_all add: pack_attr_data_def unpack_attr_data_def)
  next
    case None
    then obtain bo where bo: "v = ABo bo" "c = CBo"
      using c(2) ok(3) by (cases c) (auto simp: read_as_def attr_payload_def split: attr_data.splits)
    have "transfers env True t (pack_one_byte_object env bo) (dss_bind (unpack_bo_bytes env) (\<lambda>bo. dss_return (ABo bo))) (ABo bo)"
      using transfersI[OF byte_object_carried[OF ok(4)[OF bo(1)]]] by (intro transfers_map) auto
    then show ?thesis using c bo s by (simp add: pack_attr_data_def unpack_attr_data_def)
  qed
qed

lemma attr_carried:
  assumes "attr_ok env a"
  shows "transfers env True t
    (dss_bind (opal_dss_pack_buffer (opal_dss_types env) (D16 [attr_key a]) 1 ORTE_ATTR_KEY_T) (\<lambda>_.
     dss_bind (opal_dss_pack_buffer (opal_dss_types env) (D8 [attr_type a]) 1 OPAL_DATA_TYPE) (\<lambda>_.
     pack_attr_data env (opal_dss_types env) a)))
    (unpack_one_attr env (opal_dss_types env)) (sent_attr a)"
proof -
  have key: "transfers env True t (opal_dss_pack_buffer (opal_dss_types env) (D16 [k]) 1 ORTE_ATTR_KEY_T)
          (dss_bind (opal_dss_unpack_buffer (opal_dss_types env) 1 ORTE_ATTR_KEY_T) get16) k" for k
    using types_carry_one[of env ORTE_ATTR_KEY_T "D16 [k]" t]
    by (intro transfers_map[where x = "D16 [k]"]) (simp_all add: dss_ok_def get16_def)
  have type: "transfers env True t (opal_dss_pack_buffer (opal_dss_types env) (D8 [k]) 1 OPAL_DATA_TYPE)
          (dss_bind (opal_dss_unpack_buffer (opal_dss_types env) 1 OPAL_DATA_TYPE) get8) k" for k
    using types_carry_one[of env OPAL_DATA_TYPE "D8 [k]" t]
    by (intro transfers_map[where x = "D8 [k]"]) (simp_all add: dss_ok_def get8_def)
  have "orte_attr_cons\<lparr>attr_key := attr_key a, attr_type := attr_type a, attr_data := attr_data (sent_attr a)\<rparr> = sent_attr a"
    using assms by (cases a) (auto simp: sent_attr_def orte_attr_cons_def attr_ok_def split: option.splits)
  then show ?thesis unfolding unpack_one_attr_def
    by (intro transfers_new transfers_step[OF key] transfers_step[OF type]
        transfers_map[OF attr_data_carried[OF assms]]) simp
qed

lemma transfers_seq:
  assumes "\<And>x. x \<in> set xs \<Longrightarrow> transfers env True t (p x) u (g x)"
  shows "transfers env True t (dss_seq (map p xs)) (dss_repeat (length xs) u) (map g xs)"
  using assms
proof (induction xs)
  case Nil
  then show ?case by (simp add: transfers_return)
next
  case (Cons x xs)
  have "transfers env True t (dss_seq (map p xs))
      (dss_bind (dss_repeat (length xs) u) (\<lambda>ys. dss_return (g x # ys))) (g x # map g xs)"
    using Cons by (intro transfers_map[where x = "map g xs"]) auto
  then show ?case using Cons.prems by (auto intro!: transfers_bind)
qed

lemma attrs_carried:
  assumes "\<forall>a \<in> set xs. attr_ok env a"
  shows "transfers env True t (orte_dt_pack_attr env (opal_dss_types env) (DAttr xs) (int (length xs)))
           (orte_dt_unpack_attr env (opal_dss_types env) (int (length xs))) (DAttr (map sent_attr xs))"
  unfolding orte_dt_pack_attr_def orte_dt_unpack_attr_def dss_data.case pack_each_def
  using assms by (auto intro!: transfers_map[OF transfers_seq] attr_carried)

lemma tbl_ok_orte [simp]: "tbl_ok env (orte_dss_types env)"
  using tbl_ok_intrinsic(2)[of env] by (auto simp: tbl_ok_def orte_dss_types_def)

lemma transfers_buffer_as:
  assumes "tbl_ok env tbl" "tbl ty = Some info"
    "transfers env True t (odti_pack_fn info d n) (odti_unpack_fn info n) d'"
  shows "transfers env True t (opal_dss_pack_buffer tbl d n ty) (opal_dss_unpack_buffer tbl n ty) d'"
  unfolding opal_dss_pack_buffer_def opal_dss_unpack_buffer_def
  using assms by (intro transfers_described) auto

lemma attr_buffer_carried:
  assumes "attr_ok env a"
  shows "transfers env True t (opal_dss_pack_buffer (orte_dss_types env) (DAttr [a]) 1 ORTE_ATTRIBUTE)
           (opal_dss_unpack_buffer (orte_dss_types env) 1 ORTE_ATTRIBUTE) (DAttr [sent_attr a])"
  using attrs_carried[of "[a]" env t] assms
  by (intro transfers_buffer_as[OF tbl_ok_orte]) (auto simp: orte_dss_types_def)

section \<open>Properties\<close>




text \<open>C15: Every attribute value that can be sent arrives with its key, type and value, in order,
  in both kinds of buffer; only its \<^verbatim>\<open>local\<close> flag is that of a fresh object.\<close>

theorem attrs_roundtrip:
  assumes "env_ok env" "\<forall>a \<in> set xs. attr_ok env a"
  shows "delivers t (orte_dt_pack_attr env (opal_dss_types env) (DAttr xs) (int (length xs)))
           (orte_dt_unpack_attr env (opal_dss_types env) (int (length xs))) (DAttr (map sent_attr xs))"
  using transfers_delivers[OF attrs_carried[OF assms(2)] assms(1)] .

definition example_attr :: orte_attribute where
  "example_attr = \<lparr>attr_key = 17, attr_type = OPAL_STRING, attr_local = False, attr_data = AString (Some ''fast'')\<rparr>"

theorem attrs_roundtrip_witness:
  "delivers OPAL_DSS_BUFFER_FULLY_DESC
     (orte_dt_pack_attr example_env (opal_dss_types example_env) (DAttr [example_attr]) 1)
     (orte_dt_unpack_attr example_env (opal_dss_types example_env) 1)
     (DAttr [example_attr\<lparr>attr_local := True\<rparr>])"
proof -
  have "attr_ok example_env example_attr" "sent_attr example_attr = example_attr\<lparr>attr_local := True\<rparr>"
    by (simp_all add: attr_ok_def sent_attr_def example_attr_def attr_class_def read_as_def wf_string_def)
  then show ?thesis
    using attrs_roundtrip[OF env_ok_example, of "[example_attr]" OPAL_DSS_BUFFER_FULLY_DESC] by simp
qed


end
