(* ===== verification/Scd_Dt.thy ===== *)
theory Scd_Dt
  imports Attr
begin

text \<open>
  The allocation object of the scheduler over the wire:
  \<^verbatim>\<open>orcm/mca/scd/base/scd_dt_fns.c\<close>.
\<close>

section \<open>Packing\<close>

text \<open>The fields of one allocation in the order they travel, then its constraints.\<close>

definition pack_alloc_fields :: "dss_table \<Rightarrow> orcm_alloc \<Rightarrow> unit dss list" where
  "pack_alloc_fields tbl alloc =
     [
      opal_dss_pack_buffer tbl (D64 [al_id alloc]) 1 OPAL_INT64,
      opal_dss_pack_buffer tbl (D32 [al_priority alloc]) 1 OPAL_INT32,
      opal_dss_pack_buffer tbl (DString [al_account alloc]) 1 OPAL_STRING,
      opal_dss_pack_buffer tbl (DString [al_name alloc]) 1 OPAL_STRING,
      opal_dss_pack_buffer tbl (D32 [al_gid alloc]) 1 OPAL_INT32,
      opal_dss_pack_buffer tbl (D32 [al_max_nodes alloc]) 1 OPAL_INT32,
      opal_dss_pack_buffer tbl (D32 [al_max_pes alloc]) 1 OPAL_INT32,
      opal_dss_pack_buffer tbl (D32 [al_min_nodes alloc]) 1 OPAL_INT32,
      opal_dss_pack_buffer tbl (D32 [al_min_pes alloc]) 1 OPAL_INT32,
      opal_dss_pack_buffer tbl (D64 [al_begin alloc]) 1 OPAL_TIME,
      opal_dss_pack_buffer tbl (D64 [al_walltime alloc]) 1 OPAL_TIME,
      opal_dss_pack_buffer tbl (D8 [al_exclusive alloc]) 1 OPAL_BOOL,
      opal_dss_pack_buffer tbl (D32 [al_caller_uid alloc]) 1 OPAL_UINT32,
      opal_dss_pack_buffer tbl (D32 [al_caller_gid alloc]) 1 OPAL_UINT32,
      opal_dss_pack_buffer tbl (D8 [al_interactive alloc]) 1 OPAL_BOOL,
      opal_dss_pack_buffer tbl (DName [al_originator alloc]) 1 OPAL_NAME,
      opal_dss_pack_buffer tbl (DName [al_hnp alloc]) 1 OPAL_NAME,
      opal_dss_pack_buffer tbl (DString [al_hnpname alloc]) 1 OPAL_STRING,
      opal_dss_pack_buffer tbl (DString [al_hnpuri alloc]) 1 OPAL_STRING,
      opal_dss_pack_buffer tbl (DString [al_parent_name alloc]) 1 OPAL_STRING,
      opal_dss_pack_buffer tbl (DString [al_parent_uri alloc]) 1 OPAL_STRING,
      opal_dss_pack_buffer tbl (DString [al_nodefile alloc]) 1 OPAL_STRING,
      opal_dss_pack_buffer tbl (DString [al_nodes alloc]) 1 OPAL_STRING,
      opal_dss_pack_buffer tbl (DString [al_queues alloc]) 1 OPAL_STRING,
      opal_dss_pack_buffer tbl (DString [al_batchfile alloc]) 1 OPAL_STRING,
      opal_dss_pack_buffer tbl (DString [al_notes alloc]) 1 OPAL_STRING]"

definition pack_one_alloc :: "dss_table \<Rightarrow> orcm_alloc \<Rightarrow> unit dss" where
  "pack_one_alloc tbl alloc =
     (let j = c_int32 (int (length (al_constraints alloc)))
      in dss_bind (dss_seq (pack_alloc_fields tbl alloc)) (\<lambda>_.
         dss_bind (opal_dss_pack_buffer tbl (D32 [word_of_int j]) 1 OPAL_INT32) (\<lambda>_.
         if 0 < j
         then dss_seq (map (\<lambda>attr. opal_dss_pack_buffer tbl (DAttr [attr]) 1 ORTE_ATTRIBUTE)
                         (al_constraints alloc))
         else dss_return ())))"

definition orcm_pack_alloc :: "dss_table \<Rightarrow> dss_data \<Rightarrow> int \<Rightarrow> unit dss" where
  "orcm_pack_alloc tbl src num_vals =
     (case src of DAlloc allocs \<Rightarrow> pack_each (pack_one_alloc tbl) allocs num_vals
      | _ \<Rightarrow> dss_fail C_UNDEFINED)"

section \<open>Unpacking\<close>

definition unpack_constraint :: "dss_table \<Rightarrow> orte_attribute dss" where
  "unpack_constraint tbl =
     dss_bind (opal_dss_unpack_buffer tbl 1 ORTE_ATTRIBUTE) (\<lambda>d.
       case d of DAttr (kv # _) \<Rightarrow> dss_return kv | _ \<Rightarrow> dss_fail C_UNDEFINED)"

text \<open>One field unpacked into the object.\<close>

definition unpack_field ::
  "dss_table \<Rightarrow> opal_data_type \<Rightarrow> (dss_data \<Rightarrow> 'a dss) \<Rightarrow> ('a \<Rightarrow> orcm_alloc \<Rightarrow> orcm_alloc) \<Rightarrow> orcm_alloc \<Rightarrow>
   orcm_alloc dss" where
  "unpack_field tbl type get store a =
     dss_bind (opal_dss_unpack_buffer tbl 1 type) (\<lambda>d. dss_bind (get d) (\<lambda>x. dss_return (store x a)))"

definition unpack_alloc_fields :: "dss_table \<Rightarrow> (orcm_alloc \<Rightarrow> orcm_alloc dss) list" where
  "unpack_alloc_fields tbl =
     [
      unpack_field tbl OPAL_INT64 get64 (\<lambda>x a. a\<lparr>al_id := x\<rparr>),
      unpack_field tbl OPAL_INT32 get32 (\<lambda>x a. a\<lparr>al_priority := x\<rparr>),
      unpack_field tbl OPAL_STRING getstr (\<lambda>x a. a\<lparr>al_account := x\<rparr>),
      unpack_field tbl OPAL_STRING getstr (\<lambda>x a. a\<lparr>al_name := x\<rparr>),
      unpack_field tbl OPAL_INT32 get32 (\<lambda>x a. a\<lparr>al_gid := x\<rparr>),
      unpack_field tbl OPAL_INT32 get32 (\<lambda>x a. a\<lparr>al_max_nodes := x\<rparr>),
      unpack_field tbl OPAL_INT32 get32 (\<lambda>x a. a\<lparr>al_max_pes := x\<rparr>),
      unpack_field tbl OPAL_INT32 get32 (\<lambda>x a. a\<lparr>al_min_nodes := x\<rparr>),
      unpack_field tbl OPAL_INT32 get32 (\<lambda>x a. a\<lparr>al_min_pes := x\<rparr>),
      unpack_field tbl OPAL_TIME get64 (\<lambda>x a. a\<lparr>al_begin := x\<rparr>),
      unpack_field tbl OPAL_TIME get64 (\<lambda>x a. a\<lparr>al_walltime := x\<rparr>),
      unpack_field tbl OPAL_BOOL get8 (\<lambda>x a. a\<lparr>al_exclusive := x\<rparr>),
      unpack_field tbl OPAL_UINT32 get32 (\<lambda>x a. a\<lparr>al_caller_uid := x\<rparr>),
      unpack_field tbl OPAL_UINT32 get32 (\<lambda>x a. a\<lparr>al_caller_gid := x\<rparr>),
      unpack_field tbl OPAL_BOOL get8 (\<lambda>x a. a\<lparr>al_interactive := x\<rparr>),
      unpack_field tbl OPAL_NAME getname (\<lambda>x a. a\<lparr>al_originator := x\<rparr>),
      unpack_field tbl OPAL_NAME getname (\<lambda>x a. a\<lparr>al_hnp := x\<rparr>),
      unpack_field tbl OPAL_STRING getstr (\<lambda>x a. a\<lparr>al_hnpname := x\<rparr>),
      unpack_field tbl OPAL_STRING getstr (\<lambda>x a. a\<lparr>al_hnpuri := x\<rparr>),
      unpack_field tbl OPAL_STRING getstr (\<lambda>x a. a\<lparr>al_parent_name := x\<rparr>),
      unpack_field tbl OPAL_STRING getstr (\<lambda>x a. a\<lparr>al_parent_uri := x\<rparr>),
      unpack_field tbl OPAL_STRING getstr (\<lambda>x a. a\<lparr>al_nodefile := x\<rparr>),
      unpack_field tbl OPAL_STRING getstr (\<lambda>x a. a\<lparr>al_nodes := x\<rparr>),
      unpack_field tbl OPAL_STRING getstr (\<lambda>x a. a\<lparr>al_queues := x\<rparr>),
      unpack_field tbl OPAL_STRING getstr (\<lambda>x a. a\<lparr>al_batchfile := x\<rparr>),
      unpack_field tbl OPAL_STRING getstr (\<lambda>x a. a\<lparr>al_notes := x\<rparr>)]"

fun dss_chain :: "('a \<Rightarrow> 'a dss) list \<Rightarrow> 'a \<Rightarrow> 'a dss" where
  "dss_chain [] a = dss_return a"
| "dss_chain (f # fs) a = dss_bind (f a) (dss_chain fs)"

definition unpack_one_alloc :: "dss_env \<Rightarrow> dss_table \<Rightarrow> orcm_alloc dss" where
  "unpack_one_alloc env tbl =
     (if \<not> new_grants env ''orcm_alloc_t'' then dss_fail OPAL_ERR_OUT_OF_RESOURCE
      else
        dss_bind (dss_chain (unpack_alloc_fields tbl) orcm_alloc_con) (\<lambda>a.
        dss_bind (opal_dss_unpack_buffer tbl 1 OPAL_INT32) (\<lambda>d. dss_bind (get32 d) (\<lambda>j.
        dss_bind (dss_repeat (nat (sint j)) (unpack_constraint tbl)) (\<lambda>kvs.
          dss_return (a\<lparr>al_constraints := al_constraints a @ kvs\<rparr>))))))"

definition orcm_unpack_alloc :: "dss_env \<Rightarrow> dss_table \<Rightarrow> int \<Rightarrow> dss_data dss" where
  "orcm_unpack_alloc env tbl num_vals =
     dss_bind (dss_repeat (nat num_vals) (unpack_one_alloc env tbl)) (\<lambda>xs. dss_return (DAlloc xs))"

section \<open>Comparing\<close>

definition orcm_compare_alloc :: "orcm_alloc \<Rightarrow> orcm_alloc \<Rightarrow> int" where
  "orcm_compare_alloc value1 value2 =
     (if sint (al_priority value1) > sint (al_priority value2) then 1
      else if sint (al_priority value2) > sint (al_priority value1) then - 1
      else 0)"

text \<open>The table once the scheduler has registered its type.\<close>

definition alloc_dss_types :: "dss_env \<Rightarrow> dss_table" where
  "alloc_dss_types env t =
     (if t = ORCM_ALLOC
      then Some \<lparr>odti_pack_fn = orcm_pack_alloc (orte_dss_types env),
                 odti_unpack_fn = orcm_unpack_alloc env (orte_dss_types env)\<rparr>
      else orte_dss_types env t)"

section \<open>Round trip\<close>

lemma orte_table_simps [simp]:
  "ty \<noteq> ORTE_ATTRIBUTE \<Longrightarrow> opal_dss_pack_buffer (orte_dss_types env) d n ty = opal_dss_pack_buffer (opal_dss_types env) d n ty"
  "ty \<noteq> ORTE_ATTRIBUTE \<Longrightarrow> opal_dss_unpack_buffer (orte_dss_types env) n ty = opal_dss_unpack_buffer (opal_dss_types env) n ty"
  by (simp_all add: opal_dss_pack_buffer_def opal_dss_unpack_buffer_def opal_dss_store_data_type_def
      opal_dss_get_data_type_def orte_dss_types_def)

lemma field_carried:
  assumes "dss_ok env ty d" "dss_length d = 1" "ty \<noteq> ORTE_ATTRIBUTE" "get d = dss_return x"
  shows "transfers env True t (opal_dss_pack_buffer (orte_dss_types env) d 1 ty)
           (unpack_field (orte_dss_types env) ty get store a) (store x a)"
  unfolding unpack_field_def using types_carry_one[OF assms(1,2)] assms(3,4)
  by (intro transfers_map[where x = d]) simp_all

text \<open>Three lists in step: what is packed, how it is unpacked, what that changes.\<close>

lemma transfers_chain:
  assumes "\<forall>(p, f, s) \<in> set xs. \<forall>a. transfers env True t p (f a) (s a)"
  shows "transfers env True t (dss_seq (map fst xs)) (dss_chain (map (fst \<circ> snd) xs) a) (fold (snd \<circ> snd) xs a)"
  using assms
proof (induction xs arbitrary: a)
  case Nil
  then show ?case by (simp add: transfers_return)
next
  case (Cons x xs)
  obtain p f s where x: "x = (p, f, s)" by (cases x) auto
  then show ?case using Cons by (auto intro!: transfers_bind[where x = "s a"])
qed

text \<open>An allocation whose strings and constraints can be sent.\<close>

definition alloc_ok :: "dss_env \<Rightarrow> orcm_alloc \<Rightarrow> bool" where
  "alloc_ok env al \<longleftrightarrow>
     (\<forall>s \<in> {al_account al, al_name al, al_hnpname al, al_hnpuri al, al_parent_name al, al_parent_uri al,
            al_nodefile al, al_nodes al, al_queues al, al_batchfile al, al_notes al}. wf_string s) \<and>
     (\<forall>a \<in> set (al_constraints al). attr_ok env a) \<and> length (al_constraints al) < 2 ^ 31"

lemma field_carried_simps:
  "transfers env True t (opal_dss_pack_buffer (orte_dss_types env) (D8 [x8]) 1 OPAL_BOOL)
     (unpack_field (orte_dss_types env) OPAL_BOOL get8 s8 a) (s8 x8 a)"
  "ty \<in> {OPAL_INT32, OPAL_UINT32} \<Longrightarrow>
   transfers env True t (opal_dss_pack_buffer (orte_dss_types env) (D32 [x32]) 1 ty)
     (unpack_field (orte_dss_types env) ty get32 s32 a) (s32 x32 a)"
  "ty \<in> {OPAL_INT64, OPAL_TIME} \<Longrightarrow>
   transfers env True t (opal_dss_pack_buffer (orte_dss_types env) (D64 [x64]) 1 ty)
     (unpack_field (orte_dss_types env) ty get64 s64 a) (s64 x64 a)"
  "transfers env True t (opal_dss_pack_buffer (orte_dss_types env) (DName [n]) 1 OPAL_NAME)
     (unpack_field (orte_dss_types env) OPAL_NAME getname sn a) (sn n a)"
  "wf_string st \<Longrightarrow> transfers env True t (opal_dss_pack_buffer (orte_dss_types env) (DString [st]) 1 OPAL_STRING)
     (unpack_field (orte_dss_types env) OPAL_STRING getstr ss a) (ss st a)"
  by (intro field_carried; auto simp: dss_ok_def get8_def get32_def get64_def getname_def getstr_def)+

definition alloc_updates :: "orcm_alloc \<Rightarrow> (orcm_alloc \<Rightarrow> orcm_alloc) list" where
  "alloc_updates al =
     [\<lambda>a. a\<lparr>al_id := al_id al\<rparr>, \<lambda>a. a\<lparr>al_priority := al_priority al\<rparr>, \<lambda>a. a\<lparr>al_account := al_account al\<rparr>,
      \<lambda>a. a\<lparr>al_name := al_name al\<rparr>, \<lambda>a. a\<lparr>al_gid := al_gid al\<rparr>, \<lambda>a. a\<lparr>al_max_nodes := al_max_nodes al\<rparr>,
      \<lambda>a. a\<lparr>al_max_pes := al_max_pes al\<rparr>, \<lambda>a. a\<lparr>al_min_nodes := al_min_nodes al\<rparr>,
      \<lambda>a. a\<lparr>al_min_pes := al_min_pes al\<rparr>, \<lambda>a. a\<lparr>al_begin := al_begin al\<rparr>,
      \<lambda>a. a\<lparr>al_walltime := al_walltime al\<rparr>, \<lambda>a. a\<lparr>al_exclusive := al_exclusive al\<rparr>,
      \<lambda>a. a\<lparr>al_caller_uid := al_caller_uid al\<rparr>, \<lambda>a. a\<lparr>al_caller_gid := al_caller_gid al\<rparr>,
      \<lambda>a. a\<lparr>al_interactive := al_interactive al\<rparr>, \<lambda>a. a\<lparr>al_originator := al_originator al\<rparr>,
      \<lambda>a. a\<lparr>al_hnp := al_hnp al\<rparr>, \<lambda>a. a\<lparr>al_hnpname := al_hnpname al\<rparr>, \<lambda>a. a\<lparr>al_hnpuri := al_hnpuri al\<rparr>,
      \<lambda>a. a\<lparr>al_parent_name := al_parent_name al\<rparr>, \<lambda>a. a\<lparr>al_parent_uri := al_parent_uri al\<rparr>,
      \<lambda>a. a\<lparr>al_nodefile := al_nodefile al\<rparr>, \<lambda>a. a\<lparr>al_nodes := al_nodes al\<rparr>, \<lambda>a. a\<lparr>al_queues := al_queues al\<rparr>,
      \<lambda>a. a\<lparr>al_batchfile := al_batchfile al\<rparr>, \<lambda>a. a\<lparr>al_notes := al_notes al\<rparr>]"

lemma alloc_updates_all: "fold (\<lambda>f a. f a) (alloc_updates al) orcm_alloc_con = al\<lparr>al_constraints := []\<rparr>"
  by (cases al) (simp add: alloc_updates_def orcm_alloc_con_def)

lemma alloc_fields_carried:
  assumes "alloc_ok env al"
  shows "transfers env True t (dss_seq (pack_alloc_fields (orte_dss_types env) al))
           (dss_chain (unpack_alloc_fields (orte_dss_types env)) orcm_alloc_con) (al\<lparr>al_constraints := []\<rparr>)"
proof -
  let ?tbl = "orte_dss_types env"
  let ?xs = "zip (pack_alloc_fields ?tbl al) (zip (unpack_alloc_fields ?tbl) (alloc_updates al))"
  have "\<forall>(p, f, s) \<in> set ?xs. \<forall>a. transfers env True t p (f a) (s a)"
    using assms unfolding pack_alloc_fields_def unpack_alloc_fields_def alloc_updates_def zip_Cons_Cons zip.simps
    by (auto intro!: field_carried_simps simp del: orte_table_simps simp: alloc_ok_def)
  then have "transfers env True t (dss_seq (map fst ?xs)) (dss_chain (map (fst \<circ> snd) ?xs) orcm_alloc_con)
      (fold (snd \<circ> snd) ?xs orcm_alloc_con)" by (rule transfers_chain)
  moreover have "map fst ?xs = pack_alloc_fields ?tbl al" "map (fst \<circ> snd) ?xs = unpack_alloc_fields ?tbl"
    by (simp_all add: pack_alloc_fields_def unpack_alloc_fields_def alloc_updates_def)
  moreover have "fold (snd \<circ> snd) ?xs orcm_alloc_con = fold (\<lambda>f a. f a) (alloc_updates al) orcm_alloc_con"
    by (simp add: pack_alloc_fields_def unpack_alloc_fields_def alloc_updates_def)
  ultimately show ?thesis by (simp add: alloc_updates_all)
qed

lemma constraint_carried:
  assumes "attr_ok env a"
  shows "transfers env True t (opal_dss_pack_buffer (orte_dss_types env) (DAttr [a]) 1 ORTE_ATTRIBUTE)
           (unpack_constraint (orte_dss_types env)) (sent_attr a)"
  unfolding unpack_constraint_def using attr_buffer_carried[OF assms] by (rule transfers_map) simp

definition sent_alloc :: "orcm_alloc \<Rightarrow> orcm_alloc" where
  "sent_alloc al = al\<lparr>al_constraints := map sent_attr (al_constraints al)\<rparr>"

lemma alloc_carried:
  assumes "alloc_ok env al"
  shows "transfers env True t (pack_one_alloc (orte_dss_types env) al)
           (unpack_one_alloc env (orte_dss_types env)) (sent_alloc al)"
proof -
  let ?tbl = "orte_dss_types env" and ?cs = "al_constraints al"
  define n where "n = length ?cs"
  have n: "n < 2 ^ 31" using assms by (simp add: alloc_ok_def n_def)
  let ?w = "word_of_int (int n) :: u32"
  have "transfers env True t (dss_seq (map (\<lambda>attr. opal_dss_pack_buffer ?tbl (DAttr [attr]) 1 ORTE_ATTRIBUTE) ?cs))
      (dss_repeat (length ?cs) (unpack_constraint ?tbl)) (map sent_attr ?cs)"
    using assms by (intro transfers_seq constraint_carried) (simp add: alloc_ok_def)
  then have cs: "transfers env True t
      (if 0 < int n then dss_seq (map (\<lambda>attr. opal_dss_pack_buffer ?tbl (DAttr [attr]) 1 ORTE_ATTRIBUTE) ?cs)
       else dss_return ())
      (dss_bind (dss_repeat (nat (sint ?w)) (unpack_constraint ?tbl)) (\<lambda>kvs.
          dss_return (al\<lparr>al_constraints := []\<rparr>\<lparr>al_constraints := al_constraints (al\<lparr>al_constraints := []\<rparr>) @ kvs\<rparr>)))
      (sent_alloc al)"
    unfolding u32_of_length(2)[OF n] nat_int
    by (intro transfers_map) (auto simp: n_def sent_alloc_def)
  have count: "transfers env True t (opal_dss_pack_buffer ?tbl (D32 [?w]) 1 OPAL_INT32)
      (dss_bind (opal_dss_unpack_buffer ?tbl 1 OPAL_INT32) get32) ?w"
    using types_carry_one[of env OPAL_INT32 "D32 [?w]" t]
    by (intro transfers_map[where x = "D32 [?w]"]) (simp_all add: dss_ok_def get32_def)
  have "c_int32 (int (length ?cs)) = int n" using n by (simp add: n_def)
  then have "pack_one_alloc ?tbl al = dss_bind (dss_seq (pack_alloc_fields ?tbl al)) (\<lambda>_.
      dss_bind (opal_dss_pack_buffer ?tbl (D32 [?w]) 1 OPAL_INT32) (\<lambda>_.
      if 0 < int n then dss_seq (map (\<lambda>attr. opal_dss_pack_buffer ?tbl (DAttr [attr]) 1 ORTE_ATTRIBUTE) ?cs)
      else dss_return ()))"
    by (simp only: pack_one_alloc_def Let_def)
  then show ?thesis unfolding unpack_one_alloc_def
    by (simp only:) (intro transfers_new transfers_bind[OF alloc_fields_carried[OF assms]]
        transfers_step[OF count] cs)
qed

lemma allocs_carried:
  assumes "\<forall>al \<in> set als. alloc_ok env al"
  shows "transfers env True t (orcm_pack_alloc (orte_dss_types env) (DAlloc als) (int (length als)))
           (orcm_unpack_alloc env (orte_dss_types env) (int (length als))) (DAlloc (map sent_alloc als))"
  unfolding orcm_pack_alloc_def orcm_unpack_alloc_def dss_data.case pack_each_def
  using assms by (auto intro!: transfers_map[OF transfers_seq] alloc_carried)

section \<open>Properties\<close>



end
