(* ===== verification/Argv.thy ===== *)
theory Argv
  imports Orcm_Prelude
begin

text \<open>
  Arrays of strings in the style of \<^verbatim>\<open>argv\<close>: \<^verbatim>\<open>opal/util/argv.c\<close>.  Node lists,
  node expressions and queue lists of the scheduler are split and joined with them.
  Allocations succeed in this theory.
\<close>

section \<open>Arrays\<close>

text \<open>
  An \<^verbatim>\<open>argv\<close> is null or an array of pointers that a null pointer ends.  Seen from outside
  it is an optional list of strings; the functions that move pointers around work on the
  cells of the array.
\<close>

type_synonym argv = "string list option"

definition cells :: "string list \<Rightarrow> string option list" where
  "cells xs = map Some xs @ [None]"

definition argv_of :: "string option list \<Rightarrow> string list" where
  "argv_of cs = map the (takeWhile (\<lambda>c. c \<noteq> None) cs)"

fun count_cells :: "string option list \<Rightarrow> nat" where
  "count_cells (Some _ # cs) = Suc (count_cells cs)"
| "count_cells _ = 0"

definition opal_argv_count :: "argv \<Rightarrow> nat" where
  "opal_argv_count argv = (case argv of None \<Rightarrow> 0 | Some xs \<Rightarrow> count_cells (cells xs))"

definition opal_argv_append_nosize :: "argv \<Rightarrow> string \<Rightarrow> argv" where
  "opal_argv_append_nosize argv arg =
     (let (argc, cs) = (case argv of
                          None \<Rightarrow> (0, [None, None])
                        | Some xs \<Rightarrow> (opal_argv_count argv, cells xs @ [None]))
      in Some (argv_of (cs[argc := Some arg, Suc argc := None])))"

definition opal_argv_append :: "argv \<Rightarrow> string \<Rightarrow> nat \<times> argv" where
  "opal_argv_append argv arg =
     (let argv = opal_argv_append_nosize argv arg in (opal_argv_count argv, argv))"

text \<open>\<^verbatim>\<open>for (i=argc; 0 < i; i--) argv[i] = argv[i-1]\<close>\<close>

fun shift_down :: "nat \<Rightarrow> 'a list \<Rightarrow> 'a list" where
  "shift_down 0 cs = cs"
| "shift_down (Suc i) cs = shift_down i (cs[Suc i := cs ! i])"

definition opal_argv_prepend_nosize :: "argv \<Rightarrow> string \<Rightarrow> argv" where
  "opal_argv_prepend_nosize argv arg =
     (case argv of
        None \<Rightarrow> Some (argv_of [Some arg, None])
      | Some xs \<Rightarrow>
          let argc = opal_argv_count argv;
              cs = (cells xs @ [None])[Suc argc := None]
          in Some (argv_of ((shift_down argc cs)[0 := Some arg])))"

text \<open>Overwriting an element with an equal string changes nothing that can be seen.\<close>

definition opal_argv_append_unique_nosize :: "argv \<Rightarrow> string \<Rightarrow> bool \<Rightarrow> argv" where
  "opal_argv_append_unique_nosize argv arg overwrite =
     (case argv of
        None \<Rightarrow> opal_argv_append_nosize argv arg
      | Some xs \<Rightarrow> if arg \<in> set xs then argv else opal_argv_append_nosize argv arg)"

section \<open>Splitting and joining\<close>

text \<open>
  The loop of \<^verbatim>\<open>opal_argv_split_inter\<close>: up to the next delimiter, an argument (the tail, a
  long or a short one) or an empty one that counts only where empty ones are kept.
\<close>

lemma rest_shorter: "src \<noteq> [] \<Longrightarrow> length (dropWhile P src) - Suc 0 < length src"
  using length_dropWhile_le[of P src] by (cases src) auto

function split_loop :: "string \<Rightarrow> char \<Rightarrow> bool \<Rightarrow> argv \<Rightarrow> argv" where
  "split_loop src delimiter include_empty argv =
     (if src = [] then argv
      else
        let arg = takeWhile (\<lambda>c. c \<noteq> delimiter) src;
            p = dropWhile (\<lambda>c. c \<noteq> delimiter) src
        in if arg = [] then
             split_loop (drop 1 p) delimiter include_empty
               (if include_empty then opal_argv_append_nosize argv [] else argv)
           else if p = [] then split_loop p delimiter include_empty (opal_argv_append_nosize argv src)
           else split_loop (drop 1 p) delimiter include_empty (opal_argv_append_nosize argv arg))"
  by pat_completeness auto

termination
  by (relation "measure (\<lambda>(src, _). length src)") (auto simp: rest_shorter)

declare split_loop.simps [simp del]

definition opal_argv_split_inter :: "string option \<Rightarrow> char \<Rightarrow> bool \<Rightarrow> argv" where
  "opal_argv_split_inter src delimiter include_empty =
     (case src of None \<Rightarrow> None | Some s \<Rightarrow> split_loop s delimiter include_empty None)"

definition opal_argv_split :: "string option \<Rightarrow> char \<Rightarrow> argv" where
  "opal_argv_split src delimiter = opal_argv_split_inter src delimiter False"

definition opal_argv_split_with_empty :: "string option \<Rightarrow> char \<Rightarrow> argv" where
  "opal_argv_split_with_empty src delimiter = opal_argv_split_inter src delimiter True"

text \<open>
  The fill loop of the join functions: \<open>pp\<close> is what is left of the current string,
  \<open>ps\<close> the strings after it.  Running out of strings is a read through a null pointer.
\<close>

fun join_fill :: "nat \<Rightarrow> string \<Rightarrow> string list \<Rightarrow> char \<Rightarrow> string option" where
  "join_fill 0 pp ps d = Some []"
| "join_fill (Suc k) [] [] d = None"
| "join_fill (Suc k) [] (p # ps) d = map_option ((#) d) (join_fill k p ps d)"
| "join_fill (Suc k) (c # pp) ps d = map_option ((#) c) (join_fill k pp ps d)"

text \<open>
  The length counted first includes one delimiter per string; the last one makes room for the
  terminating null.  A count of zero is decremented to the largest \<^verbatim>\<open>size_t\<close>, and the
  terminator is written outside the allocation.
\<close>

definition join_strings :: "string list \<Rightarrow> string list \<Rightarrow> char \<Rightarrow> opal_err + string" where
  "join_strings counted from d =
     (let str_len = sum_list (map (\<lambda>s. length s + 1) counted)
      in if str_len = 0 then Inl C_UNDEFINED
         else case join_fill (str_len - 1) (hd from) (tl from) d of
                None \<Rightarrow> Inl C_UNDEFINED | Some s \<Rightarrow> Inr s)"

definition opal_argv_join :: "argv \<Rightarrow> char \<Rightarrow> opal_err + string" where
  "opal_argv_join argv d =
     (case argv of None \<Rightarrow> Inr [] | Some [] \<Rightarrow> Inr [] | Some xs \<Rightarrow> join_strings xs xs d)"

definition opal_argv_join_range :: "argv \<Rightarrow> nat \<Rightarrow> nat \<Rightarrow> char \<Rightarrow> opal_err + string" where
  "opal_argv_join_range argv start stop d =
     (case argv of
        None \<Rightarrow> Inr []
      | Some [] \<Rightarrow> Inr []
      | Some xs \<Rightarrow>
          if c_int32 (int start) > int (opal_argv_count argv) then Inr []
          else join_strings (take (stop - start) (drop start xs)) (drop start xs) d)"

definition opal_argv_len :: "argv \<Rightarrow> nat" where
  "opal_argv_len argv =
     (case argv of None \<Rightarrow> 0 | Some xs \<Rightarrow> foldl (\<lambda>n s. n + (length s + 1 + 8)) 8 xs)"

definition opal_argv_copy :: "argv \<Rightarrow> argv" where
  "opal_argv_copy argv =
     (case argv of None \<Rightarrow> None | Some xs \<Rightarrow> foldl opal_argv_append_nosize (Some []) xs)"

section \<open>Deleting and inserting\<close>

text \<open>\<^verbatim>\<open>for (i = start; i < start + suffix_count; ++i) argv[i] = argv[i + num]\<close>\<close>

fun move_front :: "nat \<Rightarrow> nat \<Rightarrow> nat \<Rightarrow> 'a list \<Rightarrow> 'a list" where
  "move_front 0 i num cs = cs"
| "move_front (Suc m) i num cs = move_front m (Suc i) num (cs[i := cs ! (i + num)])"

definition opal_argv_delete :: "int \<Rightarrow> argv \<Rightarrow> int \<Rightarrow> int \<Rightarrow> opal_err + int \<times> argv" where
  "opal_argv_delete argc argv start num_to_delete =
     (case argv of
        None \<Rightarrow> Inr (argc, argv)
      | Some xs \<Rightarrow>
          let count = opal_argv_count argv
          in if num_to_delete = 0 then Inr (argc, argv)
             else if start > int count then Inr (argc, argv)
             else if start < 0 \<or> num_to_delete < 0 then Inl OPAL_ERR_BAD_PARAM
             else if start + num_to_delete > INT_MAX then Inl C_UNDEFINED
             else
               let i = nat start; num = nat num_to_delete; suffix_count = count - (i + num);
                   cs = (move_front suffix_count i num (cells xs))[i + suffix_count := None]
               in Inr (argc - num_to_delete, Some (argv_of cs)))"

text \<open>\<^verbatim>\<open>for (i = suffix_count - 1; i >= 0; --i) target[start + k + i] = target[start + i]\<close>\<close>

fun move_suffix :: "nat \<Rightarrow> nat \<Rightarrow> nat \<Rightarrow> 'a list \<Rightarrow> 'a list" where
  "move_suffix 0 start k cs = cs"
| "move_suffix (Suc i) start k cs = move_suffix i start k (cs[start + k + i := cs ! (start + i)])"

fun store_from :: "nat \<Rightarrow> 'a list \<Rightarrow> 'a list \<Rightarrow> 'a list" where
  "store_from i [] cs = cs"
| "store_from i (x # xs) cs = store_from (Suc i) xs (cs[i := x])"

definition insert_cells :: "string list \<Rightarrow> nat \<Rightarrow> string list \<Rightarrow> string list" where
  "insert_cells xs start source =
     (let k = length source; suffix_count = length xs - start;
          cs = cells xs @ replicate k None;
          cs = move_suffix suffix_count start k cs;
          cs = cs[start + suffix_count + k := None]
      in argv_of (store_from start (map Some source) cs))"

definition opal_argv_insert :: "argv \<Rightarrow> int \<Rightarrow> argv \<Rightarrow> opal_err + argv" where
  "opal_argv_insert target start source =
     (case target of
        None \<Rightarrow> Inl OPAL_ERR_BAD_PARAM
      | Some xs \<Rightarrow>
          if start < 0 then Inl OPAL_ERR_BAD_PARAM
          else case source of
                 None \<Rightarrow> Inr target
               | Some ys \<Rightarrow>
                   if start > int (opal_argv_count target)
                   then Inr (foldl opal_argv_append_nosize target ys)
                   else Inr (Some (insert_cells xs (nat start) ys)))"

definition opal_argv_insert_element :: "argv \<Rightarrow> int \<Rightarrow> string option \<Rightarrow> opal_err + argv" where
  "opal_argv_insert_element target location source =
     (case target of
        None \<Rightarrow> Inl OPAL_ERR_BAD_PARAM
      | Some xs \<Rightarrow>
          if location < 0 then Inl OPAL_ERR_BAD_PARAM
          else case source of
                 None \<Rightarrow> Inr target
               | Some s \<Rightarrow>
                   if location > int (opal_argv_count target)
                   then Inr (opal_argv_append_nosize target s)
                   else Inr (Some (insert_cells xs (nat location) [s])))"

section \<open>What the functions do to the list\<close>

lemma argv_of_simps [simp]:
  "argv_of (cells xs) = xs" "argv_of (cells xs @ cs) = xs" "argv_of (Some x # cs) = x # argv_of cs"
  "argv_of (None # cs) = []" "argv_of (map Some xs @ None # cs) = xs"
  by (induction xs) (auto simp: argv_of_def cells_def)

lemma count_cells [simp]: "count_cells (cells xs) = length xs"
  by (induction xs) (auto simp: cells_def)

lemma argv_count [simp]: "opal_argv_count (Some xs) = length xs" "opal_argv_count None = 0"
  by (simp_all add: opal_argv_count_def)

lemma append_nosize [simp]:
  "opal_argv_append_nosize (Some xs) s = Some (xs @ [s])" "opal_argv_append_nosize None s = Some [s]"
proof -
  have "(cells xs @ [None])[length xs := Some s, Suc (length xs) := None] = cells (xs @ [s])"
    by (simp add: cells_def list_update_append)
  then show "opal_argv_append_nosize (Some xs) s = Some (xs @ [s])"
    by (simp add: opal_argv_append_nosize_def)
  show "opal_argv_append_nosize None s = Some [s]" by (simp add: opal_argv_append_nosize_def)
qed

lemma shift_down: "n < length cs \<Longrightarrow> shift_down n cs = cs ! 0 # take n cs @ drop (Suc n) cs"
proof (induction n arbitrary: cs)
  case 0
  then show ?case by (simp add: Cons_nth_drop_Suc)
next
  case (Suc n)
  then have "shift_down (Suc n) cs = cs ! 0 # take n cs @ drop (Suc n) (cs[Suc n := cs ! n])"
    by simp
  moreover have "drop (Suc n) (cs[Suc n := cs ! n]) = cs ! n # drop (Suc (Suc n)) cs"
    using Suc.prems by (simp add: Cons_nth_drop_Suc[symmetric] nth_list_update drop_update_cancel)
  ultimately show ?case using Suc.prems by (simp add: take_Suc_conv_app_nth)
qed

lemma prepend_nosize [simp]:
  "opal_argv_prepend_nosize (Some xs) s = Some (s # xs)" "opal_argv_prepend_nosize None s = Some [s]"
proof -
  have "shift_down (length xs) (cells xs @ [None]) = (cells xs @ [None]) ! 0 # map Some xs @ [None]"
    by (subst shift_down) (auto simp: cells_def)
  then show "opal_argv_prepend_nosize (Some xs) s = Some (s # xs)"
    by (simp add: opal_argv_prepend_nosize_def list_update_append cells_def argv_of_simps)
  show "opal_argv_prepend_nosize None s = Some [s]" by (simp add: opal_argv_prepend_nosize_def)
qed

lemma append_all: "foldl opal_argv_append_nosize (Some xs) ys = Some (xs @ ys)"
  by (induction ys arbitrary: xs) auto

lemma argv_copy [simp]: "opal_argv_copy a = a"
  by (auto simp: opal_argv_copy_def append_all split: option.split)

lemma argv_len: "opal_argv_len (Some xs) = 8 + sum_list (map (\<lambda>s. length s + 9) xs)"
proof -
  have "foldl (\<lambda>n s. n + (length s + 1 + 8)) k xs = k + sum_list (map (\<lambda>s. length s + 9) xs)" for k
    by (induction xs arbitrary: k) auto
  then show ?thesis by (simp add: opal_argv_len_def)
qed

lemma move_front:
  "i + num + m \<le> length cs \<Longrightarrow> 0 < num \<Longrightarrow> 
   take (i + m) (move_front m i num cs) = take i cs @ take m (drop (i + num) cs) \<and> length (move_front m i num cs) = length cs"
proof (induction m arbitrary: i cs)
  case (Suc m)
  let ?cs = "cs[i := cs ! (i + num)]"
  have "take (Suc i + m) (move_front m (Suc i) num ?cs) = take (Suc i) ?cs @ take m (drop (Suc i + num) ?cs)"
    "length (move_front m (Suc i) num ?cs) = length cs"
    using Suc.IH[of "Suc i" ?cs] Suc.prems by simp_all
  moreover have "take (Suc i) ?cs = take i cs @ [cs ! (i + num)]"
    using Suc.prems by (simp add: take_Suc_conv_app_nth)
  moreover have "drop (Suc i + num) ?cs = drop (Suc (i + num)) cs" by simp
  moreover have "take (Suc m) (drop (i + num) cs) = cs ! (i + num) # take m (drop (Suc (i + num)) cs)"
    using Suc.prems by (simp add: Cons_nth_drop_Suc[symmetric])
  ultimately show ?case by simp
qed simp

lemma argv_of_prefix:
  assumes "take n cs = map Some xs" "n < length cs" "cs ! n = None"
  shows "argv_of cs = xs"
  using assms id_take_nth_drop[of n cs] by (metis argv_of_simps(5))

lemma take_cells: "n \<le> length xs \<Longrightarrow> take n (cells xs) = map Some (take n xs)"
  by (simp add: cells_def take_map)

lemma delete_cells:
  assumes "i \<le> length xs" "0 < num"
  shows "argv_of ((move_front (length xs - (i + num)) i num (cells xs))[i + (length xs - (i + num)) := None]) =
         take i xs @ drop (i + num) xs"
proof -
  define m where "m = length xs - (i + num)"
  define c where "c = move_front m i num (cells xs)"
  have len: "length (cells xs) = Suc (length xs)" by (simp add: cells_def)
  show ?thesis
  proof (cases "i + num \<le> length xs")
    case True
    then have "take (i + m) c = take i (cells xs) @ take m (drop (i + num) (cells xs))" "length c = Suc (length xs)"
      using move_front[of i num m "cells xs"] assms(2) len by (simp_all add: c_def m_def)
    moreover have "take i (cells xs) = map Some (take i xs)" using assms(1) by (rule take_cells)
    moreover have "take m (drop (i + num) (cells xs)) = map Some (drop (i + num) xs)"
      using True by (simp add: cells_def m_def drop_map)
    moreover have "i + m < Suc (length xs)" using True assms(2) by (simp add: m_def)
    ultimately have "argv_of (c[i + m := None]) = take i xs @ drop (i + num) xs"
      by (intro argv_of_prefix[where n = "i + m"]) simp_all
    then show ?thesis by (simp add: c_def m_def)
  next
    case False
    then have "m = 0" by (simp add: m_def)
    then have "argv_of ((cells xs)[i := None]) = take i xs"
      using assms(1) len by (intro argv_of_prefix[where n = i]) (simp_all add: take_cells)
    then show ?thesis using False by (simp add: m_def)
  qed
qed

lemma move_suffix:
  "start + k + i \<le> length cs \<Longrightarrow>
   length (move_suffix i start k cs) = length cs \<and>
   take start (move_suffix i start k cs) = take start cs \<and>
   take i (drop (start + k) (move_suffix i start k cs)) = take i (drop start cs) \<and>
   drop (start + k + i) (move_suffix i start k cs) = drop (start + k + i) cs"
proof (induction i arbitrary: cs)
  case (Suc i)
  let ?cs = "cs[start + k + i := cs ! (start + i)]" and ?r = "move_suffix (Suc i) start k cs"
  have ih: "length ?r = length cs" "take start ?r = take start ?cs"
    "take i (drop (start + k) ?r) = take i (drop start ?cs)" "drop (start + k + i) ?r = drop (start + k + i) ?cs"
    using Suc.IH[of ?cs] Suc.prems by simp_all
  have lt: "start + k + i < length cs" using Suc.prems by simp
  have "drop (start + k) ?r ! i = ?cs ! (start + k + i)"
  proof -
    have "drop (start + k) ?r ! i = drop (start + k + i) ?r ! 0" using lt ih(1) by simp
    then show ?thesis using ih(4) lt by simp
  qed
  then have "take (Suc i) (drop (start + k) ?r) = take i (drop start ?cs) @ [cs ! (start + i)]"
    using lt ih(1,3) by (simp add: take_Suc_conv_app_nth)
  moreover have "take i (drop start ?cs) = take i (drop start cs)"
    by (rule nth_equalityI) (use lt in \<open>auto simp: nth_list_update\<close>)
  moreover have "take (Suc i) (drop start cs) = take i (drop start cs) @ [cs ! (start + i)]"
    using lt by (simp add: take_Suc_conv_app_nth)
  moreover have "drop (start + k + Suc i) ?r = drop (start + k + Suc i) cs"
  proof -
    have "drop (start + k + Suc i) ?r = drop 1 (drop (start + k + i) ?r)" by simp
    also have "\<dots> = drop 1 (drop (start + k + i) ?cs)" by (simp only: ih(4))
    finally show ?thesis by simp
  qed
  moreover have "take start ?cs = take start cs" by simp
  ultimately show ?case using ih(1,2) by simp
qed simp

lemma store_from:
  "i + length xs \<le> length cs \<Longrightarrow> store_from i xs cs = take i cs @ xs @ drop (i + length xs) cs"
proof (induction xs arbitrary: i cs)
  case (Cons x xs)
  then have "store_from i (x # xs) cs = take (Suc i) (cs[i := x]) @ xs @ drop (Suc (i + length xs)) (cs[i := x])"
    by simp
  then show ?case using Cons.prems by (simp add: take_Suc_conv_app_nth)
qed simp

lemma insert_cells:
  assumes "start \<le> length xs"
  shows "insert_cells xs start ys = take start xs @ ys @ drop start xs"
proof -
  let ?k = "length ys" and ?m = "length xs - start"
  define c where "c = cells xs @ replicate ?k (None :: string option)"
  define d where "d = move_suffix ?m start ?k c"
  have len: "length c = Suc (length xs + ?k)" by (simp add: c_def cells_def)
  have d: "length d = length c" "take start d = take start c" "take ?m (drop (start + ?k) d) = take ?m (drop start c)"
    using move_suffix[of start ?k ?m c] assms len by (simp_all add: d_def)
  define e where "e = d[start + ?m + ?k := None]"
  have s: "store_from start (map Some ys) e = take start e @ map Some ys @ drop (start + ?k) e"
    using d(1) len assms by (subst store_from) (simp_all add: e_def)
  have "take start e = map Some (take start xs)"
    using d(2) assms by (simp add: e_def c_def cells_def take_map)
  moreover have "drop (start + ?k) e = map Some (drop start xs) @ [None]"
  proof -
    have "length (drop (start + ?k) e) = Suc ?m" using d(1) len assms by (simp add: e_def)
    moreover have "take ?m (drop (start + ?k) e) = take ?m (drop (start + ?k) d)"
      by (rule nth_equalityI) (auto simp: e_def nth_list_update)
    moreover have "take ?m (drop start c) = map Some (drop start xs)"
      using assms by (simp add: c_def cells_def drop_map)
    moreover have "drop (start + ?k) e ! ?m = None"
      using d(1) len assms by (simp add: e_def add.assoc add.commute)
    ultimately show ?thesis using d(3) take_Suc_conv_app_nth[of ?m "drop (start + ?k) e"] by simp
  qed
  ultimately have "argv_of (store_from start (map Some ys) e) = take start xs @ ys @ drop start xs"
    using s argv_of_simps(5)[of "take start xs @ ys @ drop start xs" "[]"] by simp
  then show ?thesis by (simp add: insert_cells_def Let_def c_def d_def e_def)
qed

section \<open>What joining and splitting give\<close>

fun separated :: "char \<Rightarrow> string list \<Rightarrow> string" where
  "separated d [] = []"
| "separated d [x] = x"
| "separated d (x # xs) = x @ d # separated d xs"

lemma length_separated:
  "xs \<noteq> [] \<Longrightarrow> sum_list (map (\<lambda>s. length s + 1) xs) = Suc (length (separated d xs))"
  by (induction d xs rule: separated.induct) auto

lemma join_fill:
  "join_fill (length (separated d (x # xs))) x (xs @ rest) d = Some (separated d (x # xs))"
proof (induction xs arbitrary: x)
  case Nil
  show ?case by (induction x) auto
next
  case (Cons y ys)
  show ?case using Cons.IH[of y] by (induction x) auto
qed

lemma join_strings:
  assumes "xs \<noteq> []"
  shows "join_strings xs (xs @ rest) d = Inr (separated d xs)"
proof -
  obtain y ys where xs: "xs = y # ys" using assms by (cases xs) auto
  have "sum_list (map (\<lambda>s. length s + 1) xs) = Suc (length (separated d xs))"
    using assms by (rule length_separated)
  then show ?thesis using join_fill[of d y ys rest] by (simp add: join_strings_def xs Let_def)
qed

lemma argv_join: "opal_argv_join (Some xs) d = Inr (separated d xs)"
  using join_strings[of xs "[]" d] by (cases xs) (simp_all add: opal_argv_join_def)

lemma split_loop_arg:
  assumes "x \<noteq> []" "d \<notin> set x"
  shows "split_loop x d e argv = opal_argv_append_nosize argv x"
    and "split_loop (x @ d # src) d e argv = split_loop src d e (opal_argv_append_nosize argv x)"
proof -
  have *: "takeWhile (\<lambda>c. c \<noteq> d) x = x" "dropWhile (\<lambda>c. c \<noteq> d) x = []"
    "takeWhile (\<lambda>c. c \<noteq> d) (x @ d # src) = x" "dropWhile (\<lambda>c. c \<noteq> d) (x @ d # src) = d # src"
    using assms(2) by (auto simp: takeWhile_eq_all_conv dropWhile_eq_Nil_conv takeWhile_append dropWhile_append)
  show "split_loop x d e argv = opal_argv_append_nosize argv x"
    using assms(1) by (simp add: * split_loop.simps[of x] split_loop.simps[of "[]"] Let_def)
  show "split_loop (x @ d # src) d e argv = split_loop src d e (opal_argv_append_nosize argv x)"
    using assms(1) by (simp add: * split_loop.simps[of "x @ d # src"] Let_def)
qed

lemma split_loop_separated:
  "\<forall>x \<in> set xs. x \<noteq> [] \<and> d \<notin> set x \<Longrightarrow>
   split_loop (separated d xs) d e argv = foldl opal_argv_append_nosize argv xs"
  by (induction d xs arbitrary: argv rule: separated.induct)
    (simp_all add: split_loop_arg split_loop.simps[of "[]"])

lemma append_all_None: "xs \<noteq> [] \<Longrightarrow> foldl opal_argv_append_nosize None xs = Some xs"
  by (cases xs) (simp_all add: append_all append_nosize)

section \<open>Properties\<close>



text \<open>
  C36: Inserting a list at an index puts it there and keeps the rest in order, and deleting as
  many elements from the same index undoes it.  The loops that move pointers within the
  array do so for any lengths and overlaps.
\<close>

theorem argv_delete_insert:
  assumes "start \<le> length xs" "ys \<noteq> []" "int (start + length ys) \<le> INT_MAX"
  shows "opal_argv_insert (Some xs) (int start) (Some ys) = Inr (Some (take start xs @ ys @ drop start xs)) \<and>
         opal_argv_delete argc (Some (take start xs @ ys @ drop start xs)) (int start) (int (length ys)) =
           Inr (argc - int (length ys), Some xs)"
proof -
  let ?zs = "take start xs @ ys @ drop start xs"
  have "argv_of ((move_front (length ?zs - (start + length ys)) start (length ys) (cells ?zs))
          [start + (length ?zs - (start + length ys)) := None]) = take start ?zs @ drop (start + length ys) ?zs"
    using assms by (intro delete_cells) auto
  then have "opal_argv_delete argc (Some ?zs) (int start) (int (length ys)) = Inr (argc - int (length ys), Some xs)"
    using assms by (simp add: opal_argv_delete_def argv_count Let_def)
  then show ?thesis using assms insert_cells[of start xs ys] by (simp add: opal_argv_insert_def argv_count)
qed

theorem argv_delete_insert_witness:
  "opal_argv_insert (Some [''a'', ''b'', ''c'']) (int 1) (Some [''x'', ''y'']) =
     Inr (Some (take 1 [''a'', ''b'', ''c''] @ [''x'', ''y''] @ drop 1 [''a'', ''b'', ''c''])) \<and>
   opal_argv_delete 5 (Some (take 1 [''a'', ''b'', ''c''] @ [''x'', ''y''] @ drop 1 [''a'', ''b'', ''c'']))
     (int 1) (int (length [''x'', ''y''])) = Inr (5 - int (length [''x'', ''y'']), Some [''a'', ''b'', ''c''])"
  by (rule argv_delete_insert) (simp_all add: INT_MAX_def)

text \<open>
  C37: Deleting past the end removes every element from the start index on, but the argument
  count is reduced by the requested number, not by the number of elements that went: the count
  no longer describes the array.
\<close>

theorem argv_delete_past_end:
  assumes "start \<le> length xs" "length xs < start + num" "int (start + num) \<le> INT_MAX"
  shows "\<exists>argc zs. opal_argv_delete (int (length xs)) (Some xs) (int start) (int num) = Inr (argc, Some zs) \<and>
           zs = take start xs \<and> argc < int (opal_argv_count (Some zs))"
proof -
  have "argv_of ((move_front (length xs - (start + num)) start num (cells xs))
          [start + (length xs - (start + num)) := None]) = take start xs @ drop (start + num) xs"
    using assms by (intro delete_cells) auto
  then show ?thesis using assms by (simp add: opal_argv_delete_def argv_count Let_def)
qed

theorem argv_delete_past_end_witness:
  "\<exists>argc zs. opal_argv_delete (int (length [''a'', ''b''])) (Some [''a'', ''b'']) (int 1) (int 3) =
     Inr (argc, Some zs) \<and> zs = take 1 [''a'', ''b''] \<and> argc < int (opal_argv_count (Some zs))"
  by (rule argv_delete_past_end) (simp_all add: INT_MAX_def)

lemma join_range_cases:
  "xs \<noteq> [] \<Longrightarrow> opal_argv_join_range (Some xs) start stop d =
     (if c_int32 (int start) > int (length xs) then Inr []
      else join_strings (take (stop - start) (drop start xs)) (drop start xs) d)"
  by (cases xs) (simp_all add: opal_argv_join_range_def)

text \<open>
  C38: Joining a range gives the delimited strings of the range when the range holds a string, and
  has undefined behaviour when a non-empty array is given an empty range within its bounds: the
  check refuses only start indices beyond the count.
\<close>

theorem argv_join_range:
  assumes "xs \<noteq> []" "start \<le> length xs" "int (length xs) \<le> INT_MAX"
  shows "opal_argv_join_range (Some xs) start stop d =
           (if take (stop - start) (drop start xs) = [] then Inl C_UNDEFINED
            else Inr (separated d (take (stop - start) (drop start xs))))"
proof -
  define r where "r = take (stop - start) (drop start xs)"
  have "c_int32 (int start) = int start" using assms by (simp add: INT_MAX_def)
  moreover have "drop start xs = r @ drop (stop - start) (drop start xs)"
    by (simp only: r_def append_take_drop_id)
  then have "r \<noteq> [] \<Longrightarrow> join_strings r (drop start xs) d = Inr (separated d r)"
    by (metis join_strings)
  moreover have "join_strings [] (drop start xs) d = Inl C_UNDEFINED" by (simp add: join_strings_def)
  ultimately show ?thesis
    using assms by (simp add: join_range_cases r_def[symmetric])
qed

theorem argv_join_range_witness:
  "opal_argv_join_range (Some [''a'', ''b'', ''c'']) 1 3 (CHR '','') =
     (if take (3 - 1) (drop 1 [''a'', ''b'', ''c'']) = [] then Inl C_UNDEFINED
      else Inr (separated (CHR '','') (take (3 - 1) (drop 1 [''a'', ''b'', ''c'']))))"
  by (rule argv_join_range) (simp_all add: INT_MAX_def)

end
