(* ===== verification/Name_Fns.thy ===== *)
theory Name_Fns
  imports Dss_Types
begin

text \<open>
  Comparison of process names: \<^verbatim>\<open>orte_util_compare_name_fields\<close> of
  \<^verbatim>\<open>orte/util/name_fns.c\<close>.  The scheduler finds the node of a daemon with it.
\<close>

unbundle bit_operations_syntax

datatype opal_cmp = OPAL_VALUE2_GREATER | OPAL_EQUAL | OPAL_VALUE1_GREATER

definition ORTE_JOBID_WILDCARD :: u32 where
  "ORTE_JOBID_WILDCARD = 0xFFFFFFFE"

definition ORTE_VPID_WILDCARD :: u32 where
  "ORTE_VPID_WILDCARD = 0xFFFFFFFE"

definition ORTE_NS_CMP_JOBID :: u8 where
  "ORTE_NS_CMP_JOBID = 0x02"

definition ORTE_NS_CMP_VPID :: u8 where
  "ORTE_NS_CMP_VPID = 0x04"

definition ORTE_NS_CMP_ALL :: u8 where
  "ORTE_NS_CMP_ALL = 0x0f"

definition ORTE_NS_CMP_WILD :: u8 where
  "ORTE_NS_CMP_WILD = 0x10"

text \<open>A field that is compared, unless wildcards are honoured and one of the two is one.\<close>

definition cmp_field :: "bool \<Rightarrow> bool \<Rightarrow> u32 \<Rightarrow> u32 \<Rightarrow> u32 \<Rightarrow> opal_cmp" where
  "cmp_field checked wild any v1 v2 =
     (if \<not> checked \<or> (wild \<and> (v1 = any \<or> v2 = any)) then OPAL_EQUAL
      else if v1 < v2 then OPAL_VALUE2_GREATER
      else if v1 > v2 then OPAL_VALUE1_GREATER
      else OPAL_EQUAL)"

definition orte_util_compare_name_fields ::
  "u8 \<Rightarrow> opal_process_name option \<Rightarrow> opal_process_name option \<Rightarrow> opal_cmp" where
  "orte_util_compare_name_fields flds name1 name2 =
     (case (name1, name2) of
        (None, None) \<Rightarrow> OPAL_EQUAL
      | (None, Some _) \<Rightarrow> OPAL_VALUE2_GREATER
      | (Some _, None) \<Rightarrow> OPAL_VALUE1_GREATER
      | (Some n1, Some n2) \<Rightarrow>
          (let wild = (ORTE_NS_CMP_WILD AND flds \<noteq> 0)
          in case cmp_field (ORTE_NS_CMP_JOBID AND flds \<noteq> 0) wild ORTE_JOBID_WILDCARD (jobid n1) (jobid n2) of
               OPAL_EQUAL \<Rightarrow> cmp_field (ORTE_NS_CMP_VPID AND flds \<noteq> 0) wild ORTE_VPID_WILDCARD (vpid n1) (vpid n2)
             | OPAL_VALUE1_GREATER \<Rightarrow> OPAL_VALUE1_GREATER
             | OPAL_VALUE2_GREATER \<Rightarrow> OPAL_VALUE2_GREATER))"

lemma cmp_all_bits [simp]:
  "ORTE_NS_CMP_WILD AND ORTE_NS_CMP_ALL = 0" "ORTE_NS_CMP_JOBID AND ORTE_NS_CMP_ALL \<noteq> 0"
  "ORTE_NS_CMP_VPID AND ORTE_NS_CMP_ALL \<noteq> 0"
  by (simp_all add: ORTE_NS_CMP_WILD_def ORTE_NS_CMP_ALL_def ORTE_NS_CMP_JOBID_def ORTE_NS_CMP_VPID_def)

text \<open>With all fields compared, only a name itself equals it: wildcards are ordinary values.\<close>

lemma compare_name_all:
  "orte_util_compare_name_fields ORTE_NS_CMP_ALL (Some n1) (Some n2) = OPAL_EQUAL \<longleftrightarrow> n1 = n2"
  by (cases n1; cases n2)
    (auto simp: orte_util_compare_name_fields_def cmp_field_def Let_def split: opal_cmp.splits if_splits)

end
