(* ===== verification/Cfgi_Dt.thy ===== *)
theory Cfgi_Dt
  imports Scd_Dt Argv Name_Fns
begin

text \<open>
  The configured cluster over the wire: \<^verbatim>\<open>orcm/mca/cfgi/base/cfgi_dt_fns.c\<close>, with the
  constructors of \<^verbatim>\<open>cfgi_base_frame.c\<close>.  Racks hold nodes, rows hold racks and a
  cluster holds rows; each type travels by means of the one below it.
\<close>

section \<open>Constructors\<close>

definition orcm_config_con :: orcm_config where
  "orcm_config_con = \<lparr>cfg_mca_params = None, cfg_env = None, cfg_port = None, cfg_aggregator = 0\<rparr>"

text \<open>\<^verbatim>\<open>ORTE_NAME_INVALID\<close> has the largest job and process ids.\<close>

definition orcm_node_con :: orcm_node where
  "orcm_node_con = \<lparr>hostname = None, daemon = \<lparr>jobid = - 1, vpid = - 1\<rparr>, nd_config = orcm_config_con,
                    nd_state = 0, scd_state = 0, npes = 0, topology = TopoNull\<rparr>"

definition orcm_rack_con :: orcm_rack where
  "orcm_rack_con = \<lparr>rack_name = None, rack_controller = orcm_node_con, rack_nodes = []\<rparr>"

definition orcm_row_con :: orcm_row where
  "orcm_row_con = \<lparr>row_name = None, row_controller = orcm_node_con, row_racks = []\<rparr>"

definition orcm_cluster_con :: orcm_cluster where
  "orcm_cluster_con = \<lparr>cluster_name = None, cluster_controller = orcm_node_con, cluster_rows = []\<rparr>"

definition orcm_scheduler_con :: orcm_scheduler where
  "orcm_scheduler_con = \<lparr>sched_controller = orcm_node_con, sched_queues = None\<rparr>"

section \<open>Packing\<close>

text \<open>An argument vector: its count, then its strings.\<close>

definition pack_argv :: "dss_table \<Rightarrow> argv \<Rightarrow> unit dss" where
  "pack_argv tbl argv =
     (let k = c_int32 (int (opal_argv_count argv))
      in dss_bind (opal_dss_pack_buffer tbl (D32 [word_of_int k]) 1 OPAL_INT32) (\<lambda>_.
         if 0 < k
         then dss_seq (map (\<lambda>s. opal_dss_pack_buffer tbl (DString [Some s]) 1 OPAL_STRING)
                         (case argv of None \<Rightarrow> [] | Some xs \<Rightarrow> xs))
         else dss_return ()))"

definition pack_config :: "dss_table \<Rightarrow> orcm_config \<Rightarrow> unit dss" where
  "pack_config tbl config =
     dss_bind (pack_argv tbl (cfg_mca_params config)) (\<lambda>_.
     dss_bind (pack_argv tbl (cfg_env config)) (\<lambda>_.
     dss_bind (opal_dss_pack_buffer tbl (DString [cfg_port config]) 1 OPAL_STRING) (\<lambda>_.
       opal_dss_pack_buffer tbl (D8 [cfg_aggregator config]) 1 OPAL_BOOL)))"

definition pack_one_node :: "dss_table \<Rightarrow> orcm_node \<Rightarrow> unit dss" where
  "pack_one_node tbl node =
     dss_bind (opal_dss_pack_buffer tbl (DString [hostname node]) 1 OPAL_STRING) (\<lambda>_.
     dss_bind (opal_dss_pack_buffer tbl (DName [daemon node]) 1 OPAL_NAME) (\<lambda>_.
     dss_bind (pack_config tbl (nd_config node)) (\<lambda>_.
     dss_bind (opal_dss_pack_buffer tbl (D8 [nd_state node]) 1 OPAL_INT8) (\<lambda>_.
       opal_dss_pack_buffer tbl (D8 [scd_state node]) 1 OPAL_INT8))))"

definition orcm_pack_node :: "dss_table \<Rightarrow> dss_data \<Rightarrow> int \<Rightarrow> unit dss" where
  "orcm_pack_node tbl src num_vals =
     (case src of DNode xs \<Rightarrow> pack_each (pack_one_node tbl) xs num_vals | _ \<Rightarrow> dss_fail C_UNDEFINED)"

text \<open>
  What a rack, a row and a cluster have in common: a name, a controller, the number of the
  objects below and these objects.
\<close>

definition pack_level :: "dss_table \<Rightarrow> opal_data_type \<Rightarrow> ('a list \<Rightarrow> dss_data) \<Rightarrow>
    string option \<Rightarrow> orcm_node \<Rightarrow> 'a list \<Rightarrow> unit dss" where
  "pack_level tbl type wrap name controller xs =
     dss_bind (opal_dss_pack_buffer tbl (DString [name]) 1 OPAL_STRING) (\<lambda>_.
     dss_bind (opal_dss_pack_buffer tbl (DNode [controller]) 1 ORCM_NODE) (\<lambda>_.
     dss_bind (opal_dss_pack_buffer tbl (D32 [word_of_int (c_int32 (int (length xs)))]) 1 OPAL_INT32) (\<lambda>_.
       dss_seq (map (\<lambda>x. opal_dss_pack_buffer tbl (wrap [x]) 1 type) xs))))"

definition orcm_pack_rack :: "dss_table \<Rightarrow> dss_data \<Rightarrow> int \<Rightarrow> unit dss" where
  "orcm_pack_rack tbl src num_vals =
     (case src of
        DRack xs \<Rightarrow>
          pack_each (\<lambda>rack. pack_level tbl ORCM_NODE DNode (rack_name rack) (rack_controller rack) (rack_nodes rack))
            xs num_vals
      | _ \<Rightarrow> dss_fail C_UNDEFINED)"

definition orcm_pack_row :: "dss_table \<Rightarrow> dss_data \<Rightarrow> int \<Rightarrow> unit dss" where
  "orcm_pack_row tbl src num_vals =
     (case src of
        DRow xs \<Rightarrow>
          pack_each (\<lambda>row. pack_level tbl ORCM_RACK DRack (row_name row) (row_controller row) (row_racks row))
            xs num_vals
      | _ \<Rightarrow> dss_fail C_UNDEFINED)"

definition orcm_pack_cluster :: "dss_table \<Rightarrow> dss_data \<Rightarrow> int \<Rightarrow> unit dss" where
  "orcm_pack_cluster tbl src num_vals =
     (case src of
        DCluster xs \<Rightarrow>
          pack_each (\<lambda>cl. pack_level tbl ORCM_ROW DRow (cluster_name cl) (cluster_controller cl) (cluster_rows cl))
            xs num_vals
      | _ \<Rightarrow> dss_fail C_UNDEFINED)"

definition pack_one_scheduler :: "dss_table \<Rightarrow> orcm_scheduler \<Rightarrow> unit dss" where
  "pack_one_scheduler tbl sched =
     dss_bind (opal_dss_pack_buffer tbl (DNode [sched_controller sched]) 1 ORCM_NODE) (\<lambda>_.
       pack_argv tbl (sched_queues sched))"

definition orcm_pack_scheduler :: "dss_table \<Rightarrow> dss_data \<Rightarrow> int \<Rightarrow> unit dss" where
  "orcm_pack_scheduler tbl src num_vals =
     (case src of DScheduler xs \<Rightarrow> pack_each (pack_one_scheduler tbl) xs num_vals | _ \<Rightarrow> dss_fail C_UNDEFINED)"

section \<open>Unpacking\<close>

definition unpack_as :: "dss_table \<Rightarrow> opal_data_type \<Rightarrow> (dss_data \<Rightarrow> 'a dss) \<Rightarrow> 'a dss" where
  "unpack_as tbl type get = dss_bind (opal_dss_unpack_buffer tbl 1 type) get"

text \<open>A null string among the arguments is handed to \<^verbatim>\<open>strdup\<close>.\<close>

definition unpack_arg :: "dss_table \<Rightarrow> string dss" where
  "unpack_arg tbl =
     dss_bind (unpack_as tbl OPAL_STRING getstr) (\<lambda>s.
       case s of None \<Rightarrow> dss_fail C_UNDEFINED | Some tmp \<Rightarrow> dss_return tmp)"

definition unpack_argv :: "dss_table \<Rightarrow> argv \<Rightarrow> argv dss" where
  "unpack_argv tbl argv =
     dss_bind (unpack_as tbl OPAL_INT32 get32) (\<lambda>k.
     dss_bind (dss_repeat (nat (sint k)) (unpack_arg tbl)) (\<lambda>xs.
       dss_return (fold (\<lambda>x a. opal_argv_append_nosize a x) xs argv)))"

definition unpack_config :: "dss_table \<Rightarrow> orcm_config \<Rightarrow> orcm_config dss" where
  "unpack_config tbl config =
     dss_bind (unpack_argv tbl (cfg_mca_params config)) (\<lambda>params.
     dss_bind (unpack_argv tbl (cfg_env config)) (\<lambda>env.
     dss_bind (unpack_as tbl OPAL_STRING getstr) (\<lambda>port.
     dss_bind (unpack_as tbl OPAL_BOOL get8) (\<lambda>aggregator.
       dss_return \<lparr>cfg_mca_params = params, cfg_env = env, cfg_port = port, cfg_aggregator = aggregator\<rparr>))))"

definition unpack_one_node :: "dss_env \<Rightarrow> dss_table \<Rightarrow> orcm_node dss" where
  "unpack_one_node env tbl =
     (if \<not> new_grants env ''orcm_node_t'' then dss_fail OPAL_ERR_OUT_OF_RESOURCE
      else
        dss_bind (unpack_as tbl OPAL_STRING getstr) (\<lambda>name.
        dss_bind (unpack_as tbl OPAL_NAME getname) (\<lambda>dmn.
        dss_bind (unpack_config tbl (nd_config orcm_node_con)) (\<lambda>config.
        dss_bind (unpack_as tbl OPAL_INT8 get8) (\<lambda>state.
        dss_bind (unpack_as tbl OPAL_INT8 get8) (\<lambda>scd.
          dss_return (orcm_node_con\<lparr>hostname := name, daemon := dmn, nd_config := config,
                                    nd_state := state, scd_state := scd\<rparr>)))))))"

definition orcm_unpack_node :: "dss_env \<Rightarrow> dss_table \<Rightarrow> int \<Rightarrow> dss_data dss" where
  "orcm_unpack_node env tbl num_vals =
     dss_bind (dss_repeat (nat num_vals) (unpack_one_node env tbl)) (\<lambda>xs. dss_return (DNode xs))"

definition getnode :: "dss_data \<Rightarrow> orcm_node dss" where
  "getnode d = (case d of DNode (x # _) \<Rightarrow> dss_return x | _ \<Rightarrow> dss_fail C_UNDEFINED)"

definition getrack :: "dss_data \<Rightarrow> orcm_rack dss" where
  "getrack d = (case d of DRack (x # _) \<Rightarrow> dss_return x | _ \<Rightarrow> dss_fail C_UNDEFINED)"

definition getrow :: "dss_data \<Rightarrow> orcm_row dss" where
  "getrow d = (case d of DRow (x # _) \<Rightarrow> dss_return x | _ \<Rightarrow> dss_fail C_UNDEFINED)"

definition unpack_level :: "dss_env \<Rightarrow> dss_table \<Rightarrow> string \<Rightarrow> opal_data_type \<Rightarrow> (dss_data \<Rightarrow> 'a dss) \<Rightarrow>
    (string option \<Rightarrow> orcm_node \<Rightarrow> 'a list \<Rightarrow> 'b) \<Rightarrow> 'b dss" where
  "unpack_level env tbl cls type get build =
     (if \<not> new_grants env cls then dss_fail OPAL_ERR_OUT_OF_RESOURCE
      else
        dss_bind (unpack_as tbl OPAL_STRING getstr) (\<lambda>name.
        dss_bind (unpack_as tbl ORCM_NODE getnode) (\<lambda>controller.
        dss_bind (unpack_as tbl OPAL_INT32 get32) (\<lambda>j.
        dss_bind (dss_repeat (nat (sint j)) (unpack_as tbl type get)) (\<lambda>xs.
          dss_return (build name controller xs))))))"

definition orcm_unpack_rack :: "dss_env \<Rightarrow> dss_table \<Rightarrow> int \<Rightarrow> dss_data dss" where
  "orcm_unpack_rack env tbl num_vals =
     dss_bind (dss_repeat (nat num_vals)
                 (unpack_level env tbl ''orcm_rack_t'' ORCM_NODE getnode (\<lambda>name controller xs.
                    orcm_rack_con\<lparr>rack_name := name, rack_controller := controller,
                                  rack_nodes := rack_nodes orcm_rack_con @ xs\<rparr>)))
       (\<lambda>xs. dss_return (DRack xs))"

definition orcm_unpack_row :: "dss_env \<Rightarrow> dss_table \<Rightarrow> int \<Rightarrow> dss_data dss" where
  "orcm_unpack_row env tbl num_vals =
     dss_bind (dss_repeat (nat num_vals)
                 (unpack_level env tbl ''orcm_row_t'' ORCM_RACK getrack (\<lambda>name controller xs.
                    orcm_row_con\<lparr>row_name := name, row_controller := controller,
                                 row_racks := row_racks orcm_row_con @ xs\<rparr>)))
       (\<lambda>xs. dss_return (DRow xs))"

definition orcm_unpack_cluster :: "dss_env \<Rightarrow> dss_table \<Rightarrow> int \<Rightarrow> dss_data dss" where
  "orcm_unpack_cluster env tbl num_vals =
     dss_bind (dss_repeat (nat num_vals)
                 (unpack_level env tbl ''orcm_cluster_t'' ORCM_ROW getrow (\<lambda>name controller xs.
                    orcm_cluster_con\<lparr>cluster_name := name, cluster_controller := controller,
                                     cluster_rows := cluster_rows orcm_cluster_con @ xs\<rparr>)))
       (\<lambda>xs. dss_return (DCluster xs))"

text \<open>All objects are made first, and then only the last of them is unpacked.\<close>

definition orcm_unpack_scheduler :: "dss_env \<Rightarrow> dss_table \<Rightarrow> int \<Rightarrow> dss_data dss" where
  "orcm_unpack_scheduler env tbl num_vals =
     (if num_vals \<le> 0 \<or> \<not> new_grants env ''orcm_scheduler_t'' then dss_fail OPAL_ERR_OUT_OF_RESOURCE
      else
        dss_bind (unpack_as tbl ORCM_NODE getnode) (\<lambda>controller.
        dss_bind (unpack_argv tbl (sched_queues orcm_scheduler_con)) (\<lambda>queues.
          dss_return (DScheduler
            (replicate (nat num_vals - 1) orcm_scheduler_con @
             [orcm_scheduler_con\<lparr>sched_controller := controller, sched_queues := queues\<rparr>])))))"

section \<open>Registration\<close>

text \<open>The table grows type by type; each pack function only uses types below its own.\<close>

definition node_dss_types :: "dss_env \<Rightarrow> dss_table" where
  "node_dss_types env t =
     (if t = ORCM_NODE
      then Some \<lparr>odti_pack_fn = orcm_pack_node (alloc_dss_types env),
                 odti_unpack_fn = orcm_unpack_node env (alloc_dss_types env)\<rparr>
      else alloc_dss_types env t)"

definition rack_dss_types :: "dss_env \<Rightarrow> dss_table" where
  "rack_dss_types env t =
     (if t = ORCM_RACK
      then Some \<lparr>odti_pack_fn = orcm_pack_rack (node_dss_types env),
                 odti_unpack_fn = orcm_unpack_rack env (node_dss_types env)\<rparr>
      else node_dss_types env t)"

definition row_dss_types :: "dss_env \<Rightarrow> dss_table" where
  "row_dss_types env t =
     (if t = ORCM_ROW
      then Some \<lparr>odti_pack_fn = orcm_pack_row (rack_dss_types env),
                 odti_unpack_fn = orcm_unpack_row env (rack_dss_types env)\<rparr>
      else rack_dss_types env t)"

definition orcm_dss_types :: "dss_env \<Rightarrow> dss_table" where
  "orcm_dss_types env t =
     (if t = ORCM_CLUSTER
      then Some \<lparr>odti_pack_fn = orcm_pack_cluster (row_dss_types env),
                 odti_unpack_fn = orcm_unpack_cluster env (row_dss_types env)\<rparr>
      else if t = ORCM_SCHEDULER
      then Some \<lparr>odti_pack_fn = orcm_pack_scheduler (node_dss_types env),
                 odti_unpack_fn = orcm_unpack_scheduler env (node_dss_types env)\<rparr>
      else row_dss_types env t)"

section \<open>Comparing\<close>

text \<open>\<^verbatim>\<open>strcmp\<close> reads both strings up to their first null character.\<close>

definition c_str :: "string \<Rightarrow> string" where
  "c_str s = takeWhile (\<lambda>c. c \<noteq> CHR 0x00) s"

fun cmp_chars :: "string \<Rightarrow> string \<Rightarrow> opal_cmp" where
  "cmp_chars [] [] = OPAL_EQUAL"
| "cmp_chars [] (d # ds) = OPAL_VALUE2_GREATER"
| "cmp_chars (c # cs) [] = OPAL_VALUE1_GREATER"
| "cmp_chars (c # cs) (d # ds) =
     (if (of_char c :: nat) > of_char d then OPAL_VALUE1_GREATER
      else if (of_char c :: nat) < of_char d then OPAL_VALUE2_GREATER
      else cmp_chars cs ds)"

definition c_strcmp :: "string \<Rightarrow> string \<Rightarrow> opal_cmp" where
  "c_strcmp s1 s2 = cmp_chars (c_str s1) (c_str s2)"

definition cmp_int :: "int \<Rightarrow> int \<Rightarrow> opal_cmp" where
  "cmp_int v1 v2 = (if v1 > v2 then OPAL_VALUE1_GREATER else if v1 < v2 then OPAL_VALUE2_GREATER else OPAL_EQUAL)"

text \<open>A null pointer is below everything else.\<close>

definition cmp_null :: "('a \<Rightarrow> 'a \<Rightarrow> opal_err + opal_cmp) \<Rightarrow> 'a option \<Rightarrow> 'a option \<Rightarrow> opal_err + opal_cmp" where
  "cmp_null cmp v1 v2 =
     (case (v1, v2) of
        (None, None) \<Rightarrow> Inr OPAL_EQUAL
      | (Some _, None) \<Rightarrow> Inr OPAL_VALUE1_GREATER
      | (None, Some _) \<Rightarrow> Inr OPAL_VALUE2_GREATER
      | (Some x1, Some x2) \<Rightarrow> cmp x1 x2)"

definition cmp_then :: "opal_err + opal_cmp \<Rightarrow> opal_err + opal_cmp \<Rightarrow> opal_err + opal_cmp" where
  "cmp_then c1 c2 = err_bind c1 (\<lambda>c. if c \<noteq> OPAL_EQUAL then Inr c else c2)"

definition compare_name_strings :: "string option \<Rightarrow> string option \<Rightarrow> opal_err + opal_cmp" where
  "compare_name_strings = cmp_null (\<lambda>x1 x2. Inr (c_strcmp x1 x2))"

text \<open>The strings are joined with the null character between them.\<close>

definition compare_argv :: "argv \<Rightarrow> argv \<Rightarrow> opal_err + opal_cmp" where
  "compare_argv = cmp_null (\<lambda>xs1 xs2.
     cmp_then (Inr (cmp_int (int (opal_argv_count (Some xs1))) (int (opal_argv_count (Some xs2)))))
       (err_bind (opal_argv_join (Some xs1) (CHR 0x00)) (\<lambda>string_comp1.
        err_bind (opal_argv_join (Some xs2) (CHR 0x00)) (\<lambda>string_comp2.
          Inr (c_strcmp string_comp1 string_comp2)))))"

definition orcm_compare_node :: "orcm_node \<Rightarrow> orcm_node \<Rightarrow> opal_err + opal_cmp" where
  "orcm_compare_node v1 v2 =
     cmp_then (compare_name_strings (hostname v1) (hostname v2))
     (cmp_then (Inr (cmp_int (uint (jobid (daemon v1))) (uint (jobid (daemon v2)))))
     (cmp_then (Inr (cmp_int (uint (vpid (daemon v1))) (uint (vpid (daemon v2)))))
     (cmp_then (compare_argv (cfg_mca_params (nd_config v1)) (cfg_mca_params (nd_config v2)))
     (cmp_then (compare_argv (cfg_env (nd_config v1)) (cfg_env (nd_config v2)))
     (cmp_then (compare_name_strings (cfg_port (nd_config v1)) (cfg_port (nd_config v2)))
     (cmp_then (Inr (cmp_int (uint (cfg_aggregator (nd_config v1))) (uint (cfg_aggregator (nd_config v2)))))
     (cmp_then (Inr (cmp_int (sint (nd_state v1)) (sint (nd_state v2))))
       (Inr (cmp_int (sint (scd_state v1)) (sint (scd_state v2)))))))))))"

text \<open>Racks, rows and clusters are told apart by their names and controllers alone.\<close>

definition orcm_compare_rack :: "orcm_rack \<Rightarrow> orcm_rack \<Rightarrow> opal_err + opal_cmp" where
  "orcm_compare_rack v1 v2 =
     cmp_then (compare_name_strings (rack_name v1) (rack_name v2))
       (orcm_compare_node (rack_controller v1) (rack_controller v2))"

definition orcm_compare_row :: "orcm_row \<Rightarrow> orcm_row \<Rightarrow> opal_err + opal_cmp" where
  "orcm_compare_row v1 v2 =
     cmp_then (compare_name_strings (row_name v1) (row_name v2))
       (orcm_compare_node (row_controller v1) (row_controller v2))"

definition orcm_compare_cluster :: "orcm_cluster \<Rightarrow> orcm_cluster \<Rightarrow> opal_err + opal_cmp" where
  "orcm_compare_cluster v1 v2 =
     cmp_then (compare_name_strings (cluster_name v1) (cluster_name v2))
       (orcm_compare_node (cluster_controller v1) (cluster_controller v2))"

definition orcm_compare_scheduler :: "orcm_scheduler \<Rightarrow> orcm_scheduler \<Rightarrow> opal_err + opal_cmp" where
  "orcm_compare_scheduler v1 v2 =
     cmp_then (orcm_compare_node (sched_controller v1) (sched_controller v2))
       (compare_argv (sched_queues v1) (sched_queues v2))"

section \<open>Types that carry objects\<close>

text \<open>
  A type of the table that carries single objects: \<open>sent\<close> is what arrives.  What holds such
  objects below it, in any number, is carried as well.
\<close>

locale wire_type =
  fixes env :: dss_env and tbl :: dss_table and type :: opal_data_type
    and wrap :: "'a list \<Rightarrow> dss_data" and get :: "dss_data \<Rightarrow> 'a dss"
    and ok :: "'a \<Rightarrow> bool" and sent :: "'a \<Rightarrow> 'a"
  assumes get_wrap: "get (wrap [x]) = dss_return x"
    and one: "ok x \<Longrightarrow> transfers env True t (opal_dss_pack_buffer tbl (wrap [x]) 1 type)
                 (opal_dss_unpack_buffer tbl 1 type) (wrap [sent x])"
begin

lemma field: "ok x \<Longrightarrow> transfers env True t (opal_dss_pack_buffer tbl (wrap [x]) 1 type) (unpack_as tbl type get) (sent x)"
  unfolding unpack_as_def by (rule transfers_map[OF one]) (simp_all add: get_wrap)

lemma fields:
  "list_all ok xs \<Longrightarrow>
   transfers env True t (dss_seq (map (\<lambda>x. opal_dss_pack_buffer tbl (wrap [x]) 1 type) xs))
     (dss_repeat (length xs) (unpack_as tbl type get)) (map sent xs)"
  by (rule transfers_seq) (simp add: list_all_iff field)

end

text \<open>Tables with the intrinsic types in their place.\<close>

locale scalar_table =
  fixes env :: dss_env and tbl :: dss_table
  assumes table_ok: "tbl_ok env tbl"
    and intrinsic: "ty < ORTE_ATTRIBUTE \<Longrightarrow> tbl ty = opal_dss_types env ty"
begin

lemma scalar:
  assumes "dss_ok env ty d" "dss_length d = 1" "ty < ORTE_ATTRIBUTE"
  shows "transfers env True t (opal_dss_pack_buffer tbl d 1 ty) (opal_dss_unpack_buffer tbl 1 ty) d"
proof -
  have "opal_dss_pack_buffer tbl d 1 ty = opal_dss_pack_buffer (opal_dss_types env) d 1 ty"
    "opal_dss_unpack_buffer tbl 1 ty = opal_dss_unpack_buffer (opal_dss_types env) 1 ty"
    using assms(3) by (simp_all add: opal_dss_pack_buffer_def opal_dss_unpack_buffer_def opal_dss_store_data_type_def
        opal_dss_get_data_type_def intrinsic)
  then show ?thesis using types_carry_one[OF assms(1,2)] by simp
qed

end

sublocale scalar_table \<subseteq> str: wire_type env tbl OPAL_STRING DString getstr wf_string "\<lambda>x. x"
  by unfold_locales (auto intro!: scalar simp: dss_ok_def getstr_def)

sublocale scalar_table \<subseteq> int32: wire_type env tbl OPAL_INT32 D32 get32 "\<lambda>_. True" "\<lambda>x. x"
  by unfold_locales (auto intro!: scalar simp: dss_ok_def get32_def)

sublocale scalar_table \<subseteq> int8: wire_type env tbl OPAL_INT8 D8 get8 "\<lambda>_. True" "\<lambda>x. x"
  by unfold_locales (auto intro!: scalar simp: dss_ok_def get8_def)

sublocale scalar_table \<subseteq> bool: wire_type env tbl OPAL_BOOL D8 get8 "\<lambda>_. True" "\<lambda>x. x"
  by unfold_locales (auto intro!: scalar simp: dss_ok_def get8_def)

sublocale scalar_table \<subseteq> name: wire_type env tbl OPAL_NAME DName getname "\<lambda>_. True" "\<lambda>x. x"
  by unfold_locales (auto intro!: scalar simp: dss_ok_def getname_def)

text \<open>What can be sent, and what arrives: an empty argument vector arrives as a null pointer.\<close>

definition argv_ok :: "argv \<Rightarrow> bool" where
  "argv_ok a = (case a of None \<Rightarrow> True | Some xs \<Rightarrow> length xs < 2 ^ 31 \<and> list_all (\<lambda>x. wf_string (Some x)) xs)"

definition sent_argv :: "argv \<Rightarrow> argv" where
  "sent_argv a = (if a = Some [] then None else a)"

definition config_ok :: "orcm_config \<Rightarrow> bool" where
  "config_ok c \<longleftrightarrow> argv_ok (cfg_mca_params c) \<and> argv_ok (cfg_env c) \<and> wf_string (cfg_port c)"

definition sent_config :: "orcm_config \<Rightarrow> orcm_config" where
  "sent_config c = c\<lparr>cfg_mca_params := sent_argv (cfg_mca_params c), cfg_env := sent_argv (cfg_env c)\<rparr>"

definition node_ok :: "orcm_node \<Rightarrow> bool" where
  "node_ok n \<longleftrightarrow> wf_string (hostname n) \<and> config_ok (nd_config n)"

definition sent_node :: "orcm_node \<Rightarrow> orcm_node" where
  "sent_node n = n\<lparr>nd_config := sent_config (nd_config n), npes := 0, topology := TopoNull\<rparr>"

context scalar_table
begin

lemma arg_carried:
  "wf_string (Some x) \<Longrightarrow>
   transfers env True t (opal_dss_pack_buffer tbl (DString [Some x]) 1 OPAL_STRING) (unpack_arg tbl) x"
  unfolding unpack_arg_def by (rule transfers_map[OF str.field]) simp_all

lemma argv_carried:
  assumes "argv_ok a"
  shows "transfers env True t (pack_argv tbl a) (unpack_argv tbl None) (sent_argv a)"
proof -
  define xs where "xs = (case a of None \<Rightarrow> [] | Some xs \<Rightarrow> xs)"
  have n: "length xs < 2 ^ 31" "\<forall>x \<in> set xs. wf_string (Some x)" "opal_argv_count a = length xs"
    using assms by (auto simp: argv_ok_def xs_def list_all_iff split: option.splits)
  let ?w = "word_of_int (int (length xs)) :: u32"
  have "transfers env True t (dss_seq (map (\<lambda>s. opal_dss_pack_buffer tbl (DString [Some s]) 1 OPAL_STRING) xs))
      (dss_repeat (length xs) (unpack_arg tbl)) (map (\<lambda>x. x) xs)"
    by (rule transfers_seq) (simp add: arg_carried n)
  moreover have "fold (\<lambda>x a. opal_argv_append_nosize a x) xs None = sent_argv a"
    using append_all_None[of xs] by (cases a) (auto simp: sent_argv_def xs_def foldl_conv_fold)
  ultimately have "transfers env True t
      (if 0 < int (length xs) then dss_seq (map (\<lambda>s. opal_dss_pack_buffer tbl (DString [Some s]) 1 OPAL_STRING) xs)
       else dss_return ())
      (dss_bind (dss_repeat (nat (sint ?w)) (unpack_arg tbl)) (\<lambda>xs.
         dss_return (fold (\<lambda>x a. opal_argv_append_nosize a x) xs None)))
      (sent_argv a)"
    unfolding u32_of_length(2)[OF n(1)] nat_int by (intro transfers_map[where x = xs]) auto
  moreover have "c_int32 (int (length xs)) = int (length xs)" using n(1) by simp
  ultimately show ?thesis unfolding pack_argv_def unpack_argv_def n(3) xs_def[symmetric] Let_def
    by (simp only:) (rule transfers_bind[OF int32.field]; simp only:)
qed

lemma config_carried:
  assumes "config_ok c"
  shows "transfers env True t (pack_config tbl c) (unpack_config tbl orcm_config_con) (sent_config c)"
proof -
  have "transfers env True t (pack_config tbl c) (unpack_config tbl orcm_config_con)
      \<lparr>cfg_mca_params = sent_argv (cfg_mca_params c), cfg_env = sent_argv (cfg_env c), cfg_port = cfg_port c,
       cfg_aggregator = cfg_aggregator c\<rparr>"
    using assms unfolding pack_config_def unpack_config_def config_ok_def orcm_config_con_def orcm_config.simps
    by (intro transfers_bind[OF argv_carried] transfers_bind[OF str.field] transfers_map[OF bool.field]) auto
  then show ?thesis by (cases c) (simp add: sent_config_def)
qed

lemma node_carried:
  assumes "node_ok n"
  shows "transfers env True t (pack_one_node tbl n) (unpack_one_node env tbl) (sent_node n)"
proof -
  have nd: "nd_config orcm_node_con = orcm_config_con" by (simp add: orcm_node_con_def)
  have "transfers env True t (pack_one_node tbl n) (unpack_one_node env tbl)
      (orcm_node_con\<lparr>hostname := hostname n, daemon := daemon n, nd_config := sent_config (nd_config n),
        nd_state := nd_state n, scd_state := scd_state n\<rparr>)"
    using assms unfolding pack_one_node_def unpack_one_node_def node_ok_def nd
    by (intro transfers_new transfers_bind[OF str.field] transfers_bind[OF name.field]
        transfers_bind[OF int8.field] transfers_map[OF int8.field] transfers_bind[OF config_carried]) auto
  then show ?thesis by (cases n) (simp add: sent_node_def orcm_node_con_def)
qed

end

text \<open>A table in which nodes travel, and the objects of one more type.\<close>

locale level_table = scalar_table +
  node: wire_type env tbl ORCM_NODE DNode getnode node_ok sent_node +
  below: wire_type env tbl type wrap get ok sent
  for type wrap get ok sent
begin

lemma level_carried:
  assumes "wf_string nm" "node_ok c" "list_all ok xs" "length xs < 2 ^ 31"
  shows "transfers env True t (pack_level tbl type wrap nm c xs)
           (unpack_level env tbl cls type get build) (build nm (sent_node c) (map sent xs))"
proof -
  let ?w = "word_of_int (int (length xs)) :: u32"
  have "transfers env True t (dss_seq (map (\<lambda>x. opal_dss_pack_buffer tbl (wrap [x]) 1 type) xs))
      (dss_bind (dss_repeat (nat (sint ?w)) (unpack_as tbl type get)) (\<lambda>xs. dss_return (build nm (sent_node c) xs)))
      (build nm (sent_node c) (map sent xs))"
    unfolding u32_of_length(2)[OF assms(4)] nat_int by (rule transfers_map[OF below.fields]) (simp_all add: assms)
  moreover have "c_int32 (int (length xs)) = int (length xs)" using assms(4) by simp
  ultimately show ?thesis using assms(1,2) unfolding pack_level_def unpack_level_def
    by (simp only:) (intro transfers_new transfers_bind[OF str.field] transfers_bind[OF node.field]
        transfers_bind[OF int32.field]; simp only:)
qed

end

definition rack_ok :: "orcm_rack \<Rightarrow> bool" where
  "rack_ok r \<longleftrightarrow> wf_string (rack_name r) \<and> node_ok (rack_controller r) \<and> list_all node_ok (rack_nodes r) \<and>
     length (rack_nodes r) < 2 ^ 31"

definition sent_rack :: "orcm_rack \<Rightarrow> orcm_rack" where
  "sent_rack r = r\<lparr>rack_controller := sent_node (rack_controller r), rack_nodes := map sent_node (rack_nodes r)\<rparr>"

definition row_ok :: "orcm_row \<Rightarrow> bool" where
  "row_ok r \<longleftrightarrow> wf_string (row_name r) \<and> node_ok (row_controller r) \<and> list_all rack_ok (row_racks r) \<and>
     length (row_racks r) < 2 ^ 31"

definition sent_row :: "orcm_row \<Rightarrow> orcm_row" where
  "sent_row r = r\<lparr>row_controller := sent_node (row_controller r), row_racks := map sent_rack (row_racks r)\<rparr>"

definition cluster_ok :: "orcm_cluster \<Rightarrow> bool" where
  "cluster_ok c \<longleftrightarrow> wf_string (cluster_name c) \<and> node_ok (cluster_controller c) \<and> list_all row_ok (cluster_rows c) \<and>
     length (cluster_rows c) < 2 ^ 31"

definition sent_cluster :: "orcm_cluster \<Rightarrow> orcm_cluster" where
  "sent_cluster c = c\<lparr>cluster_controller := sent_node (cluster_controller c), cluster_rows := map sent_row (cluster_rows c)\<rparr>"

definition scheduler_ok :: "orcm_scheduler \<Rightarrow> bool" where
  "scheduler_ok s \<longleftrightarrow> node_ok (sched_controller s) \<and> argv_ok (sched_queues s)"

definition sent_scheduler :: "orcm_scheduler \<Rightarrow> orcm_scheduler" where
  "sent_scheduler s = \<lparr>sched_controller = sent_node (sched_controller s), sched_queues = sent_argv (sched_queues s)\<rparr>"

lemmas cfgi_tables = alloc_dss_types_def node_dss_types_def rack_dss_types_def row_dss_types_def orcm_dss_types_def

lemma cfgi_tbl_ok [simp]:
  "tbl_ok env (alloc_dss_types env)" "tbl_ok env (node_dss_types env)" "tbl_ok env (rack_dss_types env)"
  "tbl_ok env (row_dss_types env)" "tbl_ok env (orcm_dss_types env)"
  using tbl_ok_orte[of env] by (auto simp: tbl_ok_def cfgi_tables)

lemma cfgi_intrinsic:
  assumes "ty < ORTE_ATTRIBUTE"
  shows "alloc_dss_types env ty = opal_dss_types env ty" "node_dss_types env ty = opal_dss_types env ty"
    "rack_dss_types env ty = opal_dss_types env ty" "row_dss_types env ty = opal_dss_types env ty"
    "orcm_dss_types env ty = opal_dss_types env ty"
  using assms by (auto simp: cfgi_tables orte_dss_types_def)

interpretation alloc_types: scalar_table env "alloc_dss_types env" for env
  by unfold_locales (simp_all add: cfgi_intrinsic)

lemma each_carried:
  assumes "\<And>x. x \<in> set xs \<Longrightarrow> transfers env True t (p x) u (f x)"
  shows "transfers env True t (pack_each p xs (int (length xs)))
           (dss_bind (dss_repeat (nat (int (length xs))) u) (\<lambda>xs. dss_return (w xs))) (w (map f xs))"
  unfolding nat_int pack_each_def using assms by (auto intro!: transfers_map[OF transfers_seq])

lemma cfgi_entries:
  "tbl \<in> {node_dss_types env, rack_dss_types env, row_dss_types env, orcm_dss_types env} \<Longrightarrow>
   tbl ORCM_NODE = Some \<lparr>odti_pack_fn = orcm_pack_node (alloc_dss_types env),
                         odti_unpack_fn = orcm_unpack_node env (alloc_dss_types env)\<rparr>"
  "tbl \<in> {rack_dss_types env, row_dss_types env, orcm_dss_types env} \<Longrightarrow>
   tbl ORCM_RACK = Some \<lparr>odti_pack_fn = orcm_pack_rack (node_dss_types env),
                         odti_unpack_fn = orcm_unpack_rack env (node_dss_types env)\<rparr>"
  "tbl \<in> {row_dss_types env, orcm_dss_types env} \<Longrightarrow>
   tbl ORCM_ROW = Some \<lparr>odti_pack_fn = orcm_pack_row (rack_dss_types env),
                        odti_unpack_fn = orcm_unpack_row env (rack_dss_types env)\<rparr>"
  "orcm_dss_types env ORCM_CLUSTER = Some \<lparr>odti_pack_fn = orcm_pack_cluster (row_dss_types env),
                                           odti_unpack_fn = orcm_unpack_cluster env (row_dss_types env)\<rparr>"
  "orcm_dss_types env ORCM_SCHEDULER = Some \<lparr>odti_pack_fn = orcm_pack_scheduler (node_dss_types env),
                                             odti_unpack_fn = orcm_unpack_scheduler env (node_dss_types env)\<rparr>"
  by (auto simp: node_dss_types_def rack_dss_types_def row_dss_types_def orcm_dss_types_def)

text \<open>From the functions of a type to messages through a table that has them.\<close>

lemma one_through_table:
  assumes "tbl_ok env tbl" "tbl ty = Some \<lparr>odti_pack_fn = p, odti_unpack_fn = u\<rparr>"
    "transfers env True t (p (wrap [x]) (int (length [x]))) (u (int (length [x]))) (wrap (map f [x]))"
  shows "transfers env True t (opal_dss_pack_buffer tbl (wrap [x]) 1 ty) (opal_dss_unpack_buffer tbl 1 ty) (wrap [f x])"
  using transfers_buffer_as[OF assms(1,2)] assms(3) by simp

lemma nodes_carried:
  "list_all node_ok xs \<Longrightarrow>
   transfers env True t (orcm_pack_node (alloc_dss_types env) (DNode xs) (int (length xs)))
     (orcm_unpack_node env (alloc_dss_types env) (int (length xs))) (DNode (map sent_node xs))"
  unfolding orcm_pack_node_def orcm_unpack_node_def dss_data.case
  by (rule each_carried) (auto simp: list_all_iff intro: alloc_types.node_carried)

interpretation rack_level: level_table env "node_dss_types env" ORCM_NODE DNode getnode node_ok sent_node for env
  by unfold_locales (auto simp: cfgi_intrinsic getnode_def cfgi_entries intro!: one_through_table nodes_carried)

lemma racks_carried:
  assumes "list_all rack_ok xs"
  shows "transfers env True t (orcm_pack_rack (node_dss_types env) (DRack xs) (int (length xs)))
     (orcm_unpack_rack env (node_dss_types env) (int (length xs))) (DRack (map sent_rack xs))"
  unfolding orcm_pack_rack_def orcm_unpack_rack_def dss_data.case
proof (rule each_carried)
  fix r assume "r \<in> set xs"
  then have "rack_ok r" using assms by (simp add: list_all_iff)
  then show "transfers env True t (pack_level (node_dss_types env) ORCM_NODE DNode (rack_name r) (rack_controller r) (rack_nodes r))
      (unpack_level env (node_dss_types env) ''orcm_rack_t'' ORCM_NODE getnode (\<lambda>name controller xs.
         orcm_rack_con\<lparr>rack_name := name, rack_controller := controller, rack_nodes := rack_nodes orcm_rack_con @ xs\<rparr>))
      (sent_rack r)"
    using rack_level.level_carried[of "rack_name r" "rack_controller r" "rack_nodes r"]
    by (cases r) (simp add: rack_ok_def sent_rack_def orcm_rack_con_def)
qed

interpretation row_level: level_table env "rack_dss_types env" ORCM_RACK DRack getrack rack_ok sent_rack for env
  by unfold_locales (auto simp: cfgi_intrinsic getnode_def getrack_def cfgi_entries
      intro!: one_through_table nodes_carried racks_carried)

lemma rows_carried:
  assumes "list_all row_ok xs"
  shows "transfers env True t (orcm_pack_row (rack_dss_types env) (DRow xs) (int (length xs)))
     (orcm_unpack_row env (rack_dss_types env) (int (length xs))) (DRow (map sent_row xs))"
  unfolding orcm_pack_row_def orcm_unpack_row_def dss_data.case
proof (rule each_carried)
  fix r assume "r \<in> set xs"
  then have "row_ok r" using assms by (simp add: list_all_iff)
  then show "transfers env True t (pack_level (rack_dss_types env) ORCM_RACK DRack (row_name r) (row_controller r) (row_racks r))
      (unpack_level env (rack_dss_types env) ''orcm_row_t'' ORCM_RACK getrack (\<lambda>name controller xs.
         orcm_row_con\<lparr>row_name := name, row_controller := controller, row_racks := row_racks orcm_row_con @ xs\<rparr>))
      (sent_row r)"
    using row_level.level_carried[of "row_name r" "row_controller r" "row_racks r"]
    by (cases r) (simp add: row_ok_def sent_row_def orcm_row_con_def)
qed

interpretation cluster_level: level_table env "row_dss_types env" ORCM_ROW DRow getrow row_ok sent_row for env
  by unfold_locales (auto simp: cfgi_intrinsic getnode_def getrow_def cfgi_entries
      intro!: one_through_table nodes_carried rows_carried)

lemma clusters_carried:
  assumes "list_all cluster_ok xs"
  shows "transfers env True t (orcm_pack_cluster (row_dss_types env) (DCluster xs) (int (length xs)))
     (orcm_unpack_cluster env (row_dss_types env) (int (length xs))) (DCluster (map sent_cluster xs))"
  unfolding orcm_pack_cluster_def orcm_unpack_cluster_def dss_data.case
proof (rule each_carried)
  fix r assume "r \<in> set xs"
  then have "cluster_ok r" using assms by (simp add: list_all_iff)
  then show "transfers env True t (pack_level (row_dss_types env) ORCM_ROW DRow (cluster_name r) (cluster_controller r) (cluster_rows r))
      (unpack_level env (row_dss_types env) ''orcm_cluster_t'' ORCM_ROW getrow (\<lambda>name controller xs.
         orcm_cluster_con\<lparr>cluster_name := name, cluster_controller := controller, cluster_rows := cluster_rows orcm_cluster_con @ xs\<rparr>))
      (sent_cluster r)"
    using cluster_level.level_carried[of "cluster_name r" "cluster_controller r" "cluster_rows r"]
    by (cases r) (simp add: cluster_ok_def sent_cluster_def orcm_cluster_con_def)
qed

text \<open>However many schedulers are asked for, one is read.\<close>

lemma scheduler_carried:
  assumes "scheduler_ok s" "0 < n"
  shows "transfers env True t (orcm_pack_scheduler (node_dss_types env) (DScheduler [s]) 1)
     (orcm_unpack_scheduler env (node_dss_types env) n)
     (DScheduler (replicate (nat n - 1) orcm_scheduler_con @ [sent_scheduler s]))"
proof -
  have "orcm_unpack_scheduler env (node_dss_types env) n =
      (if \<not> new_grants env ''orcm_scheduler_t'' then dss_fail OPAL_ERR_OUT_OF_RESOURCE
       else dss_bind (unpack_as (node_dss_types env) ORCM_NODE getnode) (\<lambda>controller.
            dss_bind (unpack_argv (node_dss_types env) None) (\<lambda>queues.
              dss_return (DScheduler (replicate (nat n - 1) orcm_scheduler_con @
                [\<lparr>sched_controller = controller, sched_queues = queues\<rparr>])))))"
    using assms(2) by (simp add: orcm_unpack_scheduler_def orcm_scheduler_con_def)
  then have "transfers env True t (pack_one_scheduler (node_dss_types env) s)
     (orcm_unpack_scheduler env (node_dss_types env) n)
     (DScheduler (replicate (nat n - 1) orcm_scheduler_con @ [sent_scheduler s]))"
    using assms(1) unfolding pack_one_scheduler_def scheduler_ok_def sent_scheduler_def
    by (simp only:) (intro transfers_new transfers_bind[OF rack_level.node.field]
        transfers_map[OF rack_level.argv_carried]; simp only:)
  then show ?thesis by (simp add: orcm_pack_scheduler_def pack_each_def)
qed

section \<open>What comparison sees\<close>

lemma cmp_chars_equal [simp]: "cmp_chars a b = OPAL_EQUAL \<longleftrightarrow> a = b"
proof (induction a b rule: cmp_chars.induct)
  case (4 c cs d ds)
  have "(of_char c :: nat) = of_char d \<longleftrightarrow> c = d" by (rule of_char_eq_iff)
  then consider "(of_char c :: nat) < of_char d" "c \<noteq> d" | "(of_char c :: nat) > of_char d" "c \<noteq> d" | "c = d"
    by (metis linorder_neq_iff)
  then show ?case using 4 by cases simp_all
qed simp_all

lemma cmp_int_equal [simp]:
  "cmp_int i j = OPAL_EQUAL \<longleftrightarrow> i = j"
  "uint v = uint w \<longleftrightarrow> v = w" "sint v = sint w \<longleftrightarrow> v = w"
  by (auto simp: cmp_int_def intro: signed_word_eqI unsigned_word_eqI)

lemma cmp_then_equal [simp]: "cmp_then a b = Inr OPAL_EQUAL \<longleftrightarrow> a = Inr OPAL_EQUAL \<and> b = Inr OPAL_EQUAL"
  by (cases a) (auto simp: cmp_then_def)

lemma c_str_id: "CHR 0x00 \<notin> set s \<Longrightarrow> c_str s = s"
  unfolding c_str_def by (rule takeWhile_eq_all_conv[THEN iffD2]) auto

lemma c_str_joined: "CHR 0x00 \<notin> set x \<Longrightarrow> c_str (separated (CHR 0x00) (x # xs)) = x"
  using c_str_id[of x] by (cases xs) (simp_all add: c_str_def takeWhile_tail)

lemma compare_names_equal:
  "wf_string a \<Longrightarrow> wf_string b \<Longrightarrow> compare_name_strings a b = Inr OPAL_EQUAL \<longleftrightarrow> a = b"
  by (auto simp: compare_name_strings_def cmp_null_def c_strcmp_def wf_string_def c_str_id split: option.splits)

text \<open>Of two argument vectors, comparison sees the lengths and the first strings.\<close>

definition argv_seen :: "argv \<Rightarrow> (nat \<times> string) option" where
  "argv_seen a = map_option (\<lambda>xs. (length xs, case xs of [] \<Rightarrow> [] | x # _ \<Rightarrow> x)) a"

lemma compare_argv_equal:
  assumes "argv_ok a" "argv_ok b"
  shows "compare_argv a b = Inr OPAL_EQUAL \<longleftrightarrow> argv_seen a = argv_seen b"
proof -
  have "c_strcmp (separated (CHR 0x00) xs) (separated (CHR 0x00) ys) = OPAL_EQUAL \<longleftrightarrow>
      (case xs of [] \<Rightarrow> [] | x # _ \<Rightarrow> x) = (case ys of [] \<Rightarrow> [] | y # _ \<Rightarrow> y)"
    if "a = Some xs" "b = Some ys" "length xs = length ys" for xs ys
    using assms that unfolding c_strcmp_def
    by (cases xs; cases ys) (auto simp: argv_ok_def wf_string_def c_str_joined simp del: separated.simps)
  then show ?thesis
    by (auto simp: compare_argv_def cmp_null_def argv_seen_def argv_join split: option.splits)
qed

section \<open>Properties\<close>

text \<open>
  C13: A cluster sent as a message arrives with all its rows, racks and nodes, at every level in
  the same order and under the same controllers, in described and undescribed buffers.  Only
  the processing elements and the topology of a node stay behind, and an empty argument vector
  arrives as a null pointer.
\<close>

theorem cluster_roundtrip:
  assumes "env_ok env" "list_all cluster_ok cs"
  shows "delivers t (opal_dss_pack_buffer (orcm_dss_types env) (DCluster cs) (int (length cs)) ORCM_CLUSTER)
           (opal_dss_unpack_buffer (orcm_dss_types env) (int (length cs)) ORCM_CLUSTER)
           (DCluster (map sent_cluster cs))"
  by (rule transfers_delivers[OF transfers_buffer_as[OF cfgi_tbl_ok(5) cfgi_entries(4)] assms(1)])
    (simp add: clusters_carried[OF assms(2)])

definition example_node :: orcm_node where
  "example_node = orcm_node_con\<lparr>hostname := Some ''n1'', daemon := \<lparr>jobid = 0, vpid = 4\<rparr>, nd_state := 2, scd_state := 2,
     nd_config := orcm_config_con\<lparr>cfg_mca_params := Some [''a=1'', ''b=2''], cfg_port := Some ''555''\<rparr>\<rparr>"

definition example_cluster :: orcm_cluster where
  "example_cluster = \<lparr>cluster_name = Some ''c'', cluster_controller = orcm_node_con, cluster_rows =
     [\<lparr>row_name = Some ''r'', row_controller = orcm_node_con, row_racks =
        [\<lparr>rack_name = Some ''k'', rack_controller = example_node, rack_nodes = [example_node, example_node]\<rparr>]\<rparr>]\<rparr>"

lemmas cfgi_ok_defs = cluster_ok_def row_ok_def rack_ok_def node_ok_def config_ok_def argv_ok_def wf_string_def
  example_cluster_def example_node_def orcm_node_con_def orcm_config_con_def

lemmas cfgi_sent_defs = sent_cluster_def sent_row_def sent_rack_def sent_node_def sent_config_def sent_argv_def
  example_cluster_def example_node_def orcm_node_con_def orcm_config_con_def

theorem cluster_roundtrip_witness:
  "delivers OPAL_DSS_BUFFER_NON_DESC
     (opal_dss_pack_buffer (orcm_dss_types example_env) (DCluster [example_cluster]) 1 ORCM_CLUSTER)
     (opal_dss_unpack_buffer (orcm_dss_types example_env) 1 ORCM_CLUSTER) (DCluster [example_cluster])"
proof -
  have "list_all cluster_ok [example_cluster]" "map sent_cluster [example_cluster] = [example_cluster]"
    by (simp_all add: cfgi_ok_defs cfgi_sent_defs)
  then show ?thesis using cluster_roundtrip[OF env_ok_example, of "[example_cluster]" OPAL_DSS_BUFFER_NON_DESC] by simp
qed

text \<open>
  C39: Asked for several schedulers, unpacking reads the bytes of one.  It stands last in the
  result and all others are empty objects; so a single scheduler arrives, and a message with
  several is misread.
\<close>

theorem scheduler_unpacks_one:
  assumes "env_ok env" "scheduler_ok s" "0 < n"
  shows "delivers t (orcm_pack_scheduler (node_dss_types env) (DScheduler [s]) 1)
           (orcm_unpack_scheduler env (node_dss_types env) n)
           (DScheduler (replicate (nat n - 1) orcm_scheduler_con @ [sent_scheduler s]))"
  using transfers_delivers[OF scheduler_carried[OF assms(2,3)] assms(1)] .

theorem scheduler_unpacks_one_witness:
  "delivers OPAL_DSS_BUFFER_FULLY_DESC
     (orcm_pack_scheduler (node_dss_types example_env)
        (DScheduler [\<lparr>sched_controller = example_node, sched_queues = Some [''q:1:x'']\<rparr>]) 1)
     (orcm_unpack_scheduler example_env (node_dss_types example_env) 2)
     (DScheduler [orcm_scheduler_con, \<lparr>sched_controller = example_node, sched_queues = Some [''q:1:x'']\<rparr>])"
proof -
  let ?s = "\<lparr>sched_controller = example_node, sched_queues = Some [''q:1:x'']\<rparr>"
  have "scheduler_ok ?s" "sent_scheduler ?s = ?s"
    by (simp_all add: scheduler_ok_def sent_scheduler_def cfgi_ok_defs cfgi_sent_defs)
  then show ?thesis
    using scheduler_unpacks_one[OF env_ok_example, of ?s 2 OPAL_DSS_BUFFER_FULLY_DESC] by simp
qed

text \<open>
  C40: Two nodes compare as equal exactly when they agree in name, daemon, states, port and
  aggregator flag and in what comparison sees of their parameters and environments: whether
  there are any, how many, and the first one.  Nodes that differ in a later parameter compare
  as equal.
\<close>

theorem compare_node_equal:
  assumes "node_ok a" "node_ok b"
  shows "orcm_compare_node a b = Inr OPAL_EQUAL \<longleftrightarrow>
    hostname a = hostname b \<and> daemon a = daemon b \<and>
    argv_seen (cfg_mca_params (nd_config a)) = argv_seen (cfg_mca_params (nd_config b)) \<and>
    argv_seen (cfg_env (nd_config a)) = argv_seen (cfg_env (nd_config b)) \<and>
    cfg_port (nd_config a) = cfg_port (nd_config b) \<and> cfg_aggregator (nd_config a) = cfg_aggregator (nd_config b) \<and>
    nd_state a = nd_state b \<and> scd_state a = scd_state b"
proof -
  have "daemon a = daemon b \<longleftrightarrow> jobid (daemon a) = jobid (daemon b) \<and> vpid (daemon a) = vpid (daemon b)"
    by (cases "daemon a"; cases "daemon b") simp
  then show ?thesis using assms
    by (auto simp: orcm_compare_node_def node_ok_def config_ok_def compare_names_equal compare_argv_equal)
qed

theorem compare_node_equal_witness:
  "orcm_compare_node example_node
     (example_node\<lparr>nd_config := (nd_config example_node)\<lparr>cfg_mca_params := Some [''a=1'', ''b=3'']\<rparr>\<rparr>) = Inr OPAL_EQUAL"
  by (subst compare_node_equal) (simp_all add: cfgi_ok_defs argv_seen_def)

end
