(* ===== verification/C_String.thy ===== *)
theory C_String
  imports Orcm_Prelude
begin

text \<open>
  The functions of the C library on strings and numbers that the sources use, in the C
  locale: \<^verbatim>\<open>isdigit\<close>, \<^verbatim>\<open>isalpha\<close>, \<^verbatim>\<open>isspace\<close>, \<^verbatim>\<open>strtol\<close> to base ten,
  \<^verbatim>\<open>strrchr\<close> and the conversions \<^verbatim>\<open>%lu\<close> and \<^verbatim>\<open>%d\<close>.  A C string is
  the list of its characters before the terminating null.
\<close>

section \<open>Characters\<close>

definition char_code :: "char \<Rightarrow> nat" where
  "char_code c = of_char c"

definition c_isdigit :: "char \<Rightarrow> bool" where
  "c_isdigit c \<longleftrightarrow> 48 \<le> char_code c \<and> char_code c \<le> 57"

definition c_isalpha :: "char \<Rightarrow> bool" where
  "c_isalpha c \<longleftrightarrow> (65 \<le> char_code c \<and> char_code c \<le> 90) \<or> (97 \<le> char_code c \<and> char_code c \<le> 122)"

definition c_isspace :: "char \<Rightarrow> bool" where
  "c_isspace c \<longleftrightarrow> char_code c = 32 \<or> (9 \<le> char_code c \<and> char_code c \<le> 13)"

text \<open>A \<^verbatim>\<open>char\<close> is signed.\<close>

definition signed_char :: "char \<Rightarrow> int" where
  "signed_char c = (if char_code c < 128 then int (char_code c) else int (char_code c) - 256)"

section \<open>Numbers\<close>

definition digit_value :: "char \<Rightarrow> nat" where
  "digit_value c = char_code c - 48"

definition digit_char :: "nat \<Rightarrow> char" where
  "digit_char n = char_of (48 + n)"

definition digits_value :: "string \<Rightarrow> nat" where
  "digits_value ds = foldl (\<lambda>n c. 10 * n + digit_value c) 0 ds"

text \<open>
  \<^verbatim>\<open>strtol(s, &end, 10)\<close>: the value, clamped to the range of \<^verbatim>\<open>long\<close>, and the rest.
\<close>

definition c_strtol :: "string \<Rightarrow> int \<times> string" where
  "c_strtol s =
     (let t = dropWhile c_isspace s;
          neg = (t \<noteq> [] \<and> hd t = CHR ''-'');
          u = (if t \<noteq> [] \<and> hd t \<in> {CHR ''-'', CHR ''+''} then tl t else t);
          ds = takeWhile c_isdigit u;
          v = int (digits_value ds)
      in if ds = [] then (0, s)
         else (if neg then max (- (2 ^ 63)) (- v) else min (2 ^ 63 - 1) v, dropWhile c_isdigit u))"

text \<open>The conversions \<^verbatim>\<open>%lu\<close> and \<^verbatim>\<open>%d\<close>.\<close>

fun dec :: "nat \<Rightarrow> string" where
  "dec n = (if n < 10 then [digit_char n] else dec (n div 10) @ [digit_char (n mod 10)])"

declare dec.simps [simp del]

definition dec_int :: "int \<Rightarrow> string" where
  "dec_int i = (if i < 0 then CHR ''-'' # dec (nat (- i)) else dec (nat i))"

section \<open>Searching\<close>

text \<open>
  \<open>upto_char\<close> and \<open>after_char\<close> cut a string at the first occurrence of a character,
  as \<^verbatim>\<open>strchr\<close> and a null written there do.
\<close>

definition upto_char :: "char \<Rightarrow> string \<Rightarrow> string" where
  "upto_char d s = takeWhile (\<lambda>c. c \<noteq> d) s"

definition after_char :: "char \<Rightarrow> string \<Rightarrow> string option" where
  "after_char d s = (case dropWhile (\<lambda>c. c \<noteq> d) s of [] \<Rightarrow> None | _ # r \<Rightarrow> Some r)"

text \<open>\<^verbatim>\<open>strrchr\<close>: what stands before and after the last occurrence.\<close>

definition c_strrchr :: "string \<Rightarrow> char \<Rightarrow> (string \<times> string) option" where
  "c_strrchr s d =
     (if d \<in> set s
      then Some (rev (tl (dropWhile (\<lambda>c. c \<noteq> d) (rev s))), rev (takeWhile (\<lambda>c. c \<noteq> d) (rev s)))
      else None)"

section \<open>Facts\<close>

lemma after_char_shorter: "after_char d s = Some r \<Longrightarrow> length r < length s"
  using length_dropWhile_le[of "\<lambda>c. c \<noteq> d" s] by (auto simp: after_char_def split: list.splits)

lemma cut_char [simp]:
  "d \<notin> set x \<Longrightarrow> upto_char d (x @ d # r) = x" "d \<notin> set x \<Longrightarrow> after_char d (x @ d # r) = Some r"
  "d \<notin> set x \<Longrightarrow> upto_char d x = x" "d \<notin> set x \<Longrightarrow> after_char d x = None"
proof -
  assume d: "d \<notin> set x"
  then have *: "takeWhile (\<lambda>c. c \<noteq> d) x = x" "dropWhile (\<lambda>c. c \<noteq> d) x = []"
    "takeWhile (\<lambda>c. c \<noteq> d) (x @ d # r) = x" "dropWhile (\<lambda>c. c \<noteq> d) (x @ d # r) = d # r"
    by (auto simp: takeWhile_eq_all_conv dropWhile_eq_Nil_conv takeWhile_append dropWhile_append)
  show "upto_char d (x @ d # r) = x" "after_char d (x @ d # r) = Some r" "upto_char d x = x"
    "after_char d x = None"
    by (simp_all add: upto_char_def after_char_def *)
qed

lemma digit_char [simp]:
  assumes "n < 10"
  shows "char_code (digit_char n) = 48 + n" "c_isdigit (digit_char n)" "digit_value (digit_char n) = n"
proof -
  show "char_code (digit_char n) = 48 + n" using assms by (simp add: char_code_def digit_char_def)
  then show "c_isdigit (digit_char n)" "digit_value (digit_char n) = n"
    using assms by (simp_all add: c_isdigit_def digit_value_def)
qed

lemma digit_char_0: "digit_char 0 = CHR ''0''"
proof -
  have "of_char (CHR ''0'') = (48 :: nat)" by simp
  then show ?thesis using char_of_char[of "CHR ''0''"] by (simp add: digit_char_def)
qed

lemma digit_char_value: "c_isdigit c \<Longrightarrow> digit_char (digit_value c) = c \<and> digit_value c < 10"
  by (auto simp: digit_char_def digit_value_def c_isdigit_def char_code_def)

lemma dec_isdigit: "c \<in> set (dec n) \<Longrightarrow> c_isdigit c"
  by (induction n rule: dec.induct) (subst (asm) dec.simps, auto split: if_splits)

lemma dec_nonempty [simp]: "dec n \<noteq> []"
  by (simp add: dec.simps[of n])

lemma digits_value_snoc [simp]: "digits_value (ds @ [c]) = 10 * digits_value ds + digit_value c"
  by (simp add: digits_value_def)

lemma digits_value_Nil [simp]: "digits_value [] = 0"
  by (simp add: digits_value_def)

lemma digits_value_dec [simp]: "digits_value (dec n) = n"
proof (induction n rule: dec.induct)
  case (1 n)
  show ?case
  proof (cases "n < 10")
    case True
    then show ?thesis using digits_value_snoc[of "[]"] by (simp add: dec.simps[of n])
  next
    case False
    then show ?thesis using 1 by (simp add: dec.simps[of n])
  qed
qed

text \<open>Zero padding recovers the digits a number was read from.\<close>

lemma pad_digits_value:
  assumes "ds \<noteq> []" "\<forall>c \<in> set ds. c_isdigit c"
  shows "length (dec (digits_value ds)) \<le> length ds \<and>
         replicate (length ds - length (dec (digits_value ds))) (CHR ''0'') @ dec (digits_value ds) = ds"
  using assms
proof (induction ds rule: rev_induct)
  case (snoc c ds)
  then have c: "digit_char (digit_value c) = c" "digit_value c < 10" by (simp_all add: digit_char_value)
  show ?case
  proof (cases "ds = [] \<or> digits_value ds = 0")
    case zero: True
    then have v: "digits_value (ds @ [c]) = digit_value c" by auto
    have "ds = replicate (length ds) (CHR ''0'')"
    proof (cases "ds = []")
      case False
      then have "replicate (length ds - 1) (CHR ''0'') @ dec 0 = ds" "1 \<le> length ds"
        using snoc zero by (simp_all add: dec.simps[of 0] Suc_leI)
      moreover have "dec 0 = [CHR ''0'']" by (simp add: dec.simps[of 0] digit_char_0)
      ultimately have "ds = replicate (Suc (length ds - 1)) (CHR ''0'')"
        by (simp add: replicate_append_same)
      moreover have "Suc (length ds - 1) = length ds" using \<open>1 \<le> length ds\<close> by simp
      ultimately show ?thesis by (simp only:)
    qed simp
    then show ?thesis using c v by (simp add: dec.simps[of "digit_value c"])
  next
    case False
    then have "dec (digits_value (ds @ [c])) = dec (digits_value ds) @ [c]"
      using c by (simp add: dec.simps[of "10 * digits_value ds + digit_value c"])
    then show ?thesis using False snoc by simp
  qed
qed simp

lemma not_digit:
  "c_isdigit c \<Longrightarrow> \<not> c_isspace c" "c_isdigit c \<Longrightarrow> \<not> c_isalpha c"
  "\<not> c_isdigit (CHR '','')" "\<not> c_isdigit (CHR ''-'')" "\<not> c_isdigit (CHR ''+'')"
  "\<not> c_isdigit (CHR ''['')" "\<not> c_isdigit (CHR '']'')" "\<not> c_isdigit (CHR '':'')"
  by (auto simp: c_isdigit_def c_isspace_def c_isalpha_def char_code_def)

lemma strtol_digits:
  assumes "ds \<noteq> []" "\<forall>c \<in> set ds. c_isdigit c" "r = [] \<or> \<not> c_isdigit (hd r)" "int (digits_value ds) < 2 ^ 63"
  shows "c_strtol (ds @ r) = (int (digits_value ds), r)"
proof -
  obtain c cs where ds: "ds = c # cs" using assms(1) by (cases ds) auto
  then have c: "c_isdigit c" "\<not> c_isspace c" "c \<noteq> CHR ''-''" "c \<noteq> CHR ''+''"
    using assms(2) not_digit by auto
  have "takeWhile c_isdigit r = []" "dropWhile c_isdigit r = r" using assms(3) by (cases r; simp)+
  then have "takeWhile c_isdigit (ds @ r) = ds" "dropWhile c_isdigit (ds @ r) = r"
    using assms(2) by (simp_all add: takeWhile_append dropWhile_append)
  moreover have "dropWhile c_isspace (ds @ r) = ds @ r" "hd (ds @ r) = c" using c ds by simp_all
  ultimately show ?thesis using assms(1,4) c by (simp add: c_strtol_def Let_def)
qed

end
