(* ===== verification/Regex.thy ===== *)
theory Regex
  imports Argv C_String "HOL-Library.Multiset"
begin

text \<open>
  Node expressions: \<^verbatim>\<open>orte/util/regex.c\<close>.  The scheduler stores the nodes of an
  allocation as an expression such as \<^verbatim>\<open>node[3:1-4,7],login\<close> that
  \<^verbatim>\<open>orte_regex_create\<close> makes from a comma-separated list of names and
  \<^verbatim>\<open>orte_regex_extract_node_names\<close> turns back into names.  Lengths of strings are
  taken to fit into an \<^verbatim>\<open>int\<close>, and allocations of a sensible size to succeed.
\<close>

section \<open>Making an expression\<close>

definition ORTE_MAX_NODE_PREFIX :: nat where
  "ORTE_MAX_NODE_PREFIX = 50"

record orte_regex_range =
  rg_start :: int
  rg_cnt :: int

record orte_regex_node =
  nd_prefix :: "string option"
  nd_suffix :: "string option"
  nd_num_digits :: int
  nd_ranges :: "orte_regex_range list"

text \<open>
  The scan of one name: whether it must be used whole, the prefix, where the first digit is
  and how many digits there are.  The result is \<open>None\<close> when the prefix array overflows.
\<close>

fun scan_name :: "string \<Rightarrow> int \<Rightarrow> string \<Rightarrow> int \<Rightarrow> int \<Rightarrow> (bool \<times> string \<times> int \<times> int) option" where
  "scan_name [] i prefix startnum numdigits = Some (False, prefix, startnum, numdigits)"
| "scan_name (c # cs) i prefix startnum numdigits =
     (if \<not> c_isalpha c then
        if \<not> c_isdigit c then Some (True, prefix, startnum, numdigits)
        else scan_name cs (i + 1) prefix (if startnum < 0 then i else startnum) (numdigits + 1)
      else if startnum < 0 then
        if length prefix < ORTE_MAX_NODE_PREFIX then scan_name cs (i + 1) (prefix @ [c]) startnum numdigits
        else None
      else scan_name cs (i + 1) prefix startnum numdigits)"

definition same_nodeid :: "string \<Rightarrow> string option \<Rightarrow> int \<Rightarrow> orte_regex_node \<Rightarrow> bool" where
  "same_nodeid prefix suffix numdigits ndreg \<longleftrightarrow>
     (if prefix = [] then nd_prefix ndreg = None else nd_prefix ndreg = Some prefix) \<and>
     nd_suffix ndreg = suffix \<and> nd_num_digits ndreg = numdigits"

text \<open>
  The last item of an empty list is the list's own head, not null: taking it for a range has
  no meaning.
\<close>

definition add_to_ranges :: "int \<Rightarrow> orte_regex_range list \<Rightarrow> opal_err + orte_regex_range list" where
  "add_to_ranges nodenum ranges =
     (if ranges = [] then Inl C_UNDEFINED
      else let rg = last ranges
           in if rg_start rg + rg_cnt rg > INT_MAX then Inl C_UNDEFINED
              else if nodenum \<noteq> rg_start rg + rg_cnt rg
              then Inr (ranges @ [\<lparr>rg_start = nodenum, rg_cnt = 1\<rparr>])
              else Inr (butlast ranges @ [rg\<lparr>rg_cnt := rg_cnt rg + 1\<rparr>]))"

fun place_node :: "string \<Rightarrow> string option \<Rightarrow> int \<Rightarrow> int \<Rightarrow> orte_regex_node list \<Rightarrow>
    opal_err + orte_regex_node list" where
  "place_node prefix suffix numdigits nodenum [] =
     Inr [\<lparr>nd_prefix = (if prefix = [] then None else Some prefix), nd_suffix = suffix,
           nd_num_digits = numdigits, nd_ranges = [\<lparr>rg_start = nodenum, rg_cnt = 1\<rparr>]\<rparr>]"
| "place_node prefix suffix numdigits nodenum (ndreg # nodeids) =
     (if same_nodeid prefix suffix numdigits ndreg
      then err_bind (add_to_ranges nodenum (nd_ranges ndreg)) (\<lambda>ranges.
             Inr (ndreg\<lparr>nd_ranges := ranges\<rparr> # nodeids))
      else err_bind (place_node prefix suffix numdigits nodenum nodeids) (\<lambda>nodeids.
             Inr (ndreg # nodeids)))"

text \<open>A prefix that fills its array has no terminating null for \<^verbatim>\<open>strlen\<close> to find.\<close>

definition add_name :: "string \<Rightarrow> orte_regex_node list \<Rightarrow> opal_err + orte_regex_node list" where
  "add_name node nodeids =
     (case scan_name node 0 [] (- 1) 0 of
        None \<Rightarrow> Inl C_UNDEFINED
      | Some (fullname, prefix, startnum, numdigits) \<Rightarrow>
          if fullname \<or> startnum < 0
          then Inr (nodeids @ [\<lparr>nd_prefix = Some node, nd_suffix = None, nd_num_digits = 0, nd_ranges = []\<rparr>])
          else if length prefix = ORTE_MAX_NODE_PREFIX then Inl C_UNDEFINED
          else let (nodenum, sfx) = c_strtol (drop (nat startnum) node)
               in place_node prefix (Some sfx) numdigits (c_int32 nodenum) nodeids)"

function gather_names :: "string \<Rightarrow> orte_regex_node list \<Rightarrow> opal_err + orte_regex_node list" where
  "gather_names node nodeids =
     (if node = [] then Inr nodeids
      else err_bind (add_name (upto_char (CHR '','') node) nodeids) (\<lambda>nodeids.
             case after_char (CHR '','') node of None \<Rightarrow> Inr nodeids | Some node \<Rightarrow> gather_names node nodeids))"
  by pat_completeness auto
termination
  by (relation "measure (\<lambda>(node, _). length node)") (auto dest: after_char_shorter)

declare gather_names.simps [simp del]

definition range_text :: "orte_regex_range \<Rightarrow> opal_err + string" where
  "range_text rg =
     (if rg_cnt rg = 1 then Inr (dec_int (rg_start rg) @ '','')
      else if rg_start rg + rg_cnt rg > INT_MAX then Inl C_UNDEFINED
      else Inr (dec_int (rg_start rg) @ ''-'' @ dec_int (rg_start rg + rg_cnt rg - 1) @ '',''))"

fun ranges_text :: "orte_regex_range list \<Rightarrow> string \<Rightarrow> opal_err + string" where
  "ranges_text [] tmp = Inr tmp"
| "ranges_text (rg # ranges) tmp = err_bind (range_text rg) (\<lambda>t. ranges_text ranges (tmp @ t))"

fun nodeids_args :: "orte_regex_node list \<Rightarrow> argv \<Rightarrow> opal_err + argv" where
  "nodeids_args [] regexargs = Inr regexargs"
| "nodeids_args (ndreg # nodeids) regexargs =
     (if nd_ranges ndreg = []
      then nodeids_args nodeids (case nd_prefix ndreg of
                                   None \<Rightarrow> regexargs | Some p \<Rightarrow> opal_argv_append_nosize regexargs p)
      else err_bind (ranges_text (nd_ranges ndreg)
                       ((case nd_prefix ndreg of None \<Rightarrow> [] | Some p \<Rightarrow> p) @ ''['' @ dec_int (nd_num_digits ndreg) @ '':''))
             (\<lambda>tmp. nodeids_args nodeids (opal_argv_append_nosize regexargs
                      (butlast tmp @ '']'' @ (case nd_suffix ndreg of None \<Rightarrow> [] | Some s \<Rightarrow> s)))))"

text \<open>
  The call returns the expression and leaves in the list what stood before the first comma: it
  overwrites the commas with nulls.
\<close>

definition orte_regex_create :: "string \<Rightarrow> opal_err + string \<times> string" where
  "orte_regex_create nodelist =
     (if after_char (CHR '','') nodelist = None then Inr (nodelist, nodelist)
      else err_bind (gather_names nodelist []) (\<lambda>nodeids.
             err_bind (nodeids_args nodeids None) (\<lambda>regexargs.
               err_bind (opal_argv_join regexargs (CHR '','')) (\<lambda>regexp.
                 Inr (regexp, upto_char (CHR '','') nodelist)))))"

section \<open>Expanding an expression\<close>

text \<open>
  \<^verbatim>\<open>for (k=0; k < strlen(tmp); k++) str[base_len + num_digits - k - 1] = tmp[strlen(tmp)-k-1]\<close>
\<close>

fun put_digits :: "nat \<Rightarrow> string \<Rightarrow> string \<Rightarrow> string" where
  "put_digits 0 tmp str = str"
| "put_digits (Suc k) tmp str = (put_digits k tmp str)[length str - k - 1 := tmp ! (length tmp - k - 1)]"

text \<open>
  One name.  A negative digit count is converted to a huge \<^verbatim>\<open>size_t\<close>, and a number
  longer than everything before it is stored at negative indices.
\<close>

definition node_name :: "string \<Rightarrow> int \<Rightarrow> string option \<Rightarrow> nat \<Rightarrow> string option" where
  "node_name base num_digits suffix i =
     (let str = base @ replicate (nat num_digits) (CHR ''0''); tmp = dec i
      in if num_digits < 0 \<or> length tmp > length str then None
         else Some (put_digits (length tmp) tmp str @ (case suffix of None \<Rightarrow> [] | Some s \<Rightarrow> s)))"

fun emit_names :: "string \<Rightarrow> int \<Rightarrow> string option \<Rightarrow> nat \<Rightarrow> nat \<Rightarrow> argv \<Rightarrow> opal_err option \<times> argv" where
  "emit_names base num_digits suffix i 0 names = (None, names)"
| "emit_names base num_digits suffix i (Suc n) names =
     (case node_name base num_digits suffix i of
        None \<Rightarrow> (Some C_UNDEFINED, names)
      | Some str \<Rightarrow> emit_names base num_digits suffix (Suc i) n (opal_argv_append_nosize names str))"

definition range_end :: "nat \<Rightarrow> string \<Rightarrow> nat option" where
  "range_end first r =
     (if r = [] then Some first
      else let r = dropWhile (\<lambda>c. \<not> c_isdigit c) r
           in if r = [] then None else Some (nat (fst (c_strtol r))))"

definition regex_parse_node_range :: "string \<Rightarrow> string \<Rightarrow> int \<Rightarrow> string option \<Rightarrow> argv \<Rightarrow> opal_err option \<times> argv" where
  "regex_parse_node_range base rg num_digits suffix names =
     (let r = dropWhile (\<lambda>c. \<not> c_isdigit c) rg; start = fst (c_strtol r)
      in if r = [] then (Some OPAL_ERR_NOT_FOUND, names)
         else if start > INT_MAX then (Some C_UNDEFINED, names)
         else case range_end (nat start) (dropWhile c_isdigit r) of
                None \<Rightarrow> (Some OPAL_ERR_NOT_FOUND, names)
              | Some stop \<Rightarrow>
                  if int (length base) + num_digits + 32 + (case suffix of None \<Rightarrow> 0 | Some s \<Rightarrow> int (length s)) < 0
                  then (Some OPAL_ERR_OUT_OF_RESOURCE, names)
                  else emit_names base num_digits suffix (nat start) (Suc stop - nat start) names)"

function regex_parse_node_ranges :: "string \<Rightarrow> string \<Rightarrow> int \<Rightarrow> string option \<Rightarrow> argv \<Rightarrow> opal_err option \<times> argv" where
  "regex_parse_node_ranges base ranges num_digits suffix names =
     (case after_char (CHR '','') ranges of
        None \<Rightarrow> if ranges = [] then (None, names)
                else regex_parse_node_range base ranges num_digits suffix names
      | Some rest \<Rightarrow>
          (case regex_parse_node_range base (upto_char (CHR '','') ranges) num_digits suffix names of
             (Some e, names) \<Rightarrow> (Some e, names)
           | (None, names) \<Rightarrow> regex_parse_node_ranges base rest num_digits suffix names))"
  by pat_completeness auto
termination
  by (relation "measure (\<lambda>(_, ranges, _). length ranges)") (auto dest: after_char_shorter)

declare regex_parse_node_ranges.simps [simp del]

text \<open>
  One expression in brackets, from the text after the opening bracket: the digit count, the
  ranges, the suffix and what follows.
\<close>

definition split_range :: "string \<Rightarrow> (int \<times> string \<times> string option \<times> string) option" where
  "split_range s =
     (case after_char (CHR '':'') s of
        None \<Rightarrow> None
      | Some t \<Rightarrow>
          (case after_char (CHR '']'') t of
             None \<Rightarrow> None
           | Some u \<Rightarrow>
               let num_digits = c_int32 (fst (c_strtol (upto_char (CHR '':'') s)));
                   suffix = (if u \<noteq> [] \<and> hd u \<noteq> CHR '','' then Some (upto_char (CHR '','') u) else None)
               in Some (num_digits, upto_char (CHR '']'') t, suffix, dropWhile (\<lambda>c. c \<noteq> CHR '','') u)))"

lemma split_range_shorter: "split_range s = Some (n, r, x, u) \<Longrightarrow> length u \<le> length s"
  by (auto simp: split_range_def Let_def split: option.splits dest!: after_char_shorter
      intro: order_trans[OF length_dropWhile_le])

lemma rest_shorter_le:
  assumes "rest = dropWhile P base" "rest \<noteq> []" "length u \<le> length (tl rest)"
  shows "length u < length base"
proof -
  have "base \<noteq> []" using assms(1,2) by auto
  then show ?thesis using assms rest_shorter[of base P] by simp
qed

function extract_loop :: "string \<Rightarrow> argv \<Rightarrow> opal_err option \<times> argv" where
  "extract_loop base names =
     (let head = takeWhile (\<lambda>c. c \<noteq> CHR ''['' \<and> c \<noteq> CHR '','') base;
          rest = dropWhile (\<lambda>c. c \<noteq> CHR ''['' \<and> c \<noteq> CHR '','') base
      in if rest \<noteq> [] \<and> hd rest = CHR ''[''
         then (case split_range (tl rest) of
                 None \<Rightarrow> (Some OPAL_ERR_BAD_PARAM, names)
               | Some (num_digits, ranges, suffix, u) \<Rightarrow>
                   (case regex_parse_node_ranges head ranges num_digits suffix names of
                      (Some e, names) \<Rightarrow> (Some e, names)
                    | (None, names) \<Rightarrow> if u = [] then (None, names) else extract_loop (tl u) names))
         else if head = [] then (Some OPAL_ERR_BAD_PARAM, names)
         else if rest = [] then (None, opal_argv_append_nosize names head)
         else extract_loop (tl rest) (opal_argv_append_nosize names head))"
  by pat_completeness auto

termination
proof (relation "measure (\<lambda>(base, _). length base)", goal_cases)
  case (2 base names head rest t num_digits t1 ranges t2 suffix u r names1)
  then have "split_range (tl rest) = Some (num_digits, ranges, suffix, u)" by simp
  then have "length u \<le> length (tl rest)" by (rule split_range_shorter)
  moreover have "rest \<noteq> []" using 2(3) by (rule conjunct1)
  ultimately have "length u < length base" using rest_shorter_le[OF 2(2)] by blast
  then show ?case by simp
next
  case (3 base names head rest)
  then have "length (tl rest) < length base" by (intro rest_shorter_le[of rest]) auto
  then show ?case by simp
qed simp

declare extract_loop.simps [simp del]

definition orte_regex_extract_node_names :: "string option \<Rightarrow> argv \<Rightarrow> opal_err option \<times> argv" where
  "orte_regex_extract_node_names regexp names =
     (case regexp of None \<Rightarrow> (None, None) | Some r \<Rightarrow> extract_loop r names)"

section \<open>Processes per node\<close>

text \<open>
  \<open>4(x30),2\<close> stands for four processes on each of thirty nodes and two on the next.  The
  array has one element per node; elements past its end are dropped.
\<close>

lemma strtol_shorter: "length (snd (c_strtol s)) \<le> length s"
proof -
  have d: "length (dropWhile c_isdigit u) \<le> length u" and "length (tl u) \<le> length u" for u
    by (simp_all add: length_dropWhile_le)
  moreover have w: "length (dropWhile c_isspace s) \<le> length s" by (rule length_dropWhile_le)
  ultimately have "length (dropWhile c_isdigit (tl (dropWhile c_isspace s))) \<le> length s"
    by (meson order_trans)
  moreover have "length (dropWhile c_isdigit (dropWhile c_isspace s)) \<le> length s"
    using d w by (meson order_trans)
  ultimately show ?thesis by (auto simp: c_strtol_def Let_def)
qed

definition ppn_item :: "string \<Rightarrow> int \<times> int \<times> string" where
  "ppn_item begptr =
     (let (procs, endptr) = c_strtol begptr
      in if take 2 endptr = ''(x''
         then let (reps, endptr) = c_strtol (drop 2 endptr)
              in (c_int32 procs, c_int32 reps, if take 1 endptr = '')'' then tl endptr else endptr)
         else (c_int32 procs, 1, endptr))"

lemma ppn_item_shorter: "ppn_item s = (c, r, e) \<Longrightarrow> length e \<le> length s"
  using strtol_shorter[of s] strtol_shorter[of "drop 2 (snd (c_strtol s))"]
  by (auto simp: ppn_item_def Let_def split: prod.splits if_splits)

lemma tl_shorter: "length b \<le> length a \<Longrightarrow> b \<noteq> [] \<Longrightarrow> length b - Suc 0 < length a"
  by (cases b) auto

lemma take_comma_length: "take (Suc 0) e = '','' \<Longrightarrow> 0 < length e"
  by (cases e) auto

function ppn_loop :: "string \<Rightarrow> nat \<Rightarrow> int list \<Rightarrow> nat \<Rightarrow> opal_err + int list" where
  "ppn_loop begptr num_nodes tmp j =
     (case ppn_item begptr of (procs, reps, endptr) \<Rightarrow>
        let n = min (nat reps) (num_nodes - j); tmp = store_from j (replicate n procs) tmp
        in if take 1 endptr = '','' then ppn_loop (tl endptr) num_nodes tmp (j + n)
           else if endptr = [] \<or> j + n \<ge> num_nodes then Inr tmp
           else Inl OPAL_ERR_BAD_PARAM)"
  by pat_completeness auto
termination
  by (relation "measure (\<lambda>(begptr, _). length begptr)")
    (auto dest!: ppn_item_shorter[OF sym] take_comma_length intro: tl_shorter)

declare ppn_loop.simps [simp del]

definition orte_regex_extract_ppn :: "int \<Rightarrow> string \<Rightarrow> opal_err + int list" where
  "orte_regex_extract_ppn num_nodes regexp =
     (if num_nodes < 0 then Inl OPAL_ERR_OUT_OF_RESOURCE
      else ppn_loop regexp (nat num_nodes) (replicate (nat num_nodes) 0) 0)"

section \<open>Ranges of letters\<close>

text \<open>
  \<^verbatim>\<open>for (c=rngs[i][0]; c <= rngs[i][2]; c++)\<close> with a signed \<^verbatim>\<open>char\<close>: up to the
  largest one it never ends.  A null character cuts the name that it is printed into.
\<close>

definition name_of_char :: "string \<Rightarrow> string \<Rightarrow> int \<Rightarrow> string" where
  "name_of_char pre post c = (if c = 0 then pre else pre @ [char_of (nat (c mod 256))] @ post)"

definition letters_names :: "string \<Rightarrow> string \<Rightarrow> string \<Rightarrow> opal_err + string list" where
  "letters_names pre post rng =
     (if length rng < 2 then Inl C_UNDEFINED
      else let c = signed_char (hd rng);
               stop = (if length rng = 2 then 0 else signed_char (rng ! 2))
           in if stop = 127 then Inl C_DIVERGES
              else Inr (map (name_of_char pre post) [c..stop]))"

fun name_ranges :: "string \<Rightarrow> string \<Rightarrow> string list \<Rightarrow> argv \<Rightarrow> opal_err option \<times> argv" where
  "name_ranges pre post [] names = (None, names)"
| "name_ranges pre post (rng # rngs) names =
     (if CHR ''-'' \<notin> set rng
      then name_ranges pre post rngs (opal_argv_append_nosize names (pre @ rng @ post))
      else case letters_names pre post rng of
             Inl e \<Rightarrow> (Some e, names)
           | Inr ls \<Rightarrow> name_ranges pre post rngs (foldl opal_argv_append_nosize names ls))"

text \<open>
  The opening bracket is overwritten by a null before the closing one is looked for from the
  start of the string, so behind a prefix it is not found; a closing bracket within the prefix
  is taken instead.
\<close>

definition orte_regex_extract_name_range :: "string \<Rightarrow> argv \<Rightarrow> opal_err option \<times> argv" where
  "orte_regex_extract_name_range regexp names =
     (case after_char (CHR ''['') regexp of
        None \<Rightarrow> (None, opal_argv_append_nosize names regexp)
      | Some b \<Rightarrow>
          let tmp = (if upto_char (CHR ''['') regexp = [] then b else upto_char (CHR ''['') regexp)
          in (case c_strrchr tmp (CHR '']'') of
                None \<Rightarrow> (Some OPAL_ERR_BAD_PARAM, names)
              | Some (before, post) \<Rightarrow>
                  (let pre = (if upto_char (CHR ''['') regexp = [] then [] else before);
                       inner = (if upto_char (CHR ''['') regexp = [] then before else b)
                   in case opal_argv_split (Some inner) (CHR '','') of
                        None \<Rightarrow> (Some C_UNDEFINED, names)
                      | Some rngs \<Rightarrow> name_ranges pre post rngs names)))"

section \<open>The names an expression stands for\<close>

definition range_nums :: "orte_regex_range \<Rightarrow> nat list" where
  "range_nums rg = [nat (rg_start rg) ..< nat (rg_start rg + rg_cnt rg)]"

definition padded :: "nat \<Rightarrow> nat \<Rightarrow> string" where
  "padded d k = replicate (d - length (dec k)) (CHR ''0'') @ dec k"

definition text_or_none :: "string option \<Rightarrow> string" where
  "text_or_none s = (case s of None \<Rightarrow> [] | Some t \<Rightarrow> t)"

definition nodeid_name :: "orte_regex_node \<Rightarrow> nat \<Rightarrow> string" where
  "nodeid_name nd k =
     text_or_none (nd_prefix nd) @ padded (nat (nd_num_digits nd)) k @ text_or_none (nd_suffix nd)"

definition nodeid_nums :: "orte_regex_node \<Rightarrow> nat list" where
  "nodeid_nums nd = concat (map range_nums (nd_ranges nd))"

definition nodeid_names :: "orte_regex_node \<Rightarrow> string list" where
  "nodeid_names nd =
     (if nd_ranges nd = [] then [text_or_none (nd_prefix nd)] else map (nodeid_name nd) (nodeid_nums nd))"

definition names_of :: "orte_regex_node list \<Rightarrow> string list" where
  "names_of nodeids = concat (map nodeid_names nodeids)"

text \<open>The shape of the collected list: what the scan leaves there.\<close>

definition range_ok :: "orte_regex_range \<Rightarrow> bool" where
  "range_ok rg \<longleftrightarrow> 0 \<le> rg_start rg \<and> 1 \<le> rg_cnt rg \<and> rg_start rg + rg_cnt rg \<le> INT_MAX"

definition plain_text :: "string \<Rightarrow> bool" where
  "plain_text s \<longleftrightarrow> s \<noteq> [] \<and> CHR ''['' \<notin> set s \<and> CHR '','' \<notin> set s"

definition c_isalnum :: "char \<Rightarrow> bool" where
  "c_isalnum c \<longleftrightarrow> c_isalpha c \<or> c_isdigit c"

definition nodeid_ok :: "orte_regex_node \<Rightarrow> bool" where
  "nodeid_ok nd \<longleftrightarrow>
     (if nd_ranges nd = []
      then (case nd_prefix nd of None \<Rightarrow> False | Some p \<Rightarrow> plain_text p) \<and> nd_suffix nd = None
      else list_all c_isalpha (text_or_none (nd_prefix nd)) \<and> list_all c_isalnum (text_or_none (nd_suffix nd)) \<and>
           0 \<le> nd_num_digits nd \<and> nd_num_digits nd \<le> INT_MAX \<and> list_all range_ok (nd_ranges nd) \<and>
           list_all (\<lambda>k. int (length (dec k)) \<le> nd_num_digits nd) (nodeid_nums nd))"

text \<open>
  The names that survive: whole names free of brackets and commas, and letters, digits and
  letters again, with a number below the largest \<^verbatim>\<open>int\<close>.
\<close>

definition alpha_part :: "string \<Rightarrow> string" where
  "alpha_part s = takeWhile c_isalpha s"

definition digit_part :: "string \<Rightarrow> string" where
  "digit_part s = takeWhile c_isdigit (dropWhile c_isalpha s)"

definition rest_part :: "string \<Rightarrow> string" where
  "rest_part s = dropWhile c_isdigit (dropWhile c_isalpha s)"

definition node_name_ok :: "string \<Rightarrow> bool" where
  "node_name_ok s \<longleftrightarrow>
     plain_text s \<and> length (alpha_part s) < ORTE_MAX_NODE_PREFIX \<and>
     (list_ex (\<lambda>c. \<not> c_isalnum c) s \<or> digit_part s = [] \<or>
      (list_all c_isalpha (rest_part s) \<and> int (digits_value (digit_part s)) < INT_MAX \<and>
       int (length s) \<le> INT_MAX))"

lemma name_parts: "alpha_part s @ digit_part s @ rest_part s = s"
  by (simp add: alpha_part_def digit_part_def rest_part_def)

lemma alpha_part_alpha: "list_all c_isalpha (alpha_part s)"
  by (auto simp: alpha_part_def list_all_iff dest: set_takeWhileD)

lemma digit_part_digit: "list_all c_isdigit (digit_part s)"
  by (auto simp: digit_part_def list_all_iff dest: set_takeWhileD)

lemma no_digits_alpha:
  assumes "list_all c_isalnum s" "digit_part s = []"
  shows "alpha_part s = s"
proof (cases "dropWhile c_isalpha s")
  case Nil
  then show ?thesis using takeWhile_dropWhile_id[of c_isalpha s] by (simp add: alpha_part_def)
next
  case (Cons a l)
  then have "\<not> c_isalpha a" "a \<in> set s" using hd_dropWhile[of c_isalpha s] set_dropWhileD[of a c_isalpha s] by auto
  then show ?thesis using assms Cons by (auto simp: digit_part_def list_all_iff c_isalnum_def split: if_splits)
qed

section \<open>Scanning\<close>

lemma scan_alpha:
  "list_all c_isalpha p \<Longrightarrow> length prefix + length p \<le> ORTE_MAX_NODE_PREFIX \<Longrightarrow>
   scan_name (p @ r) i prefix (- 1) n = scan_name r (i + int (length p)) (prefix @ p) (- 1) n"
  by (induction p arbitrary: i prefix) (auto simp: algebra_simps)

lemma scan_digits:
  "list_all c_isdigit ds \<Longrightarrow> 0 \<le> st \<Longrightarrow>
   scan_name (ds @ r) i prefix st n = scan_name r (i + int (length ds)) prefix st (n + int (length ds))"
  by (induction ds arbitrary: i n) (auto simp: not_digit algebra_simps)

lemma scan_number:
  "list_all c_isdigit ds \<Longrightarrow> ds \<noteq> [] \<Longrightarrow> 0 \<le> i \<Longrightarrow>
   scan_name (ds @ r) i prefix (- 1) n = scan_name r (i + int (length ds)) prefix i (n + int (length ds))"
  by (cases ds) (auto simp: not_digit scan_digits algebra_simps)

lemma scan_suffix:
  "list_all c_isalnum x \<Longrightarrow> 0 \<le> st \<Longrightarrow>
   scan_name x i prefix st n = Some (False, prefix, st, n + int (length (filter c_isdigit x)))"
  by (induction x arbitrary: i n) (auto simp: c_isalnum_def not_digit algebra_simps)

lemma scan_special:
  "list_ex (\<lambda>c. \<not> c_isalnum c) s \<Longrightarrow>
   length prefix + length (takeWhile c_isalpha s) \<le> ORTE_MAX_NODE_PREFIX \<or> 0 \<le> st \<Longrightarrow> 0 \<le> i \<Longrightarrow>
   \<exists>p st' n'. scan_name s i prefix st n = Some (True, p, st', n')"
  by (induction s arbitrary: i prefix st n) (auto simp: c_isalnum_def)

text \<open>All digits of a name are counted, those behind further letters included.\<close>

definition compressible :: "string \<Rightarrow> bool" where
  "compressible s \<longleftrightarrow>
     list_all c_isalnum s \<and> digit_part s \<noteq> [] \<and> length (alpha_part s) < ORTE_MAX_NODE_PREFIX \<and>
     int (digits_value (digit_part s)) < INT_MAX \<and> int (length s) \<le> INT_MAX"

definition counted_digits :: "string \<Rightarrow> nat" where
  "counted_digits s = length (digit_part s) + length (filter c_isdigit (rest_part s))"

lemma parts_alnum: "list_all c_isalnum s \<Longrightarrow> list_all c_isalnum (rest_part s)"
  by (metis list_all_append name_parts)

lemma counted_digits_le: "counted_digits s \<le> length s"
proof -
  have "length (filter c_isdigit (rest_part s)) \<le> length (rest_part s)" by (rule length_filter_le)
  moreover have "length s = length (alpha_part s) + length (digit_part s) + length (rest_part s)"
    by (metis add.assoc length_append name_parts)
  ultimately show ?thesis unfolding counted_digits_def by linarith
qed

lemma scan_compressible:
  assumes "compressible s"
  shows "scan_name s 0 [] (- 1) 0 =
         Some (False, alpha_part s, int (length (alpha_part s)), int (counted_digits s))"
proof -
  have "list_all c_isalnum (rest_part s)" "length (alpha_part s) \<le> ORTE_MAX_NODE_PREFIX" "digit_part s \<noteq> []"
    using assms by (auto simp: compressible_def parts_alnum)
  then have "scan_name (alpha_part s @ digit_part s @ rest_part s) 0 [] (- 1) 0 =
    Some (False, alpha_part s, int (length (alpha_part s)), int (counted_digits s))"
    using alpha_part_alpha digit_part_digit
    by (simp add: scan_alpha scan_number scan_suffix counted_digits_def)
  then show ?thesis by (simp add: name_parts)
qed

section \<open>Collecting\<close>

lemma range_nums_single [simp]: "0 \<le> n \<Longrightarrow> range_nums \<lparr>rg_start = n, rg_cnt = 1\<rparr> = [nat n]"
  by (simp add: range_nums_def nat_add_distrib)

lemma range_nums_extend:
  "range_ok rg \<Longrightarrow> range_nums (rg\<lparr>rg_cnt := rg_cnt rg + 1\<rparr>) = range_nums rg @ [nat (rg_start rg + rg_cnt rg)]"
  by (simp add: range_nums_def range_ok_def add.assoc[symmetric] nat_add_distrib)

lemma add_to_ranges:
  assumes "rs \<noteq> []" "list_all range_ok rs" "0 \<le> n" "n < INT_MAX"
  shows "\<exists>rs'. add_to_ranges n rs = Inr rs' \<and> rs' \<noteq> [] \<and> list_all range_ok rs' \<and>
               concat (map range_nums rs') = concat (map range_nums rs) @ [nat n]"
proof -
  define rg where "rg = last rs"
  have rs: "rs = butlast rs @ [rg]" using assms(1) by (simp add: rg_def)
  have ok: "range_ok rg" "list_all range_ok (butlast rs)" using assms(1,2) rs
    by (auto simp: list_all_iff rg_def dest: in_set_butlastD)
  have "concat (map range_nums rs) = concat (map range_nums (butlast rs)) @ range_nums rg"
    by (subst rs) simp
  then show ?thesis
    using assms ok range_nums_extend[OF ok(1)]
    by (auto simp: add_to_ranges_def Let_def rg_def[symmetric] range_ok_def)
qed

lemma nodeid_names_update:
  assumes "nodeid_ok nd" "nd_ranges nd \<noteq> []" "rs \<noteq> []" "list_all range_ok rs"
    "concat (map range_nums rs) = nodeid_nums nd @ [k]" "int (length (dec k)) \<le> nd_num_digits nd"
  shows "nodeid_ok (nd\<lparr>nd_ranges := rs\<rparr>) \<and> nodeid_names (nd\<lparr>nd_ranges := rs\<rparr>) = nodeid_names nd @ [nodeid_name nd k]"
proof -
  have "nodeid_nums (nd\<lparr>nd_ranges := rs\<rparr>) = nodeid_nums nd @ [k]" using assms(5) by (simp add: nodeid_nums_def)
  then show ?thesis using assms by (simp add: nodeid_ok_def nodeid_names_def nodeid_name_def)
qed

text \<open>What adding one name to the list must do.\<close>

definition adds_name :: "string \<Rightarrow> orte_regex_node list \<Rightarrow> opal_err + orte_regex_node list \<Rightarrow> bool" where
  "adds_name s ids r \<longleftrightarrow>
     (case r of Inl e \<Rightarrow> False
      | Inr ids' \<Rightarrow> list_all nodeid_ok ids' \<and> mset (names_of ids') = add_mset s (mset (names_of ids)) \<and>
                   hd (names_of ids') = hd (names_of ids @ [s]))"

lemma names_of_simps [simp]:
  "names_of [] = []" "names_of (nd # ids) = nodeid_names nd @ names_of ids"
  "names_of (ids @ [nd]) = names_of ids @ nodeid_names nd"
  by (simp_all add: names_of_def)

lemma range_nums_nonempty: "range_ok rg \<Longrightarrow> range_nums rg \<noteq> []"
  by (auto simp: range_nums_def range_ok_def)

lemma nodeid_names_nonempty: "nodeid_ok nd \<Longrightarrow> nodeid_names nd \<noteq> []"
  by (cases "nd_ranges nd") (simp_all add: nodeid_ok_def nodeid_names_def nodeid_nums_def range_nums_nonempty)

lemma place_node:
  assumes "list_all nodeid_ok ids" "list_all c_isalpha p" "list_all c_isalnum x" "0 \<le> d" "d \<le> INT_MAX"
    "0 \<le> n" "n < INT_MAX" "int (length (dec (nat n))) \<le> d"
  shows "adds_name (p @ padded (nat d) (nat n) @ x) ids (place_node p (Some x) d n ids)"
  using assms(1)
proof (induction ids)
  case Nil
  let ?nd = "\<lparr>nd_prefix = (if p = [] then None else Some p), nd_suffix = Some x,
           nd_num_digits = d, nd_ranges = [\<lparr>rg_start = n, rg_cnt = 1\<rparr>]\<rparr>"
  have t: "text_or_none (nd_prefix ?nd) = p" "text_or_none (nd_suffix ?nd) = x" by (simp_all add: text_or_none_def)
  have nums: "nodeid_nums ?nd = [nat n]" using assms by (simp add: nodeid_nums_def)
  have "nodeid_ok ?nd" unfolding nodeid_ok_def t nums using assms by (simp add: range_ok_def)
  moreover have "nodeid_names ?nd = [p @ padded (nat d) (nat n) @ x]"
    unfolding nodeid_names_def nums by (simp add: nodeid_name_def text_or_none_def)
  ultimately show ?case by (simp add: adds_name_def)
next
  case (Cons nd ids)
  show ?case
  proof (cases "same_nodeid p (Some x) d nd")
    case True
    then have t: "text_or_none (nd_prefix nd) = p" "text_or_none (nd_suffix nd) = x" "nd_num_digits nd = d"
      by (auto simp: same_nodeid_def text_or_none_def split: if_splits)
    have nd: "nodeid_ok nd" "list_all nodeid_ok ids" using Cons.prems by simp_all
    then have rgs: "nd_ranges nd \<noteq> []" "list_all range_ok (nd_ranges nd)"
      using True by (auto simp: nodeid_ok_def same_nodeid_def split: if_splits)
    obtain rs where rs: "add_to_ranges n (nd_ranges nd) = Inr rs" "rs \<noteq> []" "list_all range_ok rs"
      "concat (map range_nums rs) = nodeid_nums nd @ [nat n]"
      using add_to_ranges[OF rgs assms(6,7)] by (auto simp: nodeid_nums_def)
    have "nodeid_ok (nd\<lparr>nd_ranges := rs\<rparr>) \<and>
          nodeid_names (nd\<lparr>nd_ranges := rs\<rparr>) = nodeid_names nd @ [p @ padded (nat d) (nat n) @ x]"
      using nodeid_names_update[OF nd(1) rgs(1) rs(2,3,4)] assms(8) t by (simp add: nodeid_name_def)
    then show ?thesis using True nd rs(1) nodeid_names_nonempty[OF nd(1)] by (simp add: adds_name_def hd_append)
  next
    case False
    then show ?thesis using Cons nodeid_names_nonempty[of nd]
      by (auto simp: adds_name_def hd_append split: sum.splits)
  qed
qed

lemma add_name_compressible:
  assumes "list_all nodeid_ok ids" "compressible s"
  shows "adds_name (alpha_part s @ padded (counted_digits s) (digits_value (digit_part s)) @ rest_part s) ids (add_name s ids)"
proof -
  let ?v = "digits_value (digit_part s)"
  have s: "list_all c_isalnum (rest_part s)" "int ?v < INT_MAX" "digit_part s \<noteq> []"
    "int (counted_digits s) \<le> INT_MAX" "length (alpha_part s) \<noteq> ORTE_MAX_NODE_PREFIX"
    using assms(2) counted_digits_le[of s] by (auto simp: compressible_def parts_alnum)
  have "length (dec ?v) \<le> length (digit_part s)"
    using pad_digits_value[of "digit_part s"] s(3) digit_part_digit by (simp add: list_all_iff)
  then have len: "int (length (dec ?v)) \<le> int (counted_digits s)" by (simp add: counted_digits_def)
  have "drop (length (alpha_part s)) s = digit_part s @ rest_part s"
    using name_parts[of s] by (metis append_eq_conv_conj)
  moreover have "rest_part s = [] \<or> \<not> c_isdigit (hd (rest_part s))"
    using hd_dropWhile[of c_isdigit "dropWhile c_isalpha s"] by (auto simp: rest_part_def)
  then have "c_strtol (digit_part s @ rest_part s) = (int ?v, rest_part s)"
    using s(2,3) digit_part_digit by (intro strtol_digits) (auto simp: list_all_iff INT_MAX_def)
  moreover have "c_int32 (int ?v) = int ?v" using s(2) by (simp add: INT_MAX_def)
  ultimately have "add_name s ids = place_node (alpha_part s) (Some (rest_part s)) (int (counted_digits s)) (int ?v) ids"
    using s(5) by (simp add: add_name_def scan_compressible[OF assms(2)])
  then show ?thesis
    using place_node[OF assms(1) alpha_part_alpha[of s] s(1), of "int (counted_digits s)" "int ?v"] s len by simp
qed

lemma add_name_whole:
  assumes "list_all nodeid_ok ids" "node_name_ok s" "list_ex (\<lambda>c. \<not> c_isalnum c) s \<or> digit_part s = []"
  shows "adds_name s ids (add_name s ids)"
proof -
  have "\<exists>f p st n. scan_name s 0 [] (- 1) 0 = Some (f, p, st, n) \<and> (f \<or> st < 0)"
  proof (cases "list_ex (\<lambda>c. \<not> c_isalnum c) s")
    case True
    then show ?thesis using scan_special[of s "[]" "- 1" 0 0] assms(2)
      by (fastforce simp: node_name_ok_def alpha_part_def)
  next
    case False
    then have "s = alpha_part s" using assms(3) by (simp add: no_digits_alpha list_ex_iff list_all_iff)
    moreover have "scan_name (alpha_part s @ []) 0 [] (- 1) 0 =
        scan_name [] (0 + int (length (alpha_part s))) ([] @ alpha_part s) (- 1) 0"
      using assms(2) by (intro scan_alpha alpha_part_alpha) (simp add: node_name_ok_def)
    ultimately show ?thesis by auto
  qed
  then show ?thesis using assms
    by (auto simp: add_name_def adds_name_def nodeid_ok_def nodeid_names_def text_or_none_def node_name_ok_def)
qed

lemma add_name:
  assumes "list_all nodeid_ok ids" "node_name_ok s"
  shows "adds_name s ids (add_name s ids)"
proof (cases "list_ex (\<lambda>c. \<not> c_isalnum c) s \<or> digit_part s = []")
  case True
  then show ?thesis using assms by (intro add_name_whole)
next
  case False
  then have *: "compressible s" "list_all c_isalpha (rest_part s)" "digit_part s \<noteq> []"
    using assms(2) by (auto simp: node_name_ok_def compressible_def list_ex_iff list_all_iff)
  have "filter c_isdigit (rest_part s) = []"
    using *(2) not_digit(2) by (auto simp: filter_empty_conv list_all_iff)
  then have "padded (counted_digits s) (digits_value (digit_part s)) = digit_part s"
    using pad_digits_value[of "digit_part s"] *(3) digit_part_digit
    by (simp add: padded_def counted_digits_def list_all_iff)
  then show ?thesis using add_name_compressible[OF assms(1) *(1)] name_parts[of s] by simp
qed

lemma gather_names:
  assumes "list_all node_name_ok ns" "list_all nodeid_ok ids"
  shows "\<exists>ids'. gather_names (separated (CHR '','') ns) ids = Inr ids' \<and> list_all nodeid_ok ids' \<and>
           mset (names_of ids') = mset (names_of ids) + mset ns \<and>
           (names_of ids @ ns \<noteq> [] \<longrightarrow> hd (names_of ids') = hd (names_of ids @ ns))"
  using assms
proof (induction "CHR '',''" ns arbitrary: ids rule: separated.induct)
  case 1
  then show ?case by (simp add: gather_names.simps[of "[]"])
next
  case (2 x)
  then have "x \<noteq> []" "CHR '','' \<notin> set x" by (simp_all add: node_name_ok_def plain_text_def)
  moreover obtain ids' where "add_name x ids = Inr ids'" "list_all nodeid_ok ids'"
    "mset (names_of ids') = add_mset x (mset (names_of ids))" "hd (names_of ids') = hd (names_of ids @ [x])"
    using add_name[of ids x] 2 by (auto simp: adds_name_def split: sum.splits)
  ultimately show ?case by (simp add: gather_names.simps[of x])
next
  case (3 x y ys)
  then have x: "x \<noteq> []" "CHR '','' \<notin> set x" by (simp_all add: node_name_ok_def plain_text_def)
  obtain ids1 where i1: "add_name x ids = Inr ids1" "list_all nodeid_ok ids1"
    "mset (names_of ids1) = add_mset x (mset (names_of ids))" "hd (names_of ids1) = hd (names_of ids @ [x])"
    using add_name[of ids x] 3(2,3) by (auto simp: adds_name_def split: sum.splits)
  obtain ids2 where i2: "gather_names (separated (CHR '','') (y # ys)) ids1 = Inr ids2" "list_all nodeid_ok ids2"
    "mset (names_of ids2) = mset (names_of ids1) + mset (y # ys)"
    "hd (names_of ids2) = hd (names_of ids1 @ y # ys)"
    using 3(1)[of ids1] 3(2) i1(2) by auto
  have "names_of ids1 \<noteq> []" using i1(3) by auto
  then have "hd (names_of ids2) = hd (names_of ids @ x # y # ys)"
    using i1(4) i2(4) by (simp add: hd_append)
  then show ?case using x i1 i2 by (simp add: gather_names.simps[of "x @ _"])
qed

section \<open>Writing the expression\<close>

definition range_piece :: "orte_regex_range \<Rightarrow> string" where
  "range_piece rg =
     (if rg_cnt rg = 1 then dec (nat (rg_start rg))
      else dec (nat (rg_start rg)) @ ''-'' @ dec (nat (rg_start rg + rg_cnt rg - 1)))"

definition nodeid_arg :: "orte_regex_node \<Rightarrow> string" where
  "nodeid_arg nd =
     (if nd_ranges nd = [] then text_or_none (nd_prefix nd)
      else text_or_none (nd_prefix nd) @ CHR ''['' # dec (nat (nd_num_digits nd)) @ CHR '':'' #
           separated (CHR '','') (map range_piece (nd_ranges nd)) @ CHR '']'' # text_or_none (nd_suffix nd))"

lemma ranges_text:
  "list_all range_ok rs \<Longrightarrow> ranges_text rs tmp = Inr (tmp @ concat (map (\<lambda>rg. range_piece rg @ '','') rs))"
  by (induction rs arbitrary: tmp) (auto simp: range_text_def range_piece_def range_ok_def dec_int_def)

lemma butlast_pieces:
  "ps \<noteq> [] \<Longrightarrow> butlast (tmp @ concat (map (\<lambda>p. p @ [d]) ps)) = tmp @ separated d ps"
proof (induction d ps arbitrary: tmp rule: separated.induct)
  case (3 d x y ys)
  then show ?case using 3(1)[of "tmp @ x @ [d]"] by simp
qed (simp_all add: butlast_append)

lemma nodeids_args:
  "list_all nodeid_ok ids \<Longrightarrow> nodeids_args ids args = Inr (foldl opal_argv_append_nosize args (map nodeid_arg ids))"
proof (induction ids arbitrary: args)
  case (Cons nd ids)
  show ?case
  proof (cases "nd_ranges nd = []")
    case True
    then obtain p where "nd_prefix nd = Some p" using Cons.prems by (auto simp: nodeid_ok_def split: option.splits)
    then show ?thesis using True Cons by (simp add: nodeid_arg_def text_or_none_def)
  next
    case False
    then have ok: "list_all range_ok (nd_ranges nd)" "0 \<le> nd_num_digits nd"
      using Cons.prems by (simp_all add: nodeid_ok_def)
    let ?pre = "text_or_none (nd_prefix nd) @ ''['' @ dec_int (nd_num_digits nd) @ '':''"
    have "butlast (?pre @ concat (map (\<lambda>rg. range_piece rg @ '','') (nd_ranges nd))) =
          ?pre @ separated (CHR '','') (map range_piece (nd_ranges nd))"
      using butlast_pieces[of "map range_piece (nd_ranges nd)" ?pre "CHR '',''"] False by (simp add: o_def)
    then show ?thesis
      using False Cons ok ranges_text[OF ok(1), of ?pre]
      by (simp add: nodeid_arg_def dec_int_def text_or_none_def)
  qed
qed simp

section \<open>Reading the expression\<close>

lemma put_digits:
  "k \<le> length tmp \<Longrightarrow> length tmp \<le> length str \<Longrightarrow>
   put_digits k tmp str = take (length str - k) str @ drop (length tmp - k) tmp"
proof (induction k)
  case (Suc k)
  have "take (length str - k) str = take (length str - Suc k) str @ [str ! (length str - Suc k)]"
    using Suc.prems take_Suc_conv_app_nth[of "length str - Suc k" str] by (simp add: Suc_diff_Suc)
  moreover have "drop (length tmp - Suc k) tmp = tmp ! (length tmp - Suc k) # drop (length tmp - k) tmp"
    using Suc.prems Cons_nth_drop_Suc[of "length tmp - Suc k" tmp] by (simp add: Suc_diff_Suc)
  ultimately show ?case using Suc by (simp add: list_update_append)
qed simp

lemma node_name:
  assumes "0 \<le> d" "int (length (dec k)) \<le> d"
  shows "node_name base d sfx k = Some (base @ padded (nat d) k @ text_or_none sfx)"
proof -
  have "length (dec k) \<le> nat d" using assms by simp
  then show ?thesis using assms(1)
    by (simp add: node_name_def Let_def put_digits padded_def text_or_none_def)
qed

lemma emit_names:
  "0 \<le> d \<Longrightarrow> list_all (\<lambda>k. int (length (dec k)) \<le> d) [i..<i + n] \<Longrightarrow>
   emit_names base d sfx i n names =
     (None, foldl opal_argv_append_nosize names
              (map (\<lambda>k. base @ padded (nat d) k @ text_or_none sfx) [i..<i + n]))"
proof (induction n arbitrary: i names)
  case (Suc n)
  have "[i..<i + Suc n] = i # [Suc i..<Suc i + n]" by (subst upt_conv_Cons) simp_all
  then show ?case using Suc by (simp del: upt_Suc add: node_name)
qed simp

lemma list_all_digits [simp]: "list_all c_isdigit (dec n)"
  by (auto simp: list_all_iff dest: dec_isdigit)

lemma drop_digits:
  "dropWhile (\<lambda>c. \<not> c_isdigit c) (dec n @ r) = dec n @ r"
  "r = [] \<or> \<not> c_isdigit (hd r) \<Longrightarrow> dropWhile c_isdigit (dec n @ r) = r"
proof -
  have "c_isdigit (hd (dec n))" using dec_isdigit[of "hd (dec n)" n] by simp
  then show "dropWhile (\<lambda>c. \<not> c_isdigit c) (dec n @ r) = dec n @ r"
    by (cases "dec n") (simp_all add: dec_nonempty[of n, simplified])
  show "r = [] \<or> \<not> c_isdigit (hd r) \<Longrightarrow> dropWhile c_isdigit (dec n @ r) = r"
    using dec_isdigit by (cases r) (auto simp: dropWhile_append)
qed

lemma dec_has_digit: "\<exists>c \<in> set (dec n). c_isdigit c"
  using dec_isdigit[of "hd (dec n)" n] by (intro bexI[of _ "hd (dec n)"]) simp_all

lemma strtol_dec:
  "r = [] \<or> \<not> c_isdigit (hd r) \<Longrightarrow> int n < 2 ^ 63 \<Longrightarrow> c_strtol (dec n @ r) = (int n, r)"
  using strtol_digits[of "dec n" r] by (auto dest: dec_isdigit)

lemma parse_node_range:
  assumes "range_ok rg" "0 \<le> d" "list_all (\<lambda>k. int (length (dec k)) \<le> d) (range_nums rg)"
  shows "regex_parse_node_range base (range_piece rg) d sfx names =
         (None, foldl opal_argv_append_nosize names
                  (map (\<lambda>k. base @ padded (nat d) k @ text_or_none sfx) (range_nums rg)))"
proof -
  obtain a n where rg: "rg_start rg = int a" "rg_cnt rg = int (Suc n)" "int (a + Suc n) \<le> INT_MAX"
    using assms(1) zero_le_imp_eq_int[of "rg_start rg"] zero_le_imp_eq_int[of "rg_cnt rg - 1"]
    by (auto simp: range_ok_def) (metis add.commute add_diff_cancel_left' diff_add_cancel of_nat_Suc)
  have nums: "range_nums rg = [a..<a + Suc n]" using rg by (simp add: range_nums_def nat_add_distrib)
  let ?t = "if n = 0 then [] else CHR ''-'' # dec (a + n)"
  have piece: "range_piece rg = dec a @ ?t"
    using rg by (simp add: range_piece_def nat_add_distrib)
  have t: "?t = [] \<or> \<not> c_isdigit (hd ?t)" by (simp add: not_digit)
  have "fst (c_strtol (dec a @ ?t)) = int a"
    using strtol_dec[OF t, of a] rg(3) by (simp add: INT_MAX_def)
  moreover have "range_end a ?t = Some (a + n)"
    using drop_digits(1)[of "a + n" "[]"] strtol_dec[of "[]" "a + n"] rg(3) dec_has_digit[of "a + n"]
    by (simp add: range_end_def Let_def not_digit INT_MAX_def nat_add_distrib)
  moreover have "Suc (a + n) - a = Suc n" by simp
  moreover have "dropWhile (\<lambda>c. \<not> c_isdigit c) (dec a @ ?t) = dec a @ ?t" "dropWhile c_isdigit (dec a @ ?t) = ?t"
    using drop_digits(1)[of a ?t] drop_digits(2)[OF t] by simp_all
  ultimately show ?thesis
    using assms(2,3) rg(3) unfolding regex_parse_node_range_def piece Let_def nums
    by (simp del: upt_Suc emit_names.simps add: emit_names[where n = "Suc n"] split: option.split)
qed

lemma piece_chars: "c \<in> set (range_piece rg) \<Longrightarrow> c_isdigit c \<or> c = CHR ''-''"
  by (auto simp: range_piece_def split: if_splits dest: dec_isdigit)

lemma separated_chars: "c \<in> set (separated d ps) \<Longrightarrow> c = d \<or> (\<exists>p \<in> set ps. c \<in> set p)"
  by (induction d ps rule: separated.induct) auto

lemma parse_node_ranges:
  assumes "list_all range_ok rs" "0 \<le> d" "list_all (\<lambda>k. int (length (dec k)) \<le> d) (concat (map range_nums rs))"
  shows "regex_parse_node_ranges base (separated (CHR '','') (map range_piece rs)) d sfx names =
         (None, foldl opal_argv_append_nosize names
                  (map (\<lambda>k. base @ padded (nat d) k @ text_or_none sfx) (concat (map range_nums rs))))"
  using assms(1,3)
proof (induction rs arbitrary: names)
  case Nil
  then show ?case by (simp add: regex_parse_node_ranges.simps[of _ "[]"] after_char_def)
next
  case (Cons rg rs)
  have c: "CHR '','' \<notin> set (range_piece rg)" using piece_chars[of "CHR '',''" rg] by (auto simp: not_digit)
  have ne: "range_piece rg \<noteq> []" by (simp add: range_piece_def)
  have one: "regex_parse_node_range base (range_piece rg) d sfx names =
         (None, foldl opal_argv_append_nosize names
                  (map (\<lambda>k. base @ padded (nat d) k @ text_or_none sfx) (range_nums rg)))"
    using Cons.prems assms(2) by (intro parse_node_range) simp_all
  show ?case
  proof (cases rs)
    case Nil
    then show ?thesis using c ne one by (simp add: regex_parse_node_ranges.simps[of _ "range_piece rg"])
  next
    case (Cons r rs')
    then show ?thesis
      using c one Cons.IH Cons.prems by (simp add: regex_parse_node_ranges.simps[of _ "range_piece rg @ _"])
  qed
qed

lemma head_cut:
  assumes "CHR ''['' \<notin> set p" "CHR '','' \<notin> set p" "t = [] \<or> hd t \<in> {CHR ''['', CHR '',''}"
  shows "takeWhile (\<lambda>c. c \<noteq> CHR ''['' \<and> c \<noteq> CHR '','') (p @ t) = p"
    "dropWhile (\<lambda>c. c \<noteq> CHR ''['' \<and> c \<noteq> CHR '','') (p @ t) = t"
  using assms by (cases t; auto simp: takeWhile_append dropWhile_append takeWhile_eq_all_conv)+

lemma alpha_alnum: "list_all c_isalpha p \<Longrightarrow> list_all c_isalnum p"
  by (auto simp: list_all_iff c_isalnum_def)

lemma alnum_plain: "list_all c_isalnum p \<Longrightarrow> CHR ''['' \<notin> set p \<and> CHR '','' \<notin> set p"
  by (auto simp: list_all_iff c_isalnum_def c_isalpha_def c_isdigit_def char_code_def)

lemma split_range:
  assumes "0 \<le> d" "d \<le> INT_MAX" "CHR '']'' \<notin> set rs" "list_all c_isalnum x" "t = [] \<or> hd t = CHR '',''"
  shows "split_range (dec (nat d) @ CHR '':'' # rs @ CHR '']'' # x @ t) =
         Some (d, rs, if x = [] then None else Some x, t)"
proof -
  have "CHR '':'' \<notin> set (dec (nat d))" using dec_isdigit[of "CHR '':''" "nat d"] not_digit(8) by blast
  moreover have "c_int32 (fst (c_strtol (dec (nat d)))) = d"
    using strtol_dec[of "[]" "nat d"] assms(1,2) by (simp add: INT_MAX_def)
  moreover have "upto_char (CHR '','') (x @ t) = x" "dropWhile (\<lambda>c. c \<noteq> CHR '','') (x @ t) = t"
    using assms(4,5) alnum_plain[OF assms(4)]
    by (cases t; auto simp: upto_char_def takeWhile_append dropWhile_append takeWhile_eq_all_conv)+
  moreover have "x \<noteq> [] \<Longrightarrow> hd (x @ t) \<noteq> CHR '',''" using alnum_plain[OF assms(4)] by (cases x) auto
  ultimately show ?thesis using assms(3,5) by (auto simp: split_range_def Let_def)
qed

lemma extract_plain:
  assumes "plain_text p" "t = [] \<or> hd t = CHR '',''"
  shows "extract_loop (p @ t) names =
         (if t = [] then (None, opal_argv_append_nosize names p) else extract_loop (tl t) (opal_argv_append_nosize names p))"
proof -
  have "takeWhile (\<lambda>c. c \<noteq> CHR ''['' \<and> c \<noteq> CHR '','') (p @ t) = p"
    "dropWhile (\<lambda>c. c \<noteq> CHR ''['' \<and> c \<noteq> CHR '','') (p @ t) = t"
    using assms by (intro head_cut; auto simp: plain_text_def)+
  then have "extract_loop (p @ t) names =
      (if t \<noteq> [] \<and> hd t = CHR ''['' then undefined
       else if p = [] then (Some OPAL_ERR_BAD_PARAM, names)
       else if t = [] then (None, opal_argv_append_nosize names p)
       else extract_loop (tl t) (opal_argv_append_nosize names p))"
    using assms(2) by (subst extract_loop.simps) (auto simp: Let_def)
  then show ?thesis using assms by (auto simp: plain_text_def)
qed

lemma extract_arg:
  assumes "nodeid_ok nd" "t = [] \<or> hd t = CHR '',''"
  shows "extract_loop (nodeid_arg nd @ t) names =
         (if t = [] then (None, foldl opal_argv_append_nosize names (nodeid_names nd))
          else extract_loop (tl t) (foldl opal_argv_append_nosize names (nodeid_names nd)))"
proof (cases "nd_ranges nd = []")
  case True
  then have "plain_text (text_or_none (nd_prefix nd))"
    using assms(1) by (auto simp: nodeid_ok_def text_or_none_def split: option.splits)
  then show ?thesis using True assms(2) by (simp add: nodeid_arg_def nodeid_names_def extract_plain)
next
  case False
  let ?p = "text_or_none (nd_prefix nd)" and ?x = "text_or_none (nd_suffix nd)"
  let ?rs = "separated (CHR '','') (map range_piece (nd_ranges nd))"
  let ?t = "CHR ''['' # dec (nat (nd_num_digits nd)) @ CHR '':'' # ?rs @ CHR '']'' # ?x @ t"
  let ?sfx = "if ?x = [] then None else Some ?x"
  have ok: "list_all c_isalpha ?p" "list_all c_isalnum ?x" "0 \<le> nd_num_digits nd" "nd_num_digits nd \<le> INT_MAX"
    "list_all range_ok (nd_ranges nd)" "list_all (\<lambda>k. int (length (dec k)) \<le> nd_num_digits nd) (nodeid_nums nd)"
    using assms(1) False by (simp_all add: nodeid_ok_def)
  have "CHR '']'' \<notin> set ?rs"
    using separated_chars[of "CHR '']''" "CHR '',''" "map range_piece (nd_ranges nd)"] piece_chars[of "CHR '']''"] by (auto simp: not_digit)
  then have split: "split_range (tl ?t) = Some (nd_num_digits nd, ?rs, ?sfx, t)"
    using split_range[OF ok(3,4) _ ok(2) assms(2), of ?rs] by simp
  have "nodeid_arg nd @ t = ?p @ ?t" using False by (simp add: nodeid_arg_def)
  moreover have "text_or_none ?sfx = ?x" by (simp add: text_or_none_def)
  then have "regex_parse_node_ranges ?p ?rs (nd_num_digits nd) ?sfx names =
      (None, foldl opal_argv_append_nosize names (nodeid_names nd))"
    using parse_node_ranges[OF ok(5,3), of ?p ?sfx names] ok(6) False
    by (simp add: nodeid_names_def nodeid_nums_def nodeid_name_def[abs_def])
  ultimately show ?thesis
    using split head_cut[of ?p ?t] alnum_plain[of ?p] alpha_alnum[OF ok(1)] by (simp add: extract_loop.simps[of "?p @ ?t"])
qed

lemma extract_args:
  "list_all nodeid_ok ids \<Longrightarrow> ids \<noteq> [] \<Longrightarrow>
   extract_loop (separated (CHR '','') (map nodeid_arg ids)) names =
     (None, foldl opal_argv_append_nosize names (names_of ids))"
proof (induction ids arbitrary: names)
  case (Cons nd ids)
  show ?case
  proof (cases ids)
    case Nil
    then show ?thesis using Cons.prems extract_arg[of nd "[]"] by simp
  next
    case (Cons n ns)
    then show ?thesis
      using Cons.IH Cons.prems extract_arg[of nd "CHR '','' # separated (CHR '','') (map nodeid_arg ids)"] by simp
  qed
qed simp

section \<open>Process counts\<close>

definition ppn_text :: "nat \<times> nat \<Rightarrow> string" where
  "ppn_text cr = dec (fst cr) @ ''(x'' @ dec (snd cr) @ '')''"

definition ppn_values :: "(nat \<times> nat) list \<Rightarrow> int list" where
  "ppn_values items = concat (map (\<lambda>(c, r). replicate r (int c)) items)"

lemma ppn_item:
  assumes "int c \<le> INT_MAX" "int r \<le> INT_MAX"
  shows "ppn_item (ppn_text (c, r) @ t) = (int c, int r, t)"
proof -
  have "\<not> c_isdigit (CHR ''('')" "\<not> c_isdigit (CHR '')'')" by (simp_all add: c_isdigit_def char_code_def)
  then have "c_strtol (dec c @ ''(x'' @ dec r @ '')'' @ t) = (int c, ''(x'' @ dec r @ '')'' @ t)"
    "c_strtol (dec r @ '')'' @ t) = (int r, '')'' @ t)"
    using assms by (intro strtol_dec; simp add: INT_MAX_def)+
  then show ?thesis using assms by (simp add: ppn_item_def ppn_text_def Let_def INT_MAX_def)
qed

lemma fill_counts:
  fixes c :: int
  assumes "j = min n (length vs)" "m = min r (n - j)"
  shows "store_from j (replicate m c) (take n (vs @ replicate n 0)) = take n (vs @ replicate r c @ replicate n 0) \<and>
         j + m = min n (length (vs @ replicate r c))"
proof (cases "n \<le> length vs")
  case False
  then have j: "j = length vs" and tmp: "take n (vs @ replicate n 0) = vs @ replicate (n - j) 0"
    using assms(1) by (simp_all add: min_def)
  have m: "j + m \<le> n" using assms by simp
  have "store_from j (replicate m c) (vs @ replicate (n - j) 0) = vs @ replicate m c @ replicate (n - j - m) 0"
    using m j by (subst store_from) simp_all
  moreover have "take n (vs @ replicate r c @ replicate n 0) = vs @ replicate m c @ replicate (n - j - m) 0"
    using False j m assms(2) by (simp add: min_def)
  ultimately show ?thesis using j tmp assms False by auto
qed (use assms in auto)

lemma ppn_loop:
  assumes "items \<noteq> []" "list_all (\<lambda>(c, r). int c \<le> INT_MAX \<and> int r \<le> INT_MAX) items"
  shows "ppn_loop (separated (CHR '','') (map ppn_text items)) n (take n (vs @ replicate n 0)) (min n (length vs)) =
         Inr (take n (vs @ ppn_values items @ replicate n 0))"
  using assms
proof (induction items arbitrary: vs)
  case (Cons cr items)
  obtain c r where cr: "cr = (c, r)" by (cases cr)
  have item: "ppn_item (ppn_text cr @ t) = (int c, int r, t)" for t using Cons.prems by (simp add: cr ppn_item)
  let ?m = "min r (n - min n (length vs))"
  have fill: "store_from (min n (length vs)) (replicate ?m (int c)) (take n (vs @ replicate n 0)) =
      take n ((vs @ replicate r (int c)) @ replicate n 0)"
    "min n (length vs) + ?m = min n (length (vs @ replicate r (int c)))"
    using fill_counts[of "min n (length vs)" n vs ?m r "int c"] by simp_all
  show ?case
  proof (cases items)
    case Nil
    then show ?thesis using item[of "[]"] fill
      by (simp add: ppn_loop.simps[of "ppn_text (c, r)"] Let_def ppn_values_def cr)
  next
    case (Cons i items2)
    then have "ppn_loop (separated (CHR '','') (map ppn_text (cr # items))) n (take n (vs @ replicate n 0)) (min n (length vs)) =
        ppn_loop (separated (CHR '','') (map ppn_text items)) n (take n ((vs @ replicate r (int c)) @ replicate n 0))
          (min n (length (vs @ replicate r (int c))))"
      using item fill by (simp add: ppn_loop.simps[of "ppn_text cr @ _"] Let_def)
    then show ?thesis using Cons.IH[of "vs @ replicate r (int c)"] Cons.prems Cons
      by (simp add: ppn_values_def cr)
  qed
qed simp

lemma regex_expands:
  assumes "ns \<noteq> []" "list_all node_name_ok ns"
  shows "\<exists>regexp left names.
           orte_regex_create (separated (CHR '','') ns) = Inr (regexp, left) \<and>
           orte_regex_extract_node_names (Some regexp) None = (None, Some names) \<and>
           mset names = mset ns \<and> hd names = hd ns"
proof (cases "length ns = 1")
  case True
  then obtain x where ns: "ns = [x]" by (auto simp: length_Suc_conv)
  then have "plain_text x" using assms by (simp add: node_name_ok_def)
  then have "extract_loop x None = (None, Some [x])" using extract_plain[of x "[]"] by simp
  moreover have "after_char (CHR '','') x = None" using \<open>plain_text x\<close> by (simp add: plain_text_def)
  ultimately show ?thesis
    by (simp add: ns argv_join orte_regex_create_def orte_regex_extract_node_names_def)
next
  case False
  then obtain x y ys where ns: "ns = x # y # ys" using assms(1) by (cases ns; cases "tl ns") auto
  have "CHR '','' \<notin> set x" using assms(2) ns by (simp add: node_name_ok_def plain_text_def)
  then have comma: "after_char (CHR '','') (separated (CHR '','') ns) \<noteq> None" by (simp add: ns)
  obtain ids where ids: "gather_names (separated (CHR '','') ns) [] = Inr ids" "list_all nodeid_ok ids"
    "mset (names_of ids) = mset ns" "hd (names_of ids) = hd ns"
    using gather_names[of ns "[]"] assms by auto
  have "ids \<noteq> []" using ids(3) assms(1) by (auto simp: names_of_def)
  then have args: "foldl opal_argv_append_nosize None (map nodeid_arg ids) = Some (map nodeid_arg ids)"
    by (simp add: append_all_None)
  have "names_of ids \<noteq> []" using ids(3) assms(1) by auto
  then have "extract_loop (separated (CHR '','') (map nodeid_arg ids)) None = (None, Some (names_of ids))"
    using extract_args[OF ids(2) \<open>ids \<noteq> []\<close>] by (simp add: append_all_None)
  then show ?thesis
    using comma ids args
    by (auto simp: argv_join orte_regex_create_def nodeids_args orte_regex_extract_node_names_def)
qed

section \<open>Interface\<close>

text \<open>
  What users of node expressions rely on: a list of acceptable names becomes an expression that
  expands to these names, and a single name is an expression for itself.
\<close>

locale node_expressions =
  fixes create :: "string \<Rightarrow> opal_err + string \<times> string"
    and expand :: "string option \<Rightarrow> argv \<Rightarrow> opal_err option \<times> argv"
    and name_ok :: "string \<Rightarrow> bool"
  assumes expands: "ns \<noteq> [] \<Longrightarrow> list_all name_ok ns \<Longrightarrow>
      \<exists>e left names. create (separated (CHR '','') ns) = Inr (e, left) \<and> expand (Some e) None = (None, Some names) \<and>
        mset names = mset ns \<and> hd names = hd ns"
    and single: "name_ok x \<Longrightarrow> expand (Some x) None = (None, Some [x])"
begin

text \<open>An expression is not mistaken for a word that is none of its names.\<close>

lemma expands_to:
  assumes "ns \<noteq> []" "list_all name_ok ns" "name_ok w" "w \<notin> set ns"
  obtains e left names where "create (separated (CHR '','') ns) = Inr (e, left)" "e \<noteq> w"
    "expand (Some e) None = (None, Some names)" "set names = set ns" "length names = length ns"
    "distinct names = distinct ns" "hd names = hd ns"
proof -
  obtain e left names where e: "create (separated (CHR '','') ns) = Inr (e, left)"
    "expand (Some e) None = (None, Some names)" "mset names = mset ns" "hd names = hd ns"
    using expands[OF assms(1,2)] by blast
  have names: "set names = set ns" "length names = length ns" "distinct names = distinct ns"
    using e(3) by (auto dest: mset_eq_setD mset_eq_length mset_eq_imp_distinct_iff)
  have "e \<noteq> w" using single[OF assms(3)] e(2) names(1) assms(4) by auto
  then show thesis using that e names by blast
qed

end

interpretation node_expr: node_expressions orte_regex_create orte_regex_extract_node_names node_name_ok
proof
  show "\<exists>e left names. orte_regex_create (separated (CHR '','') ns) = Inr (e, left) \<and>
      orte_regex_extract_node_names (Some e) None = (None, Some names) \<and> mset names = mset ns \<and> hd names = hd ns"
    if "ns \<noteq> []" "list_all node_name_ok ns" for ns using regex_expands[OF that] .
  show "orte_regex_extract_node_names (Some x) None = (None, Some [x])" if "node_name_ok x" for x
    using that extract_plain[of x "[]"] by (simp add: node_name_ok_def orte_regex_extract_node_names_def)
qed

section \<open>Properties\<close>

text \<open>
  C12: A node list survives the expression.  For every non-empty list of node names that are plain
  text or letters around a single number, joining them, making the expression and expanding it
  succeeds and gives the same names with the same multiplicities, the first one first.
\<close>

theorem regex_roundtrip:
  assumes "ns \<noteq> []" "list_all node_name_ok ns"
  shows "\<exists>nodelist regexp left names.
           opal_argv_join (Some ns) (CHR '','') = Inr nodelist \<and> orte_regex_create nodelist = Inr (regexp, left) \<and>
           orte_regex_extract_node_names (Some regexp) None = (None, Some names) \<and>
           mset names = mset ns \<and> hd names = hd ns"
  using regex_expands[OF assms] by (auto simp: argv_join)

lemma example_names_ok: "list_all node_name_ok [''node001'', ''node002'', ''login-a'', ''n7x'', ''node003'']"
  by (simp add: node_name_ok_def plain_text_def alpha_part_def digit_part_def rest_part_def c_isalpha_def
      c_isdigit_def c_isalnum_def char_code_def ORTE_MAX_NODE_PREFIX_def digits_value_def digit_value_def INT_MAX_def)

theorem regex_roundtrip_witness:
  "\<exists>nodelist regexp left names.
     opal_argv_join (Some [''node001'', ''node002'', ''login-a'', ''n7x'', ''node003'']) (CHR '','') = Inr nodelist \<and>
     orte_regex_create nodelist = Inr (regexp, left) \<and>
     orte_regex_extract_node_names (Some regexp) None = (None, Some names) \<and>
     mset names = mset [''node001'', ''node002'', ''login-a'', ''n7x'', ''node003''] \<and>
     hd names = hd [''node001'', ''node002'', ''login-a'', ''n7x'', ''node003'']"
  by (rule regex_roundtrip) (simp, rule example_names_ok)

text \<open>
  C32: Digits behind further letters corrupt a name.  All digits of the name are counted, but only the
  first group is the number, so the expansion pads the number with one zero for each of the
  other digits: the expression made for such a name stands for another node.
\<close>

theorem regex_second_number:
  assumes "compressible s" "list_ex c_isdigit (rest_part s)"
  shows "\<exists>regexp left name.
           orte_regex_create (s @ '',x'') = Inr (regexp, left) \<and>
           orte_regex_extract_node_names (Some regexp) None = (None, Some [name, ''x'']) \<and>
           name = alpha_part s @ replicate (length (filter c_isdigit (rest_part s))) (CHR ''0'') @ digit_part s @ rest_part s \<and>
           name \<noteq> s"
proof -
  define k where "k = length (filter c_isdigit (rest_part s))"
  define name where "name = alpha_part s @ padded (counted_digits s) (digits_value (digit_part s)) @ rest_part s"
  have s: "list_all c_isalnum s" "digit_part s \<noteq> []" using assms(1) by (auto simp: compressible_def)
  then have plain: "CHR '','' \<notin> set s" "s \<noteq> []"
    using alnum_plain[of s] by (auto simp: digit_part_def)
  have "padded (counted_digits s) (digits_value (digit_part s)) = replicate k (CHR ''0'') @ digit_part s"
    using pad_digits_value[of "digit_part s"] s(2) digit_part_digit
    by (simp add: padded_def counted_digits_def k_def list_all_iff)
      (metis Nat.add_diff_assoc2 add.commute append.assoc replicate_add)
  then have n: "name = alpha_part s @ replicate k (CHR ''0'') @ digit_part s @ rest_part s"
    by (simp add: name_def)
  have "k > 0" using assms(2) by (auto simp: k_def list_ex_iff filter_empty_conv)
  moreover have "length s = length (alpha_part s) + length (digit_part s) + length (rest_part s)"
    by (metis add.assoc length_append name_parts)
  ultimately have "length name \<noteq> length s" using n by simp
  then have "name \<noteq> s" by auto
  obtain ids1 where i1: "add_name s [] = Inr ids1" "list_all nodeid_ok ids1" "mset (names_of ids1) = {#name#}"
    using add_name_compressible[of "[]" s] assms(1) by (auto simp: adds_name_def name_def split: sum.splits)
  have "node_name_ok ''x''"
    by (simp add: node_name_ok_def plain_text_def alpha_part_def digit_part_def c_isalpha_def
        c_isdigit_def c_isalnum_def char_code_def ORTE_MAX_NODE_PREFIX_def)
  then obtain ids2 where i2: "gather_names ''x'' ids1 = Inr ids2" "list_all nodeid_ok ids2"
    "mset (names_of ids2) = {#name#} + {#''x''#}" "hd (names_of ids2) = name"
    using gather_names[of "[''x'']" ids1] i1 by auto
  have names: "names_of ids2 = [name, ''x'']"
    using i2(3,4) by (cases "names_of ids2") (auto simp: add_mset_eq_singleton_iff)
  have "gather_names (s @ '',x'') [] = Inr ids2"
    using plain i1(1) i2(1) by (simp add: gather_names.simps[of "s @ _"])
  moreover have "after_char (CHR '','') (s @ '',x'') \<noteq> None" using plain by simp
  moreover have "ids2 \<noteq> []" using names by auto
  then have "nodeids_args ids2 None = Inr (Some (map nodeid_arg ids2))"
    "extract_loop (separated (CHR '','') (map nodeid_arg ids2)) None = (None, Some [name, ''x''])"
    using i2(2) nodeids_args extract_args names by (simp_all add: append_all_None)
  ultimately show ?thesis using n \<open>name \<noteq> s\<close>
    by (auto simp: orte_regex_create_def argv_join orte_regex_extract_node_names_def k_def)
qed

theorem regex_second_number_witness:
  "\<exists>regexp left name.
     orte_regex_create (''r1n07'' @ '',x'') = Inr (regexp, left) \<and>
     orte_regex_extract_node_names (Some regexp) None = (None, Some [name, ''x'']) \<and>
     name = alpha_part ''r1n07'' @ replicate (length (filter c_isdigit (rest_part ''r1n07''))) (CHR ''0'') @
            digit_part ''r1n07'' @ rest_part ''r1n07'' \<and>
     name \<noteq> ''r1n07''"
  by (rule regex_second_number)
    (simp_all add: compressible_def c_isalpha_def c_isdigit_def c_isalnum_def char_code_def alpha_part_def
      digit_part_def rest_part_def ORTE_MAX_NODE_PREFIX_def digits_value_def digit_value_def INT_MAX_def)

text \<open>
  C33: A letter range behind a prefix is never expanded: the closing bracket is looked for after
  the string has been cut at the opening one, and the call fails with a bad parameter.
\<close>

theorem name_range_with_prefix:
  assumes "pre \<noteq> []" "CHR ''['' \<notin> set pre" "CHR '']'' \<notin> set pre"
  shows "orte_regex_extract_name_range (pre @ CHR ''['' # ranges) names = (Some OPAL_ERR_BAD_PARAM, names)"
  using assms by (simp add: orte_regex_extract_name_range_def c_strrchr_def)

theorem name_range_with_prefix_witness:
  "orte_regex_extract_name_range (''rack'' @ CHR ''['' # ''A-C]'') None = (Some OPAL_ERR_BAD_PARAM, None)"
  by (rule name_range_with_prefix) simp_all

text \<open>
  C34: Process counts are expanded in order: every item \<open>c(xr)\<close> gives \<open>r\<close> nodes
  \<open>c\<close> processes each, what exceeds the number of nodes is dropped, and nodes without an item get none.
\<close>

theorem ppn_expanded:
  assumes "items \<noteq> []" "list_all (\<lambda>(c, r). int c \<le> INT_MAX \<and> int r \<le> INT_MAX) items"
  shows "orte_regex_extract_ppn (int n) (separated (CHR '','') (map ppn_text items)) =
         Inr (take n (ppn_values items @ replicate n 0))"
  using ppn_loop[OF assms, of n "[]"] by (simp add: orte_regex_extract_ppn_def)

theorem ppn_expanded_witness:
  "orte_regex_extract_ppn (int 5) (separated (CHR '','') (map ppn_text [(4, 3), (2, 1)])) =
   Inr (take 5 (ppn_values [(4, 3), (2, 1)] @ replicate 5 0))"
  by (rule ppn_expanded) (simp_all add: INT_MAX_def)

end
