(* ===== verification/Pointer_Array.thy ===== *)
theory Pointer_Array
  imports Orcm_Prelude
begin

text \<open>
  The dynamic pointer table of \<^verbatim>\<open>opal/class/opal_pointer_array.c\<close> and
  \<^verbatim>\<open>.h\<close>.  It holds the node table and the topology table of the scheduler.
\<close>

section \<open>State\<close>

text \<open>
  \<^verbatim>\<open>addr\<close> is \<open>None\<close> before the first allocation; a slot is \<open>None\<close> when it
  holds the null pointer.  The lock of the C structure serialises the operations, each of
  which is one function here.
\<close>

record 'a opal_pointer_array =
  lowest_free :: int
  number_free :: int
  pa_size :: int
  max_size :: int
  block_size :: int
  addr :: "'a option list option"

definition opal_pointer_array_construct :: "'a opal_pointer_array" where
  "opal_pointer_array_construct =
     \<lparr>lowest_free = 0, number_free = 0, pa_size = 0, max_size = INT_MAX, block_size = 0,
      addr = None\<rparr>"

definition slots :: "'a opal_pointer_array \<Rightarrow> 'a option list" where
  "slots t = (case addr t of None \<Rightarrow> [] | Some xs \<Rightarrow> xs)"

section \<open>Operations\<close>

text \<open>
  The parameter \<open>heap\<close> says which allocation sizes (in bytes) the C heap grants.
  A returned error leaves the table as it was, except in \<open>opal_pointer_array_init\<close>.
\<close>

definition opal_pointer_array_init ::
  "(nat \<Rightarrow> bool) \<Rightarrow> 'a opal_pointer_array \<Rightarrow> int \<Rightarrow> int \<Rightarrow> int \<Rightarrow>
     opal_err option \<times> 'a opal_pointer_array" where
  "opal_pointer_array_init heap array initial_allocation maxs blk =
     (if maxs < blk then (Some OPAL_ERR_BAD_PARAM, array)
      else
        let n = (if 0 < initial_allocation then initial_allocation else blk);
            array = array\<lparr>max_size := maxs, block_size := blk, number_free := n, pa_size := n\<rparr>
        in if heap (sz_mul (to_size_t n) 8)
           then (None, array\<lparr>addr := Some (replicate (nat n) None)\<rparr>)
           else (Some OPAL_ERR_OUT_OF_RESOURCE, array\<lparr>addr := None\<rparr>))"

definition grow_table ::
  "(nat \<Rightarrow> bool) \<Rightarrow> 'a opal_pointer_array \<Rightarrow> int \<Rightarrow> int \<Rightarrow> 'a opal_pointer_array option" where
  "grow_table heap table soft hard =
     (if soft > max_size table \<and> hard > max_size table then None
      else
        let new_size = (if soft > max_size table then hard else soft)
        in if new_size \<ge> max_size table then None
           else if \<not> heap (sz_mul (to_size_t new_size) 8) then None
           else Some (table\<lparr>number_free := number_free table + (new_size - pa_size table),
                            addr := Some (resize (nat new_size) (slots table)),
                            pa_size := new_size\<rparr>))"

text \<open>An access outside the allocated slots has no defined outcome.\<close>

definition in_slots :: "'a opal_pointer_array \<Rightarrow> int \<Rightarrow> bool" where
  "in_slots t i \<longleftrightarrow> 0 \<le> i \<and> i < int (length (slots t))"

definition put_slot :: "'a opal_pointer_array \<Rightarrow> int \<Rightarrow> 'a option \<Rightarrow> 'a opal_pointer_array" where
  "put_slot t i v = t\<lparr>addr := Some ((slots t)[nat i := v])\<rparr>"

definition scan_free :: "'a opal_pointer_array \<Rightarrow> int \<Rightarrow> nat option" where
  "scan_free t i = find_null (drop (nat i) (take (nat (pa_size t)) (slots t))) (nat i)"

text \<open>\<open>opal_pointer_array_add\<close>: make room, store at the lowest free index, find the next one.\<close>

definition add_room ::
  "(nat \<Rightarrow> bool) \<Rightarrow> 'a opal_pointer_array \<Rightarrow> opal_err + 'a opal_pointer_array" where
  "add_room heap table =
     (if number_free table = 0 then
        if addr table \<noteq> None \<and> pa_size table * 2 > INT_MAX then Inl C_UNDEFINED
        else
          case grow_table heap table (if addr table = None then 1 else pa_size table * 2) INT_MAX of
            None \<Rightarrow> Inl OPAL_ERR_OUT_OF_RESOURCE
          | Some table' \<Rightarrow> Inr table'
      else Inr table)"

definition add_store :: "'a opal_pointer_array \<Rightarrow> 'a option \<Rightarrow> 'a opal_pointer_array" where
  "add_store table ptr =
     (let table = put_slot table (lowest_free table) ptr;
          table = table\<lparr>number_free := number_free table - 1\<rparr>
      in if number_free table > 0 then
           case scan_free table (lowest_free table + 1) of
             Some i \<Rightarrow> table\<lparr>lowest_free := int i\<rparr>
           | None \<Rightarrow> table
         else table\<lparr>lowest_free := pa_size table\<rparr>)"

definition opal_pointer_array_add ::
  "(nat \<Rightarrow> bool) \<Rightarrow> 'a opal_pointer_array \<Rightarrow> 'a option \<Rightarrow>
     opal_err + int \<times> 'a opal_pointer_array" where
  "opal_pointer_array_add heap table ptr =
     (case add_room heap table of
        Inl e \<Rightarrow> Inl e
      | Inr table \<Rightarrow>
          if \<not> in_slots table (lowest_free table) then Inl C_UNDEFINED
          else Inr (lowest_free table, add_store table ptr))"

text \<open>\<open>opal_pointer_array_set_item\<close>: make room for the index, update the bookkeeping, store.\<close>

definition set_room ::
  "(nat \<Rightarrow> bool) \<Rightarrow> 'a opal_pointer_array \<Rightarrow> int \<Rightarrow> 'a opal_pointer_array option" where
  "set_room heap table index =
     (if pa_size table \<le> index then grow_table heap table ((c_div index 2 + 1) * 2) index
      else Some table)"

definition set_store :: "'a opal_pointer_array \<Rightarrow> int \<Rightarrow> 'a option \<Rightarrow> 'a opal_pointer_array" where
  "set_store table index value =
     (let old = slots table ! nat index
      in put_slot
           (case value of
              None \<Rightarrow>
                table\<lparr>lowest_free := (if index < lowest_free table then index else lowest_free table),
                      number_free := (if old \<noteq> None then number_free table + 1 else number_free table)\<rparr>
            | Some _ \<Rightarrow>
                table\<lparr>number_free := (if old = None then number_free table - 1 else number_free table),
                      lowest_free :=
                        (if index = lowest_free table
                         then case scan_free table (index + 1) of Some i \<Rightarrow> int i | None \<Rightarrow> pa_size table
                         else lowest_free table)\<rparr>)
           index value)"

definition opal_pointer_array_set_item ::
  "(nat \<Rightarrow> bool) \<Rightarrow> 'a opal_pointer_array \<Rightarrow> int \<Rightarrow> 'a option \<Rightarrow>
     opal_err + 'a opal_pointer_array" where
  "opal_pointer_array_set_item heap table index value =
     (case set_room heap table index of
        None \<Rightarrow> Inl OPAL_ERROR
      | Some table \<Rightarrow>
          if \<not> in_slots table index then Inl C_UNDEFINED
          else Inr (set_store table index value))"

definition test_and_set_store :: "'a opal_pointer_array \<Rightarrow> int \<Rightarrow> 'a option \<Rightarrow> 'a opal_pointer_array" where
  "test_and_set_store table index value =
     (let table = put_slot table index value
      in table\<lparr>number_free := number_free table - 1,
               lowest_free :=
                 (if index = lowest_free table
                  then case scan_free table index of Some i \<Rightarrow> int i | None \<Rightarrow> pa_size table
                  else lowest_free table)\<rparr>)"

definition opal_pointer_array_test_and_set_item ::
  "(nat \<Rightarrow> bool) \<Rightarrow> 'a opal_pointer_array \<Rightarrow> int \<Rightarrow> 'a option \<Rightarrow>
     opal_err + bool \<times> 'a opal_pointer_array" where
  "opal_pointer_array_test_and_set_item heap table index value =
     (if index < 0 then Inl C_UNDEFINED
      else if index < pa_size table \<and> slots table ! nat index \<noteq> None then Inr (False, table)
      else
        case set_room heap table index of
          None \<Rightarrow> Inr (False, table)
        | Some table \<Rightarrow>
            if \<not> in_slots table index then Inl C_UNDEFINED
            else Inr (True, test_and_set_store table index value))"

definition opal_pointer_array_set_size ::
  "(nat \<Rightarrow> bool) \<Rightarrow> 'a opal_pointer_array \<Rightarrow> int \<Rightarrow> opal_err + 'a opal_pointer_array" where
  "opal_pointer_array_set_size heap array new_size =
     (if new_size > pa_size array then
        case grow_table heap array new_size new_size of
          None \<Rightarrow> Inl OPAL_ERROR
        | Some array' \<Rightarrow> Inr array'
      else Inr array)"

text \<open>Every caller indexes with a loop counter or a type code, so the index is a \<open>nat\<close>.\<close>

definition opal_pointer_array_get_item :: "'a opal_pointer_array \<Rightarrow> nat \<Rightarrow> 'a option" where
  "opal_pointer_array_get_item table i =
     (if pa_size table \<le> int i then None else slots table ! i)"

definition opal_pointer_array_remove_all :: "'a opal_pointer_array \<Rightarrow> 'a opal_pointer_array" where
  "opal_pointer_array_remove_all array =
     (if number_free array = pa_size array then array
      else array\<lparr>lowest_free := 0, number_free := pa_size array,
                 addr := Some (replicate (nat (pa_size array)) None)\<rparr>)"

text \<open>A client that stores a sequence of values, stopping at the first error.\<close>

fun put_all :: "('t \<Rightarrow> int \<Rightarrow> 'v \<Rightarrow> 'e + 't) \<Rightarrow> 't \<Rightarrow> (int \<times> 'v) list \<Rightarrow> 'e + 't" where
  "put_all put t [] = Inr t"
| "put_all put t ((i, v) # ws) = (case put t i v of Inl e \<Rightarrow> Inl e | Inr t' \<Rightarrow> put_all put t' ws)"

section \<open>The representation invariant\<close>

text \<open>
  The bookkeeping fields agree with the slots: \<^verbatim>\<open>size\<close> is their number,
  \<^verbatim>\<open>number_free\<close> counts the null ones, \<^verbatim>\<open>lowest_free\<close> is the index of the
  first null one (\<^verbatim>\<open>size\<close> when the table is full).
\<close>

definition pa_inv :: "'a opal_pointer_array \<Rightarrow> bool" where
  "pa_inv t \<longleftrightarrow> pa_size t = int (length (slots t)) \<and> number_free t = int (count_null (slots t))
      \<and> lowest_free t = int (first_free (slots t))"

named_theorems pa_simps

lemma slots_upd [pa_simps, simp]:
  "slots (t\<lparr>lowest_free := a\<rparr>) = slots t"
  "slots (t\<lparr>number_free := a\<rparr>) = slots t"
  "slots (t\<lparr>pa_size := a\<rparr>) = slots t"
  "slots (t\<lparr>max_size := a\<rparr>) = slots t"
  "slots (t\<lparr>block_size := a\<rparr>) = slots t"
  "slots (t\<lparr>addr := Some xs\<rparr>) = xs"
  "slots (t\<lparr>addr := None\<rparr>) = []"
  by (simp_all add: slots_def)

lemma put_slot_fields [pa_simps, simp]:
  "slots (put_slot t i v) = (slots t)[nat i := v]"
  "pa_size (put_slot t i v) = pa_size t"
  "number_free (put_slot t i v) = number_free t"
  "lowest_free (put_slot t i v) = lowest_free t"
  "max_size (put_slot t i v) = max_size t"
  "addr (put_slot t i v) \<noteq> None"
  by (simp_all add: put_slot_def)

lemma pa_inv_construct: "pa_inv opal_pointer_array_construct"
  by (simp add: pa_inv_def opal_pointer_array_construct_def slots_def first_free_def)

lemma pa_inv_init:
  assumes "opal_pointer_array_init heap array ini maxs blk = (None, t)"
    and "lowest_free array = 0" and "0 \<le> blk"
  shows "pa_inv t" and "slots t = replicate (nat (if 0 < ini then ini else blk)) None"
    and "max_size t = maxs"
proof -
  let ?n = "nat (if 0 < ini then ini else blk)"
  have first: "first_free (replicate ?n None :: 'a option list) = 0"
    by (rule first_free_eqI) auto
  have t: "t = array\<lparr>max_size := maxs, block_size := blk, number_free := int ?n, pa_size := int ?n,
                 addr := Some (replicate ?n None)\<rparr>"
    using assms by (auto simp: opal_pointer_array_init_def Let_def split: if_splits)
  show "slots t = replicate ?n None" and "max_size t = maxs" by (simp_all add: t)
  show "pa_inv t" using first assms(2) by (simp add: pa_inv_def t)
qed

text \<open>Growing appends null slots; the bookkeeping follows.\<close>

lemma grow_table_grows:
  assumes "grow_table heap t soft hard = Some t'" and "pa_inv t"
    and "pa_size t \<le> soft" and "pa_size t \<le> hard"
  shows "pa_inv t'"
    and "pa_size t' = (if soft > max_size t then hard else soft)"
    and "slots t' = slots t @ replicate (nat (pa_size t' - pa_size t)) None"
    and "max_size t' = max_size t" and "pa_size t' < max_size t" and "addr t' \<noteq> None"
    and "lowest_free t' = lowest_free t"
proof -
  let ?n = "if soft > max_size t then hard else soft"
  have t': "t' = t\<lparr>number_free := number_free t + (?n - pa_size t),
                 addr := Some (resize (nat ?n) (slots t)), pa_size := ?n\<rparr>"
    using assms(1) by (auto simp: grow_table_def Let_def split: if_splits)
  have size: "pa_size t = int (length (slots t))" using assms(2) by (simp add: pa_inv_def)
  have "length (slots t) \<le> nat ?n" using assms(3,4) size by auto
  then have sl: "slots t' = slots t @ replicate (nat ?n - length (slots t)) None"
    using t' by (simp add: resize_grow)
  show "pa_size t' = ?n" and "max_size t' = max_size t" and "addr t' \<noteq> None"
    and "lowest_free t' = lowest_free t" using t' by auto
  show "slots t' = slots t @ replicate (nat (pa_size t' - pa_size t)) None"
    using sl t' size by (simp add: nat_diff_distrib')
  show "pa_size t' < max_size t"
    using assms(1) t' by (auto simp: grow_table_def Let_def split: if_splits)
  have "pa_size t \<le> ?n" using assms(3,4) by simp
  then show "pa_inv t'"
    using assms(2) t' sl by (simp add: pa_inv_def first_free_append_nulls)
qed

lemma scan_free_inv:
  "pa_size t = int (length (slots t)) \<Longrightarrow>
     scan_free t i = find_null (drop (nat i) (slots t)) (nat i)"
  by (simp add: scan_free_def)

text \<open>Filling the first free slot, as \<open>opal_pointer_array_add\<close> does.\<close>

lemma pa_inv_fill_first:
  assumes "pa_inv t" and "i = lowest_free t" and "in_slots t i"
  shows "pa_inv ((put_slot t i (Some v))\<lparr>number_free := number_free t - 1,
           lowest_free := (case find_null (drop (Suc (nat i)) (slots t)) (Suc (nat i)) of
                             Some j \<Rightarrow> int j | None \<Rightarrow> pa_size t)\<rparr>)"
proof -
  have i: "nat i < length (slots t)" "nat i = first_free (slots t)"
    using assms by (auto simp: pa_inv_def in_slots_def)
  then have "slots t ! nat i = None" using first_free_null [of "slots t"] by simp
  with i(1) have "count_null ((slots t)[nat i := Some v]) + 1 = count_null (slots t)"
    using count_null_update [of "nat i" "slots t" "Some v"] by simp
  with first_free_fill [OF i, of v] assms(1) show ?thesis
    by (auto simp: pa_inv_def split: option.splits)
qed

lemma pa_inv_fill_other:
  assumes "pa_inv t" and "i \<noteq> lowest_free t" and "in_slots t i"
  shows "pa_inv ((put_slot t i (Some v))\<lparr>number_free :=
           (if slots t ! nat i = None then number_free t - 1 else number_free t)\<rparr>)"
proof -
  have i: "nat i < length (slots t)" "nat i \<noteq> first_free (slots t)"
    using assms by (auto simp: pa_inv_def in_slots_def)
  with count_null_update [of "nat i" "slots t" "Some v"] first_free_fill_other [OF i, of v] assms(1)
  show ?thesis by (auto simp: pa_inv_def split: if_splits)
qed

lemma pa_inv_clear:
  assumes "pa_inv t" and "in_slots t i"
  shows "pa_inv ((put_slot t i None)\<lparr>lowest_free := min i (lowest_free t),
           number_free := (if slots t ! nat i \<noteq> None then number_free t + 1 else number_free t)\<rparr>)"
proof -
  have i: "nat i < length (slots t)" using assms by (auto simp: in_slots_def)
  with count_null_update [of "nat i" "slots t" None] first_free_clear [OF i] assms
  show ?thesis by (auto simp: pa_inv_def in_slots_def min_def split: if_splits)
qed

section \<open>What the operations do\<close>

lemma get_item_slots:
  "pa_inv t \<Longrightarrow> opal_pointer_array_get_item t j =
     (if j < length (slots t) then slots t ! j else None)"
  by (simp add: opal_pointer_array_get_item_def pa_inv_def)

lemma get_item_grown:
  assumes "pa_inv t" and "pa_inv t'" and "slots t' = slots t @ replicate n None"
  shows "opal_pointer_array_get_item t' j = opal_pointer_array_get_item t j"
  using assms by (simp add: get_item_slots nth_append)

lemma get_item_put:
  assumes "pa_inv t" and "pa_inv t'" and "in_slots t i" and "slots t' = (slots t)[nat i := v]"
  shows "opal_pointer_array_get_item t' j =
           (if int j = i then v else opal_pointer_array_get_item t j)"
  using assms by (auto simp: get_item_slots in_slots_def nth_list_update)

text \<open>Storing at the lowest free index keeps the invariant.\<close>

lemma add_store_inv:
  assumes "pa_inv u" and "in_slots u (lowest_free u)"
  shows "pa_inv (add_store u (Some v))"
    and "slots (add_store u (Some v)) = (slots u)[nat (lowest_free u) := Some v]"
proof -
  let ?i = "nat (lowest_free u)"
  have below: "?i < length (slots u)" "?i = first_free (slots u)" "0 \<le> lowest_free u"
    using assms by (auto simp: pa_inv_def in_slots_def)
  have none: "slots u ! ?i = None" using below first_free_null [of "slots u"] by simp
  have cnt: "count_null ((slots u)[?i := Some v]) + 1 = count_null (slots u)"
    using count_null_update [of ?i "slots u" "Some v"] below none by simp
  have iff: "find_null (drop (Suc ?i) (slots u)) (Suc ?i) = None
      \<longleftrightarrow> count_null ((slots u)[?i := Some v]) = 0"
    using first_free_fill [OF below(1,2), of v] first_free_less_iff [of "(slots u)[?i := Some v]"]
      find_null_Some [of "drop (Suc ?i) (slots u)" "Suc ?i"] below(1)
    by (auto split: option.splits)
  define w where "w = (put_slot u (lowest_free u) (Some v))\<lparr>number_free := number_free u - 1\<rparr>"
  have size: "pa_size u = int (length (slots u))" using assms(1) by (simp add: pa_inv_def)
  have scan: "scan_free w (lowest_free w + 1) = find_null (drop (Suc ?i) (slots u)) (Suc ?i)"
    using below(3) size by (simp add: w_def scan_free_inv nat_add_distrib)
  have pos: "number_free w > 0 \<longleftrightarrow> count_null ((slots u)[?i := Some v]) \<noteq> 0"
    using assms(1) cnt by (simp add: w_def pa_inv_def) linarith
  have store: "add_store u (Some v) =
      (if number_free w > 0 then case scan_free w (lowest_free w + 1) of
          Some i \<Rightarrow> w\<lparr>lowest_free := int i\<rparr> | None \<Rightarrow> w
       else w\<lparr>lowest_free := pa_size w\<rparr>)"
    by (simp only: add_store_def Let_def w_def put_slot_fields)
  have eq: "add_store u (Some v) =
      (put_slot u (lowest_free u) (Some v))\<lparr>number_free := number_free u - 1,
         lowest_free := (case find_null (drop (Suc ?i) (slots u)) (Suc ?i) of
                           Some j \<Rightarrow> int j | None \<Rightarrow> pa_size u)\<rparr>"
    using iff unfolding store scan pos by (cases "find_null (drop (Suc ?i) (slots u)) (Suc ?i)")
      (simp_all add: w_def)
  show "pa_inv (add_store u (Some v))"
    unfolding eq using pa_inv_fill_first [OF assms(1) refl assms(2)] .
  show "slots (add_store u (Some v)) = (slots u)[?i := Some v]"
    unfolding eq by simp
qed

lemma add_room_grows:
  assumes "add_room heap t = Inr u" and "pa_inv t"
  obtains n where "pa_inv u" "slots u = slots t @ replicate n None" "lowest_free u = lowest_free t"
proof (cases "number_free t = 0")
  case False
  with assms that [of 0] show thesis by (auto simp: add_room_def)
next
  case True
  define soft where "soft = (if addr t = None then 1 else pa_size t * 2)"
  from True assms(1) have g: "grow_table heap t soft INT_MAX = Some u"
    by (auto simp: add_room_def soft_def split: if_splits option.splits)
  have "pa_size t \<le> soft" using assms(2) by (auto simp: soft_def pa_inv_def slots_def)
  moreover have "pa_size t \<le> INT_MAX"
    using True assms by (auto simp: add_room_def pa_inv_def slots_def INT_MAX_def split: if_splits)
  ultimately show thesis using grow_table_grows [OF g assms(2)] that by blast
qed

lemma add_spec:
  assumes "opal_pointer_array_add heap t (Some v) = Inr (i, t')" and "pa_inv t"
  shows "pa_inv t'" and "i = lowest_free t" and "opal_pointer_array_get_item t (nat i) = None"
    and "opal_pointer_array_get_item t' j =
           (if int j = i then Some v else opal_pointer_array_get_item t j)"
proof -
  from assms(1) obtain u where room: "add_room heap t = Inr u"
    and u: "in_slots u (lowest_free u)" "i = lowest_free u" "t' = add_store u (Some v)"
    by (auto simp: opal_pointer_array_add_def split: sum.splits if_splits)
  from room assms(2) obtain n where g: "pa_inv u" "slots u = slots t @ replicate n None"
      "lowest_free u = lowest_free t" by (rule add_room_grows)
  show inv: "pa_inv t'" using add_store_inv(1) [OF g(1) u(1)] u(3) by simp
  show "i = lowest_free t" using u g by simp
  have "opal_pointer_array_get_item u (nat i) = None"
    using u g(1) first_free_null [of "slots u"] by (simp add: get_item_slots pa_inv_def)
  then show "opal_pointer_array_get_item t (nat i) = None"
    by (simp add: get_item_grown [OF assms(2) g(1,2)])
  show "opal_pointer_array_get_item t' j =
          (if int j = i then Some v else opal_pointer_array_get_item t j)"
    using get_item_put [OF g(1) inv u(1)] add_store_inv(2) [OF g(1) u(1)] u
      get_item_grown [OF assms(2) g(1,2)] by simp
qed

lemma set_room_grows:
  assumes "set_room heap t i = Some u" and "pa_inv t"
  obtains n where "pa_inv u" "slots u = slots t @ replicate n None"
proof (cases "pa_size t \<le> i")
  case False
  with assms that [of 0] show thesis by (auto simp: set_room_def)
next
  case True
  with assms(1) have g: "grow_table heap t ((c_div i 2 + 1) * 2) i = Some u"
    by (simp add: set_room_def)
  have "0 \<le> i" using True assms(2) by (simp add: pa_inv_def)
  then have "pa_size t \<le> (c_div i 2 + 1) * 2" using True by (simp add: c_div_nonneg)
  with True grow_table_grows [OF g assms(2)] that show thesis by blast
qed

lemma set_store_inv:
  assumes "pa_inv u" and "in_slots u i"
  shows "pa_inv (set_store u i v)" and "slots (set_store u i v) = (slots u)[nat i := v]"
proof -
  show sl: "slots (set_store u i v) = (slots u)[nat i := v]"
    by (cases v) (simp_all add: set_store_def Let_def)
  show "pa_inv (set_store u i v)"
  proof (cases v)
    case None
    then show ?thesis
      using pa_inv_clear [OF assms]
      by (auto simp: pa_inv_def set_store_def Let_def min_def split: if_splits)
  next
    case (Some x)
    have size: "pa_size u = int (length (slots u))" and i: "0 \<le> i"
      using assms by (simp_all add: pa_inv_def in_slots_def)
    show ?thesis
    proof (cases "i = lowest_free u")
      case True
      then have "slots u ! nat i = None"
        using assms first_free_null [of "slots u"] by (simp add: pa_inv_def in_slots_def)
      with pa_inv_fill_first [OF assms(1) True assms(2), of x] Some True size i
      show ?thesis
        by (simp add: pa_inv_def set_store_def Let_def scan_free_inv nat_add_distrib)
    next
      case False
      with pa_inv_fill_other [OF assms(1) False assms(2), of x] Some
      show ?thesis by (simp add: pa_inv_def set_store_def Let_def)
    qed
  qed
qed

lemma set_item_spec:
  assumes "opal_pointer_array_set_item heap t i v = Inr t'" and "pa_inv t"
  shows "pa_inv t'" and "0 \<le> i"
    and "opal_pointer_array_get_item t' j =
           (if int j = i then v else opal_pointer_array_get_item t j)"
proof -
  from assms(1) obtain u where room: "set_room heap t i = Some u"
    and u: "in_slots u i" "t' = set_store u i v"
    by (auto simp: opal_pointer_array_set_item_def split: option.splits if_splits)
  from room assms(2) obtain n where g: "pa_inv u" "slots u = slots t @ replicate n None"
    by (rule set_room_grows)
  show inv: "pa_inv t'" using set_store_inv(1) [OF g(1) u(1)] u(2) by simp
  show "0 \<le> i" using u(1) by (simp add: in_slots_def)
  show "opal_pointer_array_get_item t' j =
          (if int j = i then v else opal_pointer_array_get_item t j)"
    using get_item_put [OF g(1) inv u(1)] set_store_inv(2) [OF g(1) u(1)] u(2)
      get_item_grown [OF assms(2) g] by simp
qed

lemma test_and_set_store_inv:
  assumes "pa_inv u" and "in_slots u i" and "slots u ! nat i = None"
  shows "pa_inv (test_and_set_store u i (Some v))"
    and "slots (test_and_set_store u i (Some v)) = (slots u)[nat i := Some v]"
proof -
  show "slots (test_and_set_store u i (Some v)) = (slots u)[nat i := Some v]"
    by (simp add: test_and_set_store_def Let_def)
  have size: "pa_size u = int (length (slots u))" and i: "nat i < length (slots u)"
    using assms by (auto simp: pa_inv_def in_slots_def)
  have "drop (nat i) ((slots u)[nat i := Some v]) = Some v # drop (Suc (nat i)) (slots u)"
    using i Cons_nth_drop_Suc [of "nat i" "(slots u)[nat i := Some v]"] by simp
  then have "scan_free (put_slot u i (Some v)) i = find_null (drop (Suc (nat i)) (slots u)) (Suc (nat i))"
    using size by (simp add: scan_free_inv)
  then show "pa_inv (test_and_set_store u i (Some v))"
    using pa_inv_fill_first [OF assms(1) _ assms(2), of v]
      pa_inv_fill_other [OF assms(1) _ assms(2), of v] assms(3)
    by (cases "i = lowest_free u")
      (auto simp: pa_inv_def test_and_set_store_def Let_def split: option.splits)
qed

lemma test_and_set_spec:
  assumes "opal_pointer_array_test_and_set_item heap t i (Some v) = Inr (ok, t')" and "pa_inv t"
  shows "pa_inv t'"
    and "ok \<Longrightarrow> opal_pointer_array_get_item t (nat i) = None"
    and "ok \<Longrightarrow> opal_pointer_array_get_item t' j =
           (if int j = i then Some v else opal_pointer_array_get_item t j)"
    and "\<not> ok \<Longrightarrow> t' = t"
proof -
  show "\<not> ok \<Longrightarrow> t' = t"
    using assms(1) by (auto simp: opal_pointer_array_test_and_set_item_def split: if_splits option.splits)
  have "pa_inv t' \<and> opal_pointer_array_get_item t (nat i) = None \<and>
      opal_pointer_array_get_item t' j = (if int j = i then Some v else opal_pointer_array_get_item t j)"
    if ok
  proof -
    from assms(1) that obtain u where room: "set_room heap t i = Some u" and i: "0 \<le> i"
      and free: "\<not> (i < pa_size t \<and> slots t ! nat i \<noteq> None)"
      and u: "in_slots u i" "t' = test_and_set_store u i (Some v)"
      by (auto simp: opal_pointer_array_test_and_set_item_def split: option.splits if_splits)
    from room assms(2) obtain n where g: "pa_inv u" "slots u = slots t @ replicate n None"
      by (rule set_room_grows)
    have size: "pa_size t = int (length (slots t))" using assms(2) by (simp add: pa_inv_def)
    have null: "slots u ! nat i = None"
      using free size i u(1) g(2) by (auto simp: nth_append in_slots_def)
    note st = test_and_set_store_inv [OF g(1) u(1) null, of v]
    have inv: "pa_inv t'" using st(1) u(2) by simp
    moreover have "opal_pointer_array_get_item t (nat i) = None"
      using free size i assms(2) by (auto simp: get_item_slots)
    moreover have "opal_pointer_array_get_item t' j =
        (if int j = i then Some v else opal_pointer_array_get_item t j)"
      using get_item_put [OF g(1) inv u(1)] st(2) u(2) get_item_grown [OF assms(2) g] by simp
    ultimately show ?thesis by blast
  qed
  then show "ok \<Longrightarrow> opal_pointer_array_get_item t (nat i) = None"
    and "ok \<Longrightarrow> opal_pointer_array_get_item t' j =
           (if int j = i then Some v else opal_pointer_array_get_item t j)"
    and "pa_inv t'"
    using \<open>\<not> ok \<Longrightarrow> t' = t\<close> assms(2) by blast+
qed

lemma set_size_spec:
  assumes "opal_pointer_array_set_size heap t n = Inr t'" and "pa_inv t"
  shows "pa_inv t'" and "opal_pointer_array_get_item t' j = opal_pointer_array_get_item t j"
    and "n \<le> pa_size t'"
proof -
  have "pa_inv t' \<and> opal_pointer_array_get_item t' j = opal_pointer_array_get_item t j \<and> n \<le> pa_size t'"
  proof (cases "n > pa_size t")
    case False
    with assms show ?thesis by (auto simp: opal_pointer_array_set_size_def)
  next
    case True
    with assms(1) have g: "grow_table heap t n n = Some t'"
      by (auto simp: opal_pointer_array_set_size_def split: option.splits)
    note gg = grow_table_grows [OF g assms(2)]
    from True gg(1,2,3) get_item_grown [OF assms(2)] show ?thesis by auto
  qed
  then show "pa_inv t'" and "opal_pointer_array_get_item t' j = opal_pointer_array_get_item t j"
    and "n \<le> pa_size t'" by blast+
qed

lemma remove_all_spec:
  assumes "pa_inv t"
  shows "pa_inv (opal_pointer_array_remove_all t)"
    and "opal_pointer_array_get_item (opal_pointer_array_remove_all t) j = None"
proof -
  have inv: "pa_inv (opal_pointer_array_remove_all t)"
  proof (cases "number_free t = pa_size t")
    case True
    then show ?thesis using assms by (simp add: opal_pointer_array_remove_all_def)
  next
    case False
    have "first_free (replicate n None :: 'a option list) = 0" for n
      by (rule first_free_eqI) auto
    with False assms show ?thesis by (simp add: opal_pointer_array_remove_all_def pa_inv_def)
  qed
  then show "pa_inv (opal_pointer_array_remove_all t)" .
  have "\<forall>x \<in> set (slots (opal_pointer_array_remove_all t)). x = None"
  proof (cases "number_free t = pa_size t")
    case True
    then have "length (filter (\<lambda>x. x = None) (slots t)) = length (slots t)"
      using assms by (simp add: pa_inv_def count_null_def)
    then have "\<forall>x \<in> set (slots t). x = None"
      using length_filter_less [of _ "slots t" "\<lambda>x. x = None"] by fastforce
    with True show ?thesis by (simp add: opal_pointer_array_remove_all_def)
  next
    case False
    then show ?thesis by (simp add: opal_pointer_array_remove_all_def)
  qed
  then show "opal_pointer_array_get_item (opal_pointer_array_remove_all t) j = None"
    using inv by (simp add: get_item_slots)
qed

section \<open>When an operation leaves the table\<close>

text \<open>
  \<open>opal_pointer_array_add\<close> stays inside the table: the assertions of the source
  (\<^verbatim>\<open>lowest_free < size\<close>, the slot is null) hold whenever the table is
  uninitialised or non-empty and the doubled size is an \<^verbatim>\<open>int\<close>.
\<close>

lemma add_defined:
  assumes "pa_inv t" and "addr t = None \<or> 0 < pa_size t" and "pa_size t * 2 \<le> INT_MAX"
  shows "opal_pointer_array_add heap t ptr \<noteq> Inl C_UNDEFINED"
proof -
  have room: "add_room heap t \<noteq> Inl C_UNDEFINED"
    using assms(3) by (auto simp: add_room_def split: option.splits)
  moreover have "in_slots u (lowest_free u)" if r: "add_room heap t = Inr u" for u
  proof -
    from r assms(1) obtain n where u: "pa_inv u" "slots u = slots t @ replicate n None"
        "lowest_free u = lowest_free t" by (rule add_room_grows)
    have "0 < count_null (slots u)"
    proof (cases "number_free t = 0")
      case False
      then show ?thesis using u(2) assms(1) by (auto simp: pa_inv_def)
    next
      case True
      define soft where "soft = (if addr t = None then 1 else pa_size t * 2)"
      from True r have g: "grow_table heap t soft INT_MAX = Some u"
        by (auto simp: add_room_def soft_def split: if_splits option.splits)
      have lt: "pa_size t < soft" and le: "pa_size t < INT_MAX"
        using assms by (auto simp: soft_def pa_inv_def slots_def INT_MAX_def split: option.splits)
      note gg = grow_table_grows [OF g assms(1)]
      have "pa_size t < pa_size u" using gg(2) lt le by simp
      with gg(3) lt le show ?thesis by simp
    qed
    then show ?thesis
      using u(1) first_free_less_iff [of "slots u"] by (simp add: in_slots_def pa_inv_def)
  qed
  ultimately show ?thesis by (auto simp: opal_pointer_array_add_def split: sum.splits)
qed

lemma set_item_undefined_iff:
  assumes "pa_inv t"
  shows "opal_pointer_array_set_item heap t i v = Inl C_UNDEFINED \<longleftrightarrow>
    i < 0 \<or> pa_size t \<le> i \<and> max_size t < (i div 2 + 1) * 2 \<and> i < max_size t
      \<and> heap (sz_mul (to_size_t i) 8)"
proof (cases "pa_size t \<le> i")
  case False
  with assms show ?thesis
    by (auto simp: opal_pointer_array_set_item_def set_room_def in_slots_def pa_inv_def)
next
  case True
  then have i: "0 \<le> i" using assms by (simp add: pa_inv_def)
  define soft where "soft = (i div 2 + 1) * 2"
  have room: "set_room heap t i = grow_table heap t soft i"
    using True i by (simp add: set_room_def c_div_nonneg soft_def)
  have soft: "i < soft" unfolding soft_def by presburger
  have "opal_pointer_array_set_item heap t i v = Inl C_UNDEFINED \<longleftrightarrow>
      soft > max_size t \<and> i < max_size t \<and> heap (sz_mul (to_size_t i) 8)"
  proof (cases "grow_table heap t soft i")
    case None
    with soft show ?thesis
      by (auto simp: opal_pointer_array_set_item_def room grow_table_def Let_def split: if_splits)
  next
    case (Some u)
    note gg = grow_table_grows [OF Some assms _ True]
    have size: "pa_size u = (if soft > max_size t then i else soft)"
      and inv: "pa_inv u" and lt: "pa_size u < max_size t"
      using gg(1,2,5) True soft by auto
    have heap: "heap (sz_mul (to_size_t (pa_size u)) 8)"
      using Some size by (auto simp: grow_table_def Let_def split: if_splits)
    have "in_slots u i \<longleftrightarrow> i < pa_size u" using i inv by (simp add: in_slots_def pa_inv_def)
    with size lt heap soft show ?thesis
      by (auto simp: opal_pointer_array_set_item_def room Some split: if_splits)
  qed
  with True i show ?thesis by (auto simp: soft_def)
qed

section \<open>The table as its clients use it\<close>

text \<open>What a client of an indexed table relies on, and what follows for a sequence of stores.\<close>

locale slot_table =
  fixes get :: "'t \<Rightarrow> nat \<Rightarrow> 'v option"
    and put :: "'t \<Rightarrow> int \<Rightarrow> 'v option \<Rightarrow> 'e + 't"
    and inv :: "'t \<Rightarrow> bool"
  assumes put_inv: "put t i v = Inr t' \<Longrightarrow> inv t \<Longrightarrow> inv t'"
    and get_put: "put t i v = Inr t' \<Longrightarrow> inv t \<Longrightarrow> get t' j = (if int j = i then v else get t j)"
begin

lemma put_all_inv: "put_all put t ws = Inr t' \<Longrightarrow> inv t \<Longrightarrow> inv t'"
  by (induction ws arbitrary: t) (auto split: sum.splits, metis put_inv)

lemma last_put_wins:
  "put_all put t ws = Inr t' \<Longrightarrow> inv t \<Longrightarrow>
   get t' j = (case map_of (rev ws) (int j) of None \<Rightarrow> get t j | Some v \<Rightarrow> v)"
proof (induction ws arbitrary: t)
  case (Cons w ws)
  obtain i v where w: "w = (i, v)" by fastforce
  with Cons.prems obtain u where u: "put t i v = Inr u" "put_all put u ws = Inr t'"
    by (auto split: sum.splits)
  then have "get t' j = (case map_of (rev ws) (int j) of None \<Rightarrow> get u j | Some v \<Rightarrow> v)"
    using Cons put_inv by blast
  then show ?case using get_put[OF u(1)] Cons.prems(2) w
    by (auto simp: map_add_def split: option.splits)
qed simp

end

interpretation pa: slot_table opal_pointer_array_get_item "opal_pointer_array_set_item heap" pa_inv
  for heap
  by unfold_locales (auto simp: set_item_spec)

section \<open>Properties\<close>

text \<open>C17: After any sequence of stores into a table, every index holds the last value stored
  there, or what it held before: growth and bookkeeping never lose or move an entry.\<close>

theorem pointer_array_last_write_wins:
  assumes "put_all (opal_pointer_array_set_item heap) t ws = Inr t'" "pa_inv t"
  shows "pa_inv t' \<and> opal_pointer_array_get_item t' j =
           (case map_of (rev ws) (int j) of None \<Rightarrow> opal_pointer_array_get_item t j | Some v \<Rightarrow> v)"
  using pa.put_all_inv[OF assms] pa.last_put_wins[OF assms] by simp

text \<open>C18: Adding returns the lowest index that was free; the entry is found there, every other
  entry is where it was, and every index below it is taken.\<close>

theorem pointer_array_add_lowest:
  assumes "opal_pointer_array_add heap t (Some v) = Inr (i, t')" "pa_inv t"
  shows "pa_inv t' \<and> opal_pointer_array_get_item t (nat i) = None \<and>
         (\<forall>k < nat i. opal_pointer_array_get_item t k \<noteq> None) \<and>
         (\<forall>j. opal_pointer_array_get_item t' j =
                (if int j = i then Some v else opal_pointer_array_get_item t j))"
proof -
  note spec = add_spec[OF assms]
  have "opal_pointer_array_get_item t k \<noteq> None" if "k < nat i" for k
  proof -
    have "k < first_free (slots t)" using that spec(2) assms(2) by (simp add: pa_inv_def)
    then show ?thesis using before_first_free[of k "slots t"] first_free_le[of "slots t"] assms(2)
      by (simp add: get_item_slots)
  qed
  then show ?thesis using spec by blast
qed


definition example_array :: "nat opal_pointer_array" where
  "example_array = \<lparr>lowest_free = 0, number_free = 1, pa_size = 1, max_size = 5, block_size = 1,
     addr = Some [None]\<rparr>"

lemma example_array_inv: "pa_inv example_array"
  by (simp add: pa_inv_def example_array_def slots_def count_null_def first_free_def)

theorem pointer_array_last_write_wins_witness:
  "\<exists>t'. put_all (opal_pointer_array_set_item (\<lambda>_. True)) example_array [(2, Some 7), (0, Some 8), (2, Some 9)] = Inr t' \<and>
        opal_pointer_array_get_item t' 2 = Some 9 \<and> opal_pointer_array_get_item t' 0 = Some 8"
proof -
  obtain t' where t': "put_all (opal_pointer_array_set_item (\<lambda>_. True)) example_array
      [(2, Some 7), (0, Some 8), (2, Some 9)] = Inr t'"
    by (simp add: opal_pointer_array_set_item_def set_room_def grow_table_def set_store_def put_slot_def
        in_slots_def example_array_def slots_def c_div_def resize_def scan_free_def numeral_eq_Suc)
  show ?thesis
    using pointer_array_last_write_wins[OF t' example_array_inv, of 2]
      pointer_array_last_write_wins[OF t' example_array_inv, of 0] t' by simp
qed

theorem pointer_array_add_lowest_witness:
  "\<exists>i t'. opal_pointer_array_add (\<lambda>_. True) example_array (Some 7) = Inr (i, t') \<and> i = 0 \<and>
          opal_pointer_array_get_item t' 0 = Some 7"
proof -
  obtain t' where t': "opal_pointer_array_add (\<lambda>_. True) example_array (Some 7) = Inr (0, t')"
    by (simp add: opal_pointer_array_add_def add_room_def add_store_def put_slot_def in_slots_def
        example_array_def slots_def)
  show ?thesis using pointer_array_add_lowest[OF t' example_array_inv] t' by auto
qed


end
