(* ===== verification/Scd_Base.thy ===== *)
theory Scd_Base
  imports Cfgi_Dt Regex Pointer_Array Name_Fns
begin

text \<open>
  The base of the scheduler framework: its global state
  (\<^verbatim>\<open>orcm/mca/scd/base/base.h\<close>, \<^verbatim>\<open>orcm/mca/scd/scd_types.h\<close>), the two state
  machines that turn session states into events (\<^verbatim>\<open>scd_base_fns.c\<close>,
  \<^verbatim>\<open>scd_base_rm_fns.c\<close>), the construction of the queues, session ids and cluster-wide
  power settings (\<^verbatim>\<open>scd_base_frame.c\<close>).
\<close>

section \<open>State\<close>

text \<open>Node and session states are small integers in C, and named there as here.\<close>

abbreviation (input) ORCM_NODE_STATE_UNDEF :: u8 where "ORCM_NODE_STATE_UNDEF \<equiv> 0"
abbreviation (input) ORCM_NODE_STATE_UP :: u8 where "ORCM_NODE_STATE_UP \<equiv> 2"
abbreviation (input) ORCM_NODE_STATE_DOWN :: u8 where "ORCM_NODE_STATE_DOWN \<equiv> 3"
abbreviation (input) ORCM_NODE_STATE_DRAIN :: u8 where "ORCM_NODE_STATE_DRAIN \<equiv> 5"
abbreviation (input) ORCM_NODE_STATE_RESUME :: u8 where "ORCM_NODE_STATE_RESUME \<equiv> 6"

abbreviation (input) ORCM_SCD_NODE_STATE_UNDEF :: u8 where "ORCM_SCD_NODE_STATE_UNDEF \<equiv> 0"
abbreviation (input) ORCM_SCD_NODE_STATE_UNKNOWN :: u8 where "ORCM_SCD_NODE_STATE_UNKNOWN \<equiv> 1"
abbreviation (input) ORCM_SCD_NODE_STATE_UNALLOC :: u8 where "ORCM_SCD_NODE_STATE_UNALLOC \<equiv> 2"
abbreviation (input) ORCM_SCD_NODE_STATE_ALLOC :: u8 where "ORCM_SCD_NODE_STATE_ALLOC \<equiv> 3"
abbreviation (input) ORCM_SCD_NODE_STATE_EXCLUSIVE :: u8 where "ORCM_SCD_NODE_STATE_EXCLUSIVE \<equiv> 4"

abbreviation (input) ORCM_SESSION_STATE_UNDEF :: nat where "ORCM_SESSION_STATE_UNDEF \<equiv> 0"
abbreviation (input) ORCM_SESSION_STATE_REQ :: nat where "ORCM_SESSION_STATE_REQ \<equiv> 1"
abbreviation (input) ORCM_SESSION_STATE_ACTIVE :: nat where "ORCM_SESSION_STATE_ACTIVE \<equiv> 2"
abbreviation (input) ORCM_SESSION_STATE_KILL :: nat where "ORCM_SESSION_STATE_KILL \<equiv> 3"
abbreviation (input) ORCM_SESSION_STATE_INIT :: nat where "ORCM_SESSION_STATE_INIT \<equiv> 1"
abbreviation (input) ORCM_SESSION_STATE_SCHEDULE :: nat where "ORCM_SESSION_STATE_SCHEDULE \<equiv> 2"
abbreviation (input) ORCM_SESSION_STATE_ALLOCD :: nat where "ORCM_SESSION_STATE_ALLOCD \<equiv> 3"
abbreviation (input) ORCM_SESSION_STATE_TERMINATED :: nat where "ORCM_SESSION_STATE_TERMINATED \<equiv> 4"
abbreviation (input) ORCM_SESSION_STATE_CANCEL :: nat where "ORCM_SESSION_STATE_CANCEL \<equiv> 5"
abbreviation (input) ORCM_SESSION_STATE_ANY :: nat where "ORCM_SESSION_STATE_ANY \<equiv> 10"
abbreviation (input) ORCM_SESSION_STATE_ERROR :: nat where "ORCM_SESSION_STATE_ERROR \<equiv> 20"

abbreviation (input) ORTE_SYS_PRI :: int where "ORTE_SYS_PRI \<equiv> 3"

text \<open>
  A session object is known by its place in the list of all session objects made so far, which
  stands for its address.  The list of steps is never used by the scheduler and is left out;
  \<open>ses_alloc\<close> is null in a session that only carries an id.
\<close>

type_synonym session_ref = nat

record orcm_session =
  ses_id :: u32
  ses_uid :: u32
  ses_alloc :: "orcm_alloc option"

record orcm_queue =
  q_name :: string
  q_priority :: int
  q_sessions :: "session_ref list"

record orcm_alloc_tracker =
  trk_alloc_id :: int
  trk_count_checked_in :: int

text \<open>The callbacks of the two state machines.\<close>

datatype cbfunc =
    fifo_undef_cb | fifo_find_queue_cb | fifo_schedule_cb | fifo_allocated_cb | fifo_terminated_cb | fifo_cancel_cb
  | rm_undef_cb | rm_request_cb | rm_active_cb | rm_kill_cb

record orcm_scd_state =
  st_state :: nat
  st_cbfunc :: "cbfunc option"
  st_priority :: int

text \<open>An activated event: the caddy with its session, the callback and its priority.\<close>

record event =
  ev_cbfunc :: cbfunc
  ev_session :: session_ref
  ev_priority :: int

record message =
  msg_peer :: opal_process_name
  msg_tag :: nat
  msg_buffer :: opal_buffer

text \<open>
  \<^verbatim>\<open>orcm_scd_base\<close> and the statics around it, the session objects, the events waiting on
  the scheduler's event base and on the runtime's (\<^verbatim>\<open>orte_event_base\<close>), and the
  messages handed to the messaging layer.
\<close>

record orcm_scd_base =
  power_budget :: int
  power_mode :: int
  power_window :: int
  power_overage :: int
  power_underage :: int
  power_overage_time :: int
  power_underage_time :: int
  power_frequency :: u32
  power_strict :: u8
  states :: "orcm_scd_state list"
  rmstates :: "orcm_scd_state list"
  queues :: "orcm_queue list"
  nodes :: "orcm_node opal_pointer_array"
  topologies :: "topology opal_pointer_array"
  tracking :: "orcm_alloc_tracker list"
  last_session_id :: u32
  sessions :: "orcm_session list"
  scd_events :: "event list"
  rm_events :: "event list"
  outbox :: "message list"

section \<open>Surroundings\<close>

text \<open>
  What the scheduler calls besides: the data storage service; the messaging layer, whose
  non-blocking send accepts a message or returns an error code; the hwloc library, which reads
  a topology out of a buffer and compares two; the power management, which accepts an
  allocation (possibly changing its constraints) or refuses it; the name under which the
  scheduler sends messages to itself; and what uninitialised memory happens to hold: the user
  id of a session, the word behind a four-byte variable, the variable \<^verbatim>\<open>result\<close>.
\<close>

record scd_env =
  env_dss :: dss_env
  send_buffer_nb :: "opal_process_name \<Rightarrow> opal_buffer \<Rightarrow> nat \<Rightarrow> opal_err option"
  unpack_topology :: "string dss"
  equal_topology :: "string \<Rightarrow> string \<Rightarrow> bool"
  pwrmgmt_alloc_notify :: "orcm_alloc \<Rightarrow> opal_err option \<times> orcm_alloc"
  orcm_clusters :: "orcm_cluster list"
  my_scheduler :: opal_process_name
  uninit_uid :: u32
  uninit_word :: u32
  uninit_result :: u32

section \<open>State machines\<close>

text \<open>
  The search of the activation functions: entries for the markers are remembered, the first
  entry for the state wins, and the remembered ones serve states that have none.
\<close>

fun select_state :: "orcm_scd_state list \<Rightarrow> nat \<Rightarrow> orcm_scd_state option \<Rightarrow> orcm_scd_state option \<Rightarrow>
    orcm_scd_state option" where
  "select_state [] state any err = (if ORCM_SESSION_STATE_ERROR < state \<and> err \<noteq> None then err else any)"
| "select_state (s # ss) state any err =
     (if st_state s = ORCM_SESSION_STATE_ANY then select_state ss state (Some s) err
      else if st_state s = ORCM_SESSION_STATE_ERROR then select_state ss state any (Some s)
      else if st_state s = state then Some s
      else select_state ss state any err)"

definition new_events :: "orcm_scd_state list \<Rightarrow> nat \<Rightarrow> session_ref \<Rightarrow> event list" where
  "new_events tbl state session =
     (case select_state tbl state None None of
        None \<Rightarrow> []
      | Some s \<Rightarrow>
          (case st_cbfunc s of
             None \<Rightarrow> []
           | Some cb \<Rightarrow> [\<lparr>ev_cbfunc = cb, ev_session = session, ev_priority = st_priority s\<rparr>]))"

definition orcm_scd_base_activate_session_state :: "session_ref \<Rightarrow> nat \<Rightarrow> orcm_scd_base \<Rightarrow> orcm_scd_base" where
  "orcm_scd_base_activate_session_state session state s =
     s\<lparr>scd_events := scd_events s @ new_events (states s) state session\<rparr>"

definition orcm_scd_base_rm_activate_session_state :: "session_ref \<Rightarrow> nat \<Rightarrow> orcm_scd_base \<Rightarrow> orcm_scd_base" where
  "orcm_scd_base_rm_activate_session_state session state s =
     s\<lparr>rm_events := rm_events s @ new_events (rmstates s) state session\<rparr>"

definition add_state :: "orcm_scd_state list \<Rightarrow> nat \<Rightarrow> cbfunc option \<Rightarrow> int \<Rightarrow> opal_err + orcm_scd_state list" where
  "add_state tbl state cb priority =
     (if list_ex (\<lambda>st. st_state st = state) tbl then Inl OPAL_ERR_BAD_PARAM
      else Inr (tbl @ [\<lparr>st_state = state, st_cbfunc = cb, st_priority = priority\<rparr>]))"

definition orcm_scd_base_add_session_state :: "nat \<Rightarrow> cbfunc option \<Rightarrow> int \<Rightarrow> orcm_scd_base \<Rightarrow> opal_err + orcm_scd_base" where
  "orcm_scd_base_add_session_state state cb priority s =
     err_bind (add_state (states s) state cb priority) (\<lambda>tbl. Inr (s\<lparr>states := tbl\<rparr>))"

definition orcm_scd_base_rm_add_session_state :: "nat \<Rightarrow> cbfunc option \<Rightarrow> int \<Rightarrow> orcm_scd_base \<Rightarrow> opal_err + orcm_scd_base" where
  "orcm_scd_base_rm_add_session_state state cb priority s =
     err_bind (add_state (rmstates s) state cb priority) (\<lambda>tbl. Inr (s\<lparr>rmstates := tbl\<rparr>))"

section \<open>Queues\<close>

text \<open>A queue that is above no other queue is not linked in at all.\<close>

fun insert_queue :: "orcm_queue \<Rightarrow> orcm_queue list \<Rightarrow> orcm_queue list" where
  "insert_queue q [] = []"
| "insert_queue q (q2 # qs) = (if q_priority q > q_priority q2 then q # q2 # qs else q2 # insert_queue q qs)"

text \<open>A definition without exactly three fields ends the construction.\<close>

fun define_queues :: "string list \<Rightarrow> orcm_queue list \<Rightarrow> orcm_queue list" where
  "define_queues [] qs = qs"
| "define_queues (d # ds) qs =
     (case opal_argv_split (Some d) (CHR '':'') of
        Some [name, pri, _] \<Rightarrow>
          define_queues ds
            (insert_queue \<lparr>q_name = name, q_priority = c_int32 (fst (c_strtol pri)), q_sessions = []\<rparr> qs)
      | _ \<Rightarrow> qs)"

definition orcm_scd_base_construct_queues :: "argv \<Rightarrow> orcm_scd_base \<Rightarrow> orcm_scd_base" where
  "orcm_scd_base_construct_queues defs s =
     (let qs = queues s @ [\<lparr>q_name = ''running'', q_priority = 0, q_sessions = []\<rparr>,
                           \<lparr>q_name = ''hold'', q_priority = 0, q_sessions = []\<rparr>,
                           \<lparr>q_name = ''default'', q_priority = 0, q_sessions = []\<rparr>]
      in s\<lparr>queues := (case defs of None \<Rightarrow> qs | Some ds \<Rightarrow> define_queues ds qs)\<rparr>)"

section \<open>Session ids and power settings\<close>

definition orcm_scd_base_get_next_session_id :: "orcm_scd_base \<Rightarrow> u32 \<times> orcm_scd_base" where
  "orcm_scd_base_get_next_session_id s =
     (let s = s\<lparr>last_session_id := last_session_id s + 1\<rparr> in (last_session_id s, s))"

definition orcm_scd_base_get_cluster_power_budget :: "orcm_scd_base \<Rightarrow> int" where
  "orcm_scd_base_get_cluster_power_budget s = power_budget s"

definition orcm_scd_base_set_cluster_power_budget :: "int \<Rightarrow> orcm_scd_base \<Rightarrow> orcm_scd_base" where
  "orcm_scd_base_set_cluster_power_budget v s = s\<lparr>power_budget := v\<rparr>"

definition orcm_scd_base_get_cluster_power_mode :: "orcm_scd_base \<Rightarrow> int" where
  "orcm_scd_base_get_cluster_power_mode s = power_mode s"

definition orcm_scd_base_set_cluster_power_mode :: "int \<Rightarrow> orcm_scd_base \<Rightarrow> orcm_scd_base" where
  "orcm_scd_base_set_cluster_power_mode v s = s\<lparr>power_mode := v\<rparr>"

definition orcm_scd_base_get_cluster_power_window :: "orcm_scd_base \<Rightarrow> int" where
  "orcm_scd_base_get_cluster_power_window s = power_window s"

definition orcm_scd_base_set_cluster_power_window :: "int \<Rightarrow> orcm_scd_base \<Rightarrow> orcm_scd_base" where
  "orcm_scd_base_set_cluster_power_window v s = s\<lparr>power_window := v\<rparr>"

definition orcm_scd_base_get_cluster_power_overage :: "orcm_scd_base \<Rightarrow> int" where
  "orcm_scd_base_get_cluster_power_overage s = power_overage s"

definition orcm_scd_base_set_cluster_power_overage :: "int \<Rightarrow> orcm_scd_base \<Rightarrow> orcm_scd_base" where
  "orcm_scd_base_set_cluster_power_overage v s = s\<lparr>power_overage := v\<rparr>"

definition orcm_scd_base_get_cluster_power_underage :: "orcm_scd_base \<Rightarrow> int" where
  "orcm_scd_base_get_cluster_power_underage s = power_underage s"

definition orcm_scd_base_set_cluster_power_underage :: "int \<Rightarrow> orcm_scd_base \<Rightarrow> orcm_scd_base" where
  "orcm_scd_base_set_cluster_power_underage v s = s\<lparr>power_underage := v\<rparr>"

definition orcm_scd_base_get_cluster_power_overage_time :: "orcm_scd_base \<Rightarrow> int" where
  "orcm_scd_base_get_cluster_power_overage_time s = power_overage_time s"

definition orcm_scd_base_set_cluster_power_overage_time :: "int \<Rightarrow> orcm_scd_base \<Rightarrow> orcm_scd_base" where
  "orcm_scd_base_set_cluster_power_overage_time v s = s\<lparr>power_overage_time := v\<rparr>"

definition orcm_scd_base_get_cluster_power_underage_time :: "orcm_scd_base \<Rightarrow> int" where
  "orcm_scd_base_get_cluster_power_underage_time s = power_underage_time s"

definition orcm_scd_base_set_cluster_power_underage_time :: "int \<Rightarrow> orcm_scd_base \<Rightarrow> orcm_scd_base" where
  "orcm_scd_base_set_cluster_power_underage_time v s = s\<lparr>power_underage_time := v\<rparr>"

definition orcm_scd_base_get_cluster_power_frequency :: "orcm_scd_base \<Rightarrow> u32" where
  "orcm_scd_base_get_cluster_power_frequency s = power_frequency s"

definition orcm_scd_base_set_cluster_power_frequency :: "u32 \<Rightarrow> orcm_scd_base \<Rightarrow> orcm_scd_base" where
  "orcm_scd_base_set_cluster_power_frequency v s = s\<lparr>power_frequency := v\<rparr>"

definition orcm_scd_base_get_cluster_power_strict :: "orcm_scd_base \<Rightarrow> u8" where
  "orcm_scd_base_get_cluster_power_strict s = power_strict s"

definition orcm_scd_base_set_cluster_power_strict :: "u8 \<Rightarrow> orcm_scd_base \<Rightarrow> orcm_scd_base" where
  "orcm_scd_base_set_cluster_power_strict v s = s\<lparr>power_strict := v\<rparr>"

text \<open>The settings before any parameter of the site is applied; the frequency is \<open>-1.0\<close>.\<close>

definition orcm_scd_base_register :: "orcm_scd_base \<Rightarrow> orcm_scd_base" where
  "orcm_scd_base_register s =
     s\<lparr>power_budget := - 1, power_mode := 0, power_window := 10, power_overage := 0, power_underage := 0,
       power_overage_time := 0, power_underage_time := 0, power_frequency := 0xBF800000, power_strict := 1\<rparr>"

definition orcm_scd_base_open :: "(nat \<Rightarrow> bool) \<Rightarrow> orcm_scd_base \<Rightarrow> orcm_scd_base" where
  "orcm_scd_base_open heap s =
     s\<lparr>states := [], rmstates := [], queues := [],
       nodes := snd (opal_pointer_array_init heap opal_pointer_array_construct 8 INT_MAX 8),
       topologies := snd (opal_pointer_array_init heap opal_pointer_array_construct 1 INT_MAX 1),
       tracking := []\<rparr>"

end
