(* ===== verification/Scd_State.thy ===== *)
theory Scd_State
  imports Scd_Base
begin

text \<open>
  Access to the objects of the scheduler state that all handlers share: the nodes of the node
  table, the session objects and the queues they are linked into.
\<close>

section \<open>Nodes\<close>

text \<open>
  The nodes that a loop over the table visits.  A change through a node pointer is a change of
  that slot: every slot has an object of its own.
\<close>

definition node_slots :: "orcm_scd_base \<Rightarrow> orcm_node option list" where
  "node_slots s = map (opal_pointer_array_get_item (nodes s)) [0..<nat (pa_size (nodes s))]"

definition live_nodes :: "orcm_scd_base \<Rightarrow> orcm_node list" where
  "live_nodes s = List.map_filter (\<lambda>n. n) (node_slots s)"

definition map_nodes :: "(orcm_node \<Rightarrow> orcm_node) \<Rightarrow> orcm_scd_base \<Rightarrow> orcm_scd_base" where
  "map_nodes f s = s\<lparr>nodes := (nodes s)\<lparr>addr := map_option (map (map_option f)) (addr (nodes s))\<rparr>\<rparr>"

text \<open>\<open>for (i...) for (j...) if (0 == strcmp(nodeptr->name, nodenames[i])) nodeptr->scd_state = v\<close>\<close>

definition set_named :: "u8 \<Rightarrow> string \<Rightarrow> orcm_scd_base \<Rightarrow> orcm_scd_base" where
  "set_named v name s = map_nodes (\<lambda>n. if hostname n = Some name then n\<lparr>scd_state := v\<rparr> else n) s"

definition set_all_named :: "u8 \<Rightarrow> string list \<Rightarrow> orcm_scd_base \<Rightarrow> orcm_scd_base" where
  "set_all_named v names s = fold (set_named v) names s"

text \<open>Comparing with the name of a node that has none is a read through a null pointer.\<close>

definition set_scd_states :: "u8 \<Rightarrow> string list \<Rightarrow> orcm_scd_base \<Rightarrow> opal_err + orcm_scd_base" where
  "set_scd_states v names s =
     (if names \<noteq> [] \<and> list_ex (\<lambda>n. hostname n = None) (live_nodes s) then Inl C_UNDEFINED
      else Inr (set_all_named v names s))"

definition free_node :: "orcm_node \<Rightarrow> bool" where
  "free_node n \<longleftrightarrow> scd_state n = ORCM_SCD_NODE_STATE_UNALLOC \<and> nd_state n = ORCM_NODE_STATE_UP"

definition free_nodes :: "orcm_scd_base \<Rightarrow> orcm_node list" where
  "free_nodes s = filter free_node (live_nodes s)"

section \<open>Sessions\<close>

definition session_at :: "orcm_scd_base \<Rightarrow> session_ref \<Rightarrow> orcm_session option" where
  "session_at s r = (if r < length (sessions s) then Some (sessions s ! r) else None)"

definition alloc_at :: "orcm_scd_base \<Rightarrow> session_ref \<Rightarrow> orcm_alloc option" where
  "alloc_at s r = Option.bind (session_at s r) ses_alloc"

definition id_at :: "orcm_scd_base \<Rightarrow> session_ref \<Rightarrow> u32 option" where
  "id_at s r = map_option ses_id (session_at s r)"

definition upd_alloc :: "session_ref \<Rightarrow> (orcm_alloc \<Rightarrow> orcm_alloc) \<Rightarrow> orcm_scd_base \<Rightarrow> orcm_scd_base" where
  "upd_alloc r f s = s\<lparr>sessions := (sessions s)[r := (sessions s ! r)\<lparr>ses_alloc := map_option f (ses_alloc (sessions s ! r))\<rparr>]\<rparr>"

definition new_session :: "orcm_session \<Rightarrow> orcm_scd_base \<Rightarrow> session_ref \<times> orcm_scd_base" where
  "new_session ses s = (length (sessions s), s\<lparr>sessions := sessions s @ [ses]\<rparr>)"

section \<open>Queues\<close>

text \<open>The first queue of a name, as the loops with a \<^verbatim>\<open>break\<close> find it.\<close>

fun queue_index :: "string \<Rightarrow> orcm_queue list \<Rightarrow> nat option" where
  "queue_index name [] = None"
| "queue_index name (q # qs) = (if q_name q = name then Some 0 else map_option Suc (queue_index name qs))"

definition upd_queue :: "nat \<Rightarrow> (session_ref list \<Rightarrow> session_ref list) \<Rightarrow> orcm_scd_base \<Rightarrow> orcm_scd_base" where
  "upd_queue i f s = s\<lparr>queues := (queues s)[i := (queues s ! i)\<lparr>q_sessions := f (q_sessions (queues s ! i))\<rparr>]\<rparr>"

definition queued :: "orcm_scd_base \<Rightarrow> session_ref list" where
  "queued s = concat (map q_sessions (queues s))"

text \<open>
  A list item holds its own links: adding a session that is on a list already overwrites them
  and leaves the other list broken.
\<close>

definition opal_list_append_session :: "nat \<Rightarrow> session_ref \<Rightarrow> orcm_scd_base \<Rightarrow> opal_err + orcm_scd_base" where
  "opal_list_append_session i r s =
     (if r \<in> set (queued s) then Inl C_UNDEFINED else Inr (upd_queue i (\<lambda>rs. rs @ [r]) s))"

definition opal_list_prepend_session :: "nat \<Rightarrow> session_ref \<Rightarrow> orcm_scd_base \<Rightarrow> opal_err + orcm_scd_base" where
  "opal_list_prepend_session i r s =
     (if r \<in> set (queued s) then Inl C_UNDEFINED else Inr (upd_queue i (\<lambda>rs. r # rs) s))"

section \<open>Facts\<close>

named_theorems scd_frame \<open>what the operations leave alone\<close>

lemma map_nodes_frame [scd_frame, simp]:
  "sessions (map_nodes f s) = sessions s" "queues (map_nodes f s) = queues s" "states (map_nodes f s) = states s"
  "rmstates (map_nodes f s) = rmstates s" "scd_events (map_nodes f s) = scd_events s"
  "rm_events (map_nodes f s) = rm_events s" "tracking (map_nodes f s) = tracking s" "outbox (map_nodes f s) = outbox s"
  "last_session_id (map_nodes f s) = last_session_id s"
  by (simp_all add: map_nodes_def)

lemma set_all_named_frame [scd_frame, simp]:
  "sessions (set_all_named v ns s) = sessions s" "queues (set_all_named v ns s) = queues s"
  "states (set_all_named v ns s) = states s" "rmstates (set_all_named v ns s) = rmstates s"
  "scd_events (set_all_named v ns s) = scd_events s" "rm_events (set_all_named v ns s) = rm_events s"
  "tracking (set_all_named v ns s) = tracking s" "outbox (set_all_named v ns s) = outbox s"
  "last_session_id (set_all_named v ns s) = last_session_id s"
  by (induction ns arbitrary: s) (simp_all add: set_all_named_def set_named_def)

lemma activate_frame [scd_frame, simp]:
  "sessions (orcm_scd_base_activate_session_state r st s) = sessions s"
  "queues (orcm_scd_base_activate_session_state r st s) = queues s"
  "states (orcm_scd_base_activate_session_state r st s) = states s"
  "rmstates (orcm_scd_base_activate_session_state r st s) = rmstates s"
  "nodes (orcm_scd_base_activate_session_state r st s) = nodes s"
  "rm_events (orcm_scd_base_activate_session_state r st s) = rm_events s"
  "tracking (orcm_scd_base_activate_session_state r st s) = tracking s"
  "outbox (orcm_scd_base_activate_session_state r st s) = outbox s"
  "last_session_id (orcm_scd_base_activate_session_state r st s) = last_session_id s"
  "scd_events (orcm_scd_base_activate_session_state r st s) = scd_events s @ new_events (states s) st r"
  by (simp_all add: orcm_scd_base_activate_session_state_def)

lemma rm_activate_frame [scd_frame, simp]:
  "sessions (orcm_scd_base_rm_activate_session_state r st s) = sessions s"
  "queues (orcm_scd_base_rm_activate_session_state r st s) = queues s"
  "states (orcm_scd_base_rm_activate_session_state r st s) = states s"
  "rmstates (orcm_scd_base_rm_activate_session_state r st s) = rmstates s"
  "nodes (orcm_scd_base_rm_activate_session_state r st s) = nodes s"
  "scd_events (orcm_scd_base_rm_activate_session_state r st s) = scd_events s"
  "tracking (orcm_scd_base_rm_activate_session_state r st s) = tracking s"
  "outbox (orcm_scd_base_rm_activate_session_state r st s) = outbox s"
  "last_session_id (orcm_scd_base_rm_activate_session_state r st s) = last_session_id s"
  "rm_events (orcm_scd_base_rm_activate_session_state r st s) = rm_events s @ new_events (rmstates s) st r"
  by (simp_all add: orcm_scd_base_rm_activate_session_state_def)

lemma upd_alloc_frame [scd_frame, simp]:
  "queues (upd_alloc r f s) = queues s" "states (upd_alloc r f s) = states s" "rmstates (upd_alloc r f s) = rmstates s"
  "nodes (upd_alloc r f s) = nodes s" "scd_events (upd_alloc r f s) = scd_events s"
  "rm_events (upd_alloc r f s) = rm_events s" "tracking (upd_alloc r f s) = tracking s"
  "outbox (upd_alloc r f s) = outbox s" "length (sessions (upd_alloc r f s)) = length (sessions s)"
  "last_session_id (upd_alloc r f s) = last_session_id s"
  by (simp_all add: upd_alloc_def)

lemma upd_queue_frame [scd_frame, simp]:
  "sessions (upd_queue i f s) = sessions s" "states (upd_queue i f s) = states s" "rmstates (upd_queue i f s) = rmstates s"
  "nodes (upd_queue i f s) = nodes s" "scd_events (upd_queue i f s) = scd_events s"
  "rm_events (upd_queue i f s) = rm_events s" "tracking (upd_queue i f s) = tracking s"
  "outbox (upd_queue i f s) = outbox s" "length (queues (upd_queue i f s)) = length (queues s)"
  "last_session_id (upd_queue i f s) = last_session_id s"
  by (simp_all add: upd_queue_def)

lemma live_nodes_cong: "nodes s = nodes t \<Longrightarrow> live_nodes s = live_nodes t"
  by (simp add: live_nodes_def node_slots_def)

lemma session_at_cong: "sessions s = sessions t \<Longrightarrow> session_at s r = session_at t r"
  by (simp add: session_at_def)

lemma alloc_at_cong: "sessions s = sessions t \<Longrightarrow> alloc_at s r = alloc_at t r"
  by (simp add: alloc_at_def session_at_def)

lemma alloc_at_upd [simp]:
  "alloc_at (upd_alloc r f s) r = map_option f (alloc_at s r)"
  "r \<noteq> r' \<Longrightarrow> alloc_at (upd_alloc r f s) r' = alloc_at s r'"
  by (auto simp: alloc_at_def session_at_def upd_alloc_def)

lemma id_at_upd [simp]: "id_at (upd_alloc r f s) r' = id_at s r'"
  by (cases "r = r'") (auto simp: id_at_def session_at_def upd_alloc_def)

lemma node_slots: "pa_inv (nodes s) \<Longrightarrow> node_slots s = slots (nodes s)"
  by (auto simp: node_slots_def get_item_slots pa_inv_def intro!: nth_equalityI)

lemma slots_map_nodes [simp]: "slots (nodes (map_nodes f s)) = map (map_option f) (slots (nodes s))"
  by (simp add: map_nodes_def slots_def split: option.split)

lemma find_null_map: "find_null (map (map_option f) xs) i = find_null xs i"
  by (induction xs i rule: find_null.induct) auto

lemma pa_inv_map_nodes [simp]: "pa_inv (nodes (map_nodes f s)) \<longleftrightarrow> pa_inv (nodes s)"
proof -
  have "count_null (map (map_option f) xs) = count_null xs" for xs
    by (simp add: count_null_def filter_map o_def)
  moreover have "first_free (map (map_option f) xs) = first_free xs" for xs
    by (simp add: first_free_def find_null_map split: option.split)
  moreover have "pa_size (nodes (map_nodes f s)) = pa_size (nodes s)"
    "number_free (nodes (map_nodes f s)) = number_free (nodes s)"
    "lowest_free (nodes (map_nodes f s)) = lowest_free (nodes s)"
    by (simp_all add: map_nodes_def)
  ultimately show ?thesis unfolding pa_inv_def slots_map_nodes by simp
qed

lemma live_map_nodes: "pa_inv (nodes s) \<Longrightarrow> live_nodes (map_nodes f s) = map f (live_nodes s)"
  by (simp add: live_nodes_def node_slots) (simp add: map_filter_def filter_map o_def option.map_sel cong: map_cong)

lemma pa_inv_set_all_named [simp]: "pa_inv (nodes (set_all_named v ns s)) \<longleftrightarrow> pa_inv (nodes s)"
  by (induction ns arbitrary: s) (simp_all add: set_all_named_def set_named_def)

lemma live_set_all_named:
  "pa_inv (nodes s) \<Longrightarrow> live_nodes (set_all_named v ns s) =
     map (\<lambda>n. if hostname n \<in> Some ` set ns then n\<lparr>scd_state := v\<rparr> else n) (live_nodes s)"
proof (induction ns arbitrary: s)
  case (Cons m ns)
  have "live_nodes (set_all_named v ns (set_named v m s)) =
      map (\<lambda>n. if hostname n \<in> Some ` set ns then n\<lparr>scd_state := v\<rparr> else n) (live_nodes (set_named v m s))"
    using Cons by (simp add: set_named_def)
  then show ?case using Cons.prems by (auto simp: set_all_named_def set_named_def live_map_nodes)
qed (simp add: set_all_named_def)

lemma count_live: "length xs = count_null xs + length (List.map_filter (\<lambda>n. n) xs)"
  by (induction xs) (auto simp: count_null_def map_filter_simps split: option.split)

lemma number_of_nodes:
  assumes "pa_inv (nodes s)"
  shows "pa_size (nodes s) - number_free (nodes s) = int (length (live_nodes s))"
  using assms count_live[of "slots (nodes s)"] by (simp add: live_nodes_def node_slots pa_inv_def)

end
