(* ===== verification/Scd_Rm.thy ===== *)
theory Scd_Rm
  imports Scd_State
begin

text \<open>
  The resource manager below the scheduler: \<^verbatim>\<open>orcm/mca/scd/base/scd_base_rm.c\<close>.  It
  answers a request for nodes, launches a session on its nodes and kills it there.  A handler
  returns the new state, or \<open>C_UNDEFINED\<close> where the C code has no meaning.  Releasing the
  caddy has no counterpart.
\<close>

abbreviation (input) ORCM_RM_CMD_T :: opal_data_type where "ORCM_RM_CMD_T \<equiv> OPAL_UINT8"
abbreviation (input) ORCM_LAUNCH_STEPD_COMMAND :: u8 where "ORCM_LAUNCH_STEPD_COMMAND \<equiv> 5"
abbreviation (input) ORCM_CANCEL_STEPD_COMMAND :: u8 where "ORCM_CANCEL_STEPD_COMMAND \<equiv> 6"
abbreviation (input) ORCM_RML_TAG_SCD :: nat where "ORCM_RML_TAG_SCD \<equiv> 101"
abbreviation (input) ORCM_RML_TAG_RM :: nat where "ORCM_RML_TAG_RM \<equiv> 102"
abbreviation (input) ORCM_RML_TAG_PWRMGMT_BASE :: nat where "ORCM_RML_TAG_PWRMGMT_BASE \<equiv> 109"

section \<open>State table\<close>

text \<open>\<^verbatim>\<open>states\<close> and \<^verbatim>\<open>callbacks\<close>\<close>

definition rm_states :: "(nat \<times> cbfunc) list" where
  "rm_states = [(ORCM_SESSION_STATE_UNDEF, rm_undef_cb), (ORCM_SESSION_STATE_REQ, rm_request_cb),
                (ORCM_SESSION_STATE_ACTIVE, rm_active_cb), (ORCM_SESSION_STATE_KILL, rm_kill_cb)]"

fun add_states :: "(nat \<Rightarrow> cbfunc option \<Rightarrow> int \<Rightarrow> orcm_scd_base \<Rightarrow> opal_err + orcm_scd_base) \<Rightarrow>
    (nat \<times> cbfunc) list \<Rightarrow> orcm_scd_base \<Rightarrow> opal_err + orcm_scd_base" where
  "add_states add [] s = Inr s"
| "add_states add ((state, cb) # ss) s = err_bind (add state (Some cb) ORTE_SYS_PRI s) (add_states add ss)"

text \<open>Starting the receive always succeeds.\<close>

definition scd_base_rm_init :: "orcm_scd_base \<Rightarrow> opal_err + orcm_scd_base" where
  "scd_base_rm_init s = add_states orcm_scd_base_rm_add_session_state rm_states s"

section \<open>Request\<close>

definition scd_base_rm_undef :: "session_ref \<Rightarrow> orcm_scd_base \<Rightarrow> opal_err + orcm_scd_base" where
  "scd_base_rm_undef r s = Inr s"

text \<open>
  The loop over the node table: the list of names and how many nodes are still wanted.  A node
  without a name cannot be printed into the list.
\<close>

fun pick_nodes :: "orcm_node list \<Rightarrow> int \<Rightarrow> string option \<Rightarrow> opal_err + string option \<times> int" where
  "pick_nodes [] num_nodes nodelist = Inr (nodelist, num_nodes)"
| "pick_nodes (n # ns) num_nodes nodelist =
     (if free_node n
      then case hostname n of
             None \<Rightarrow> Inl C_UNDEFINED
           | Some h \<Rightarrow>
               let nodelist = Some (case nodelist of None \<Rightarrow> h | Some l \<Rightarrow> l @ CHR '','' # h);
                   num_nodes = num_nodes - 1
               in if num_nodes = 0 then Inr (nodelist, num_nodes) else pick_nodes ns num_nodes nodelist
      else pick_nodes ns num_nodes nodelist)"

definition scd_base_rm_request :: "session_ref \<Rightarrow> orcm_scd_base \<Rightarrow> opal_err + orcm_scd_base" where
  "scd_base_rm_request r s =
     (case alloc_at s r of
        None \<Rightarrow> Inl C_UNDEFINED
      | Some al \<Rightarrow>
          if 0 < sint (al_min_nodes al)
          then err_bind (pick_nodes (live_nodes s) (sint (al_min_nodes al)) None) (\<lambda>(nodelist, num_nodes).
               err_bind
                 (if num_nodes = 0
                  then (case nodelist of
                          None \<Rightarrow> Inl C_UNDEFINED
                        | Some l \<Rightarrow>
                            (case orte_regex_create l of
                               Inl C_UNDEFINED \<Rightarrow> Inl C_UNDEFINED
                             | Inl _ \<Rightarrow> Inr (upd_alloc r (al_nodes_update (\<lambda>_. Some ''ERROR'')) s)
                             | Inr (noderegex, _) \<Rightarrow> Inr (upd_alloc r (al_nodes_update (\<lambda>_. Some noderegex)) s)))
                  else Inr s)
                 (\<lambda>s. Inr (orcm_scd_base_activate_session_state r ORCM_SESSION_STATE_ALLOCD s)))
          else Inr s)"

section \<open>Launch and kill\<close>

text \<open>A fresh buffer with a command and the allocation.\<close>

definition command_buffer :: "scd_env \<Rightarrow> u8 \<Rightarrow> orcm_alloc \<Rightarrow> opal_err + opal_buffer" where
  "command_buffer env command al =
     (let tbl = orcm_dss_types (env_dss env)
      in case dss_bind (opal_dss_pack (env_dss env) tbl (D8 [command]) 1 ORCM_RM_CMD_T) (\<lambda>_.
                opal_dss_pack (env_dss env) tbl (DAlloc [al]) 1 ORCM_ALLOC) (opal_buffer_construct (env_dss env)) of
           (Inl e, _) \<Rightarrow> Inl e
         | (Inr _, buf) \<Rightarrow> Inr buf)"

text \<open>One message; a failure makes the handler return.\<close>

definition send_command :: "scd_env \<Rightarrow> u8 \<Rightarrow> orcm_node \<Rightarrow> session_ref \<Rightarrow> orcm_scd_base \<Rightarrow> opal_err option \<times> orcm_scd_base" where
  "send_command env command n r s =
     (case alloc_at s r of
        None \<Rightarrow> (Some C_UNDEFINED, s)
      | Some al \<Rightarrow>
          (case command_buffer env command al of
             Inl e \<Rightarrow> (Some e, s)
           | Inr buf \<Rightarrow>
               (case send_buffer_nb env (daemon n) buf ORCM_RML_TAG_RM of
                  Some e \<Rightarrow> (Some e, s)
                | None \<Rightarrow> (None, s\<lparr>outbox := outbox s @ [\<lparr>msg_peer = daemon n, msg_tag = ORCM_RML_TAG_RM, msg_buffer = buf\<rparr>]\<rparr>))))"

text \<open>The inner loop over the node table; the first name makes its node the head node.\<close>

fun notify_named :: "scd_env \<Rightarrow> u8 \<Rightarrow> bool \<Rightarrow> string \<Rightarrow> session_ref \<Rightarrow> orcm_node list \<Rightarrow> orcm_scd_base \<Rightarrow>
    opal_err option \<times> orcm_scd_base" where
  "notify_named env command hnp name r [] s = (None, s)"
| "notify_named env command hnp name r (n # ns) s =
     (if hostname n = None then (Some C_UNDEFINED, s)
      else if hostname n = Some name
      then (case send_command env command n r
                   (if hnp then upd_alloc r (al_hnp_update (\<lambda>_. daemon n)) s else s) of
              (Some e, s) \<Rightarrow> (Some e, s)
            | (None, s) \<Rightarrow> notify_named env command hnp name r ns s)
      else notify_named env command hnp name r ns s)"

text \<open>
  The outer loop runs over the wanted number of nodes, whatever the length of the name array:
  past its end it compares with what lies there.
\<close>

fun notify_nodes :: "scd_env \<Rightarrow> u8 \<Rightarrow> bool \<Rightarrow> string list \<Rightarrow> nat \<Rightarrow> nat \<Rightarrow> session_ref \<Rightarrow> orcm_scd_base \<Rightarrow>
    opal_err option \<times> orcm_scd_base" where
  "notify_nodes env command launch names i 0 r s = (None, s)"
| "notify_nodes env command launch names i (Suc n) r s =
     (if i < length names
      then (case notify_named env command (launch \<and> i = 0) (names ! i) r (live_nodes s) s of
              (Some e, s) \<Rightarrow> (Some e, s)
            | (None, s) \<Rightarrow> notify_nodes env command launch names (Suc i) n r s)
      else if live_nodes s = [] then notify_nodes env command launch names (Suc i) n r s
      else (Some C_UNDEFINED, s))"

definition after_return :: "opal_err option \<times> orcm_scd_base \<Rightarrow> opal_err + orcm_scd_base" where
  "after_return res =
     (case fst res of
        Some C_UNDEFINED \<Rightarrow> Inl C_UNDEFINED
      | Some C_DIVERGES \<Rightarrow> Inl C_DIVERGES
      | _ \<Rightarrow> Inr (snd res))"

definition scd_base_rm_active :: "scd_env \<Rightarrow> session_ref \<Rightarrow> orcm_scd_base \<Rightarrow> opal_err + orcm_scd_base" where
  "scd_base_rm_active env r s =
     (case (alloc_at s r, id_at s r) of
        (Some al, Some sid) \<Rightarrow>
          (case orte_regex_extract_node_names (al_nodes al) None of
             (Some e, _) \<Rightarrow> after_return (Some e, s)
           | (None, None) \<Rightarrow> Inr s
           | (None, Some []) \<Rightarrow> Inl C_UNDEFINED
           | (None, Some (nm # names)) \<Rightarrow>
               let s = upd_alloc r (al_hnpname_update (\<lambda>_. Some nm)) s;
                   s = s\<lparr>tracking := tracking s @ [\<lparr>trk_alloc_id = sint sid, trk_count_checked_in = 0\<rparr>]\<rparr>
               in after_return (notify_nodes env ORCM_LAUNCH_STEPD_COMMAND True (nm # names) 0
                                  (nat (sint (al_min_nodes al))) r s))
      | _ \<Rightarrow> Inl C_UNDEFINED)"

definition scd_base_rm_kill :: "scd_env \<Rightarrow> session_ref \<Rightarrow> orcm_scd_base \<Rightarrow> opal_err + orcm_scd_base" where
  "scd_base_rm_kill env r s =
     (case alloc_at s r of
        None \<Rightarrow> Inl C_UNDEFINED
      | Some al \<Rightarrow>
          (case orte_regex_extract_node_names (al_nodes al) None of
             (Some e, _) \<Rightarrow> after_return (Some e, s)
           | (None, None) \<Rightarrow> Inr s
           | (None, Some names) \<Rightarrow>
               after_return (notify_nodes env ORCM_CANCEL_STEPD_COMMAND False names 0
                               (nat (sint (al_min_nodes al))) r s)))"

end
