(* ===== verification/Scd_Fifo.thy ===== *)
theory Scd_Fifo
  imports Scd_Rm
begin

text \<open>
  The first-in-first-out scheduler: \<^verbatim>\<open>orcm/mca/scd/fifo/scd_fifo.c\<close>.  Its handlers run
  as events on the scheduler's event base, one for each state of a session.
\<close>

section \<open>State table\<close>

definition fifo_states :: "(nat \<times> cbfunc) list" where
  "fifo_states = [(ORCM_SESSION_STATE_UNDEF, fifo_undef_cb), (ORCM_SESSION_STATE_INIT, fifo_find_queue_cb),
                  (ORCM_SESSION_STATE_SCHEDULE, fifo_schedule_cb), (ORCM_SESSION_STATE_ALLOCD, fifo_allocated_cb),
                  (ORCM_SESSION_STATE_TERMINATED, fifo_terminated_cb), (ORCM_SESSION_STATE_CANCEL, fifo_cancel_cb)]"

text \<open>The return code of the resource manager's initialisation is ignored.\<close>

definition fifo_init :: "orcm_scd_base \<Rightarrow> opal_err + orcm_scd_base" where
  "fifo_init s =
     add_states orcm_scd_base_add_session_state fifo_states
       (case scd_base_rm_init s of Inl _ \<Rightarrow> s | Inr s \<Rightarrow> s)"

definition fifo_undef :: "session_ref \<Rightarrow> orcm_scd_base \<Rightarrow> opal_err + orcm_scd_base" where
  "fifo_undef r s = Inr s"

section \<open>Choosing a queue\<close>

text \<open>The loop that puts a session on the queue of a name and runs the scheduler.\<close>

definition put_on_queue :: "string \<Rightarrow> session_ref \<Rightarrow> orcm_scd_base \<Rightarrow> opal_err + orcm_scd_base" where
  "put_on_queue name r s =
     (case queue_index name (queues s) of
        None \<Rightarrow> Inr s
      | Some i \<Rightarrow>
          err_bind (opal_list_append_session i r (upd_alloc r (al_queues_update (\<lambda>_. Some name)) s)) (\<lambda>s.
            Inr (orcm_scd_base_activate_session_state r ORCM_SESSION_STATE_SCHEDULE s)))"

definition exceeds_note :: "string option \<Rightarrow> string option" where
  "exceeds_note notes =
     Some (case notes of None \<Rightarrow> ''session exceeds resources''
                       | Some n \<Rightarrow> n @ '', session request exceeds defined resources'')"

definition fifo_find_queue :: "session_ref \<Rightarrow> orcm_scd_base \<Rightarrow> opal_err + orcm_scd_base" where
  "fifo_find_queue r s =
     (case alloc_at s r of
        None \<Rightarrow> Inl C_UNDEFINED
      | Some al \<Rightarrow>
          if sint (al_min_nodes al) > pa_size (nodes s) - number_free (nodes s)
          then err_bind (put_on_queue ''hold'' r s) (\<lambda>s. Inr (upd_alloc r (al_notes_update exceeds_note) s))
          else put_on_queue ''default'' r s)"

section \<open>Scheduling\<close>

text \<open>
  The loop over the queues: an empty default queue ends it, and the first session of the
  queue is taken and either sent to the resource manager or put back.
\<close>

fun schedule_queues :: "nat list \<Rightarrow> orcm_scd_base \<Rightarrow> opal_err + orcm_scd_base" where
  "schedule_queues [] s = Inr s"
| "schedule_queues (i # is) s =
     (if q_name (queues s ! i) \<noteq> ''default'' then schedule_queues is s
      else case q_sessions (queues s ! i) of
             [] \<Rightarrow> Inr s
           | r # rs \<Rightarrow>
               (case alloc_at s r of
                  None \<Rightarrow> Inl C_UNDEFINED
                | Some al \<Rightarrow>
                    err_bind
                      (if sint (al_min_nodes al) \<le> int (length (free_nodes s))
                       then Inr (orcm_scd_base_rm_activate_session_state r ORCM_SESSION_STATE_REQ (upd_queue i tl s))
                       else opal_list_prepend_session i r (upd_queue i tl s))
                      (schedule_queues is)))"

definition fifo_schedule :: "orcm_scd_base \<Rightarrow> opal_err + orcm_scd_base" where
  "fifo_schedule s = schedule_queues [0..<length (queues s)] s"

section \<open>Allocation\<close>

text \<open>The label \<^verbatim>\<open>ERROR\<close>: the first session of the running queue is unlinked.\<close>

definition allocated_error :: "session_ref \<Rightarrow> orcm_scd_base \<Rightarrow> opal_err + orcm_scd_base" where
  "allocated_error r s =
     (let s = (case queue_index ''running'' (queues s) of None \<Rightarrow> s | Some i \<Rightarrow> upd_queue i tl s)
      in case queue_index ''default'' (queues s) of
           None \<Rightarrow> Inr s
         | Some i \<Rightarrow>
             err_bind (opal_list_prepend_session i r s) (\<lambda>s.
               Inr (orcm_scd_base_activate_session_state r ORCM_SESSION_STATE_SCHEDULE s)))"

definition fifo_allocated :: "session_ref \<Rightarrow> orcm_scd_base \<Rightarrow> opal_err + orcm_scd_base" where
  "fifo_allocated r s =
     (case alloc_at s r of
        None \<Rightarrow> Inl C_UNDEFINED
      | Some al \<Rightarrow>
          err_bind
            (case queue_index ''running'' (queues s) of
               None \<Rightarrow> Inr s
             | Some i \<Rightarrow> opal_list_append_session i r (upd_alloc r (al_queues_update (\<lambda>_. Some ''running'')) s))
            (\<lambda>s. case al_nodes al of
                   None \<Rightarrow> Inl C_UNDEFINED
                 | Some nds \<Rightarrow>
                     if nds = ''ERROR'' then allocated_error r s
                     else
                       let s = orcm_scd_base_rm_activate_session_state r ORCM_SESSION_STATE_ACTIVE s
                       in case orte_regex_extract_node_names (Some nds) None of
                            (Some C_UNDEFINED, _) \<Rightarrow> Inl C_UNDEFINED
                          | (Some e, _) \<Rightarrow> allocated_error r s
                          | (None, nodenames) \<Rightarrow>
                              if int (opal_argv_count nodenames) \<noteq> sint (al_min_nodes al) then allocated_error r s
                              else set_scd_states ORCM_SCD_NODE_STATE_ALLOC
                                     (case nodenames of None \<Rightarrow> [] | Some ns \<Rightarrow> ns) s))"

section \<open>Termination and cancellation\<close>

definition fifo_terminated :: "session_ref \<Rightarrow> orcm_scd_base \<Rightarrow> opal_err + orcm_scd_base" where
  "fifo_terminated r s =
     (case alloc_at s r of
        None \<Rightarrow> Inl C_UNDEFINED
      | Some al \<Rightarrow>
          (case orte_regex_extract_node_names (al_nodes al) None of
             (Some C_UNDEFINED, _) \<Rightarrow> Inl C_UNDEFINED
           | (Some e, _) \<Rightarrow> Inr s
           | (None, nodenames) \<Rightarrow>
               err_bind (set_scd_states ORCM_SCD_NODE_STATE_UNALLOC (case nodenames of None \<Rightarrow> [] | Some ns \<Rightarrow> ns) s) (\<lambda>s.
                 let s = (case queue_index ''running'' (queues s) of
                            None \<Rightarrow> s
                          | Some i \<Rightarrow> upd_queue i (filter (\<lambda>x. id_at s x \<noteq> id_at s r)) s)
                 in Inr (orcm_scd_base_activate_session_state r ORCM_SESSION_STATE_SCHEDULE s))))"

fun cancel_queues :: "nat list \<Rightarrow> session_ref \<Rightarrow> orcm_scd_base \<Rightarrow> orcm_scd_base" where
  "cancel_queues [] r s = s"
| "cancel_queues (i # is) r s =
     cancel_queues is r
       (case find (\<lambda>x. id_at s x = id_at s r) (q_sessions (queues s ! i)) of
          None \<Rightarrow> s
        | Some x \<Rightarrow>
            if q_name (queues s ! i) = ''running''
            then orcm_scd_base_rm_activate_session_state x ORCM_SESSION_STATE_KILL s
            else orcm_scd_base_activate_session_state r ORCM_SESSION_STATE_SCHEDULE (upd_queue i (remove1 x) s))"

definition fifo_cancel :: "session_ref \<Rightarrow> orcm_scd_base \<Rightarrow> opal_err + orcm_scd_base" where
  "fifo_cancel r s =
     (if session_at s r = None then Inl C_UNDEFINED else Inr (cancel_queues [0..<length (queues s)] r s))"

section \<open>Dispatch\<close>

text \<open>The callback of an event that the event loop runs.\<close>

fun run_cbfunc :: "scd_env \<Rightarrow> cbfunc \<Rightarrow> session_ref \<Rightarrow> orcm_scd_base \<Rightarrow> opal_err + orcm_scd_base" where
  "run_cbfunc env fifo_undef_cb r s = fifo_undef r s"
| "run_cbfunc env fifo_find_queue_cb r s = fifo_find_queue r s"
| "run_cbfunc env fifo_schedule_cb r s = fifo_schedule s"
| "run_cbfunc env fifo_allocated_cb r s = fifo_allocated r s"
| "run_cbfunc env fifo_terminated_cb r s = fifo_terminated r s"
| "run_cbfunc env fifo_cancel_cb r s = fifo_cancel r s"
| "run_cbfunc env rm_undef_cb r s = scd_base_rm_undef r s"
| "run_cbfunc env rm_request_cb r s = scd_base_rm_request r s"
| "run_cbfunc env rm_active_cb r s = scd_base_rm_active env r s"
| "run_cbfunc env rm_kill_cb r s = scd_base_rm_kill env r s"

end
