(* ===== verification/Scd_Rm_Recv.thy ===== *)
theory Scd_Rm_Recv
  imports Scd_Fifo
begin

text \<open>
  Messages to the resource manager: \<^verbatim>\<open>orcm/mca/scd/base/scd_base_rm_recv.c\<close>, and
  \<^verbatim>\<open>orcm_util_get_dependents\<close> of \<^verbatim>\<open>orcm/util/utils.c\<close>.  Daemons report that
  nodes come up, go down and complete their steps; operators drain and resume nodes.
\<close>

abbreviation (input) ORCM_NODESTATE_UPDATE_COMMAND :: u8 where "ORCM_NODESTATE_UPDATE_COMMAND \<equiv> 3"
abbreviation (input) ORCM_STEPD_COMPLETE_COMMAND :: u8 where "ORCM_STEPD_COMPLETE_COMMAND \<equiv> 7"
abbreviation (input) ORCM_SET_POWER_COMMAND :: u8 where "ORCM_SET_POWER_COMMAND \<equiv> 9"

section \<open>Dependents of a controller\<close>

definition same_proc :: "opal_process_name \<Rightarrow> opal_process_name \<Rightarrow> bool" where
  "same_proc a b \<longleftrightarrow> orte_util_compare_name_fields ORTE_NS_CMP_ALL (Some a) (Some b) = OPAL_EQUAL"

definition below_row :: "orcm_row \<Rightarrow> opal_process_name list" where
  "below_row row = concat (map (\<lambda>rack. daemon (rack_controller rack) # map daemon (rack_nodes rack)) (row_racks row))"

fun find_in_racks :: "opal_process_name \<Rightarrow> orcm_rack list \<Rightarrow> opal_process_name list option" where
  "find_in_racks root [] = None"
| "find_in_racks root (rack # racks) =
     (if same_proc (daemon (rack_controller rack)) root then Some (map daemon (rack_nodes rack)) else find_in_racks root racks)"

fun find_in_rows :: "opal_process_name \<Rightarrow> orcm_row list \<Rightarrow> opal_process_name list option" where
  "find_in_rows root [] = None"
| "find_in_rows root (row # rows) =
     (if same_proc (daemon (row_controller row)) root then Some (below_row row)
      else case find_in_racks root (row_racks row) of
             Some names \<Rightarrow> Some names
           | None \<Rightarrow> find_in_rows root rows)"

fun orcm_util_get_dependents :: "orcm_cluster list \<Rightarrow> opal_process_name \<Rightarrow> opal_process_name list option" where
  "orcm_util_get_dependents [] root = None"
| "orcm_util_get_dependents (cluster # clusters) root =
     (if same_proc (daemon (cluster_controller cluster)) root
      then Some (concat (map (\<lambda>row. daemon (row_controller row) # below_row row) (cluster_rows cluster)))
      else case find_in_rows root (cluster_rows cluster) of
             Some names \<Rightarrow> Some names
           | None \<Rightarrow> orcm_util_get_dependents clusters root)"

section \<open>Node states\<close>

text \<open>The first node that satisfies a condition is changed, and the search ends there.\<close>

fun upd_first :: "(orcm_node \<Rightarrow> bool) \<Rightarrow> (orcm_node \<Rightarrow> orcm_node) \<Rightarrow> orcm_node option list \<Rightarrow> orcm_node option list" where
  "upd_first P f [] = []"
| "upd_first P f (None # ns) = None # upd_first P f ns"
| "upd_first P f (Some n # ns) = (if P n then Some (f n) # ns else Some n # upd_first P f ns)"

definition upd_first_node :: "(orcm_node \<Rightarrow> bool) \<Rightarrow> (orcm_node \<Rightarrow> orcm_node) \<Rightarrow> orcm_scd_base \<Rightarrow> orcm_scd_base" where
  "upd_first_node P f s = s\<lparr>nodes := (nodes s)\<lparr>addr := map_option (upd_first P f) (addr (nodes s))\<rparr>\<rparr>"

text \<open>
  The new state of one node: the topology and the reset of the scheduling state depend on the
  state of the message, the stored state is \<open>newstate\<close>.
\<close>

definition update_node :: "u8 \<Rightarrow> u8 \<Rightarrow> topology \<Rightarrow> orcm_node \<Rightarrow> orcm_node" where
  "update_node state newstate topo n =
     (let n = n\<lparr>nd_state := newstate\<rparr>;
          n = (if state = ORCM_NODE_STATE_UP then n\<lparr>topology := topo\<rparr> else n)
      in if state = ORCM_NODE_STATE_UP \<and>
            (scd_state n = ORCM_SCD_NODE_STATE_UNDEF \<or> scd_state n = ORCM_SCD_NODE_STATE_UNKNOWN)
         then n\<lparr>scd_state := ORCM_SCD_NODE_STATE_UNALLOC\<rparr> else n)"

fun update_each :: "('a \<Rightarrow> orcm_node \<Rightarrow> bool) \<Rightarrow> (orcm_node \<Rightarrow> orcm_node) \<Rightarrow> 'a list \<Rightarrow> bool \<Rightarrow> orcm_scd_base \<Rightarrow>
    bool \<times> orcm_scd_base" where
  "update_each P f [] found s = (found, s)"
| "update_each P f (x # xs) found s =
     (if list_ex (P x) (live_nodes s) then update_each P f xs True (upd_first_node (P x) f s)
      else update_each P f xs found s)"

text \<open>The search for a name compares with the names of all nodes before the one found.\<close>

definition name_search_ok :: "orcm_node list \<Rightarrow> string \<Rightarrow> bool" where
  "name_search_ok ns nm = list_all (\<lambda>n. hostname n \<noteq> None) (takeWhile (\<lambda>n. hostname n \<noteq> Some nm) ns)"

definition update_nodestate_byproc :: "u8 \<Rightarrow> opal_process_name list \<Rightarrow> topology \<Rightarrow> orcm_scd_base \<Rightarrow>
    opal_err option \<times> orcm_scd_base" where
  "update_nodestate_byproc state nodelist topo s =
     (let (found, s) = update_each (\<lambda>nm n. same_proc (daemon n) nm) (update_node state state topo) nodelist False s
      in (if found then None else Some OPAL_ERR_NOT_FOUND, s))"

definition update_nodestate_byname :: "u8 \<Rightarrow> string option \<Rightarrow> topology \<Rightarrow> orcm_scd_base \<Rightarrow>
    opal_err option \<times> orcm_scd_base" where
  "update_nodestate_byname state regexp topo s =
     (let newstate = (if state = ORCM_NODE_STATE_RESUME then ORCM_NODE_STATE_UP else state)
      in case orte_regex_extract_node_names regexp None of
           (Some e, _) \<Rightarrow> (Some e, s)
         | (None, nodenames) \<Rightarrow>
             let names = (case nodenames of None \<Rightarrow> [] | Some ns \<Rightarrow> ns)
             in if \<not> list_all (name_search_ok (live_nodes s)) names then (Some C_UNDEFINED, s)
                else let (found, s) = update_each (\<lambda>nm n. hostname n = Some nm) (update_node state newstate topo)
                                        names False s
                     in (if found then None else Some OPAL_ERR_NOT_FOUND, s))"

section \<open>Receiving\<close>

text \<open>An unpack that fails makes the handler return.\<close>

definition unpacked :: "'a dss \<Rightarrow> opal_buffer \<Rightarrow> orcm_scd_base \<Rightarrow> ('a \<Rightarrow> opal_buffer \<Rightarrow> opal_err + orcm_scd_base) \<Rightarrow>
    opal_err + orcm_scd_base" where
  "unpacked u buffer s k =
     (case u buffer of (Inl e, _) \<Rightarrow> after_return (Some e, s) | (Inr x, buffer) \<Rightarrow> k x buffer)"

definition getalloc :: "dss_data \<Rightarrow> orcm_alloc dss" where
  "getalloc d = (case d of DAlloc (al # _) \<Rightarrow> dss_return al | _ \<Rightarrow> dss_fail C_UNDEFINED)"

definition unpack1 :: "scd_env \<Rightarrow> opal_data_type \<Rightarrow> (dss_data \<Rightarrow> 'a dss) \<Rightarrow> 'a dss" where
  "unpack1 env type get = dss_bind (opal_dss_unpack (orcm_dss_types (env_dss env)) 1 type) (\<lambda>(_, d). get d)"

text \<open>Packing an answer and sending it; a failure makes the handler return.\<close>

definition answer :: "scd_env \<Rightarrow> opal_process_name \<Rightarrow> nat \<Rightarrow> unit dss \<Rightarrow> orcm_scd_base \<Rightarrow> opal_err option \<times> orcm_scd_base" where
  "answer env peer tag p s =
     (case p (opal_buffer_construct (env_dss env)) of
        (Inl e, _) \<Rightarrow> (Some e, s)
      | (Inr _, ans) \<Rightarrow>
          (case send_buffer_nb env peer ans tag of
             Some e \<Rightarrow> (Some e, s)
           | None \<Rightarrow> (None, s\<lparr>outbox := outbox s @ [\<lparr>msg_peer = peer, msg_tag = tag, msg_buffer = ans\<rparr>]\<rparr>)))"

definition pack1 :: "scd_env \<Rightarrow> opal_data_type \<Rightarrow> dss_data \<Rightarrow> unit dss" where
  "pack1 env type d = opal_dss_pack (env_dss env) (orcm_dss_types (env_dss env)) d 1 type"

text \<open>
  The topology of a node that comes up: a known one is destroyed again, a new one kept.  The
  pointer that is passed on is the received one in both cases.
\<close>

definition keep_topology :: "scd_env \<Rightarrow> string \<Rightarrow> orcm_scd_base \<Rightarrow> opal_err + topology \<times> orcm_scd_base" where
  "keep_topology env topo s =
     (if list_ex (\<lambda>t. case opal_pointer_array_get_item (topologies s) t of
                        Some (Topo x) \<Rightarrow> equal_topology env topo x | _ \<Rightarrow> False)
                 [0..<nat (pa_size (topologies s))]
      then Inr (TopoFreed, s)
      else case opal_pointer_array_add (heap_grants (env_dss env)) (topologies s) (Some (Topo topo)) of
             Inl C_UNDEFINED \<Rightarrow> Inl C_UNDEFINED
           | Inl _ \<Rightarrow> Inr (Topo topo, s)
           | Inr (_, tops) \<Rightarrow> Inr (Topo topo, s\<lparr>topologies := tops\<rparr>))"

definition rm_recv_up :: "scd_env \<Rightarrow> opal_buffer \<Rightarrow> orcm_scd_base \<Rightarrow> opal_err + orcm_scd_base" where
  "rm_recv_up env buffer s =
     unpacked (unpack1 env OPAL_NAME getname) buffer s (\<lambda>node buffer.
     unpacked (unpack1 env OPAL_BOOL get8) buffer s (\<lambda>have_hwloc_topo buffer.
       if have_hwloc_topo \<noteq> 0
       then unpacked (unpack_topology env) buffer s (\<lambda>topo _.
              err_bind (keep_topology env topo s) (\<lambda>(t, s).
                after_return (None, snd (update_nodestate_byproc ORCM_NODE_STATE_UP [node] t s))))
       else Inr (snd (update_nodestate_byproc ORCM_NODE_STATE_UP [node] TopoNull s))))"

definition rm_recv_down :: "scd_env \<Rightarrow> opal_buffer \<Rightarrow> orcm_scd_base \<Rightarrow> opal_err + orcm_scd_base" where
  "rm_recv_down env buffer s =
     unpacked (unpack1 env OPAL_NAME getname) buffer s (\<lambda>node _.
       let nodelist = (case orcm_util_get_dependents (orcm_clusters env) node of None \<Rightarrow> [] | Some ns \<Rightarrow> ns)
       in Inr (snd (update_nodestate_byproc ORCM_NODE_STATE_DOWN (if nodelist = [] then [node] else nodelist) TopoNull s)))"

text \<open>Drain and resume, with the result sent back.\<close>

definition rm_recv_byname :: "scd_env \<Rightarrow> opal_process_name \<Rightarrow> u8 \<Rightarrow> opal_buffer \<Rightarrow> orcm_scd_base \<Rightarrow> opal_err + orcm_scd_base" where
  "rm_recv_byname env sender state buffer s =
     unpacked (unpack1 env OPAL_STRING getstr) buffer s (\<lambda>regexp _.
       case update_nodestate_byname state regexp TopoNull s of (rc, s) \<Rightarrow>
         if rc = Some C_UNDEFINED then Inl C_UNDEFINED
         else after_return (answer env sender ORCM_RML_TAG_RM (pack1 env OPAL_INT (D32 [word_of_int (rc_code rc)])) s))"

definition rm_recv_nodestate :: "scd_env \<Rightarrow> opal_process_name \<Rightarrow> opal_buffer \<Rightarrow> orcm_scd_base \<Rightarrow> opal_err + orcm_scd_base" where
  "rm_recv_nodestate env sender buffer s =
     unpacked (unpack1 env OPAL_INT8 get8) buffer s (\<lambda>state buffer.
       if state = ORCM_NODE_STATE_UP then rm_recv_up env buffer s
       else if state = ORCM_NODE_STATE_DOWN then rm_recv_down env buffer s
       else if state = ORCM_NODE_STATE_DRAIN \<or> state = ORCM_NODE_STATE_RESUME
       then rm_recv_byname env sender state buffer s
       else Inr s)"

text \<open>
  A node has completed its step.  The last one terminates the session, for which a new object
  with the received allocation stands.
\<close>

fun check_in :: "scd_env \<Rightarrow> orcm_alloc \<Rightarrow> orcm_alloc_tracker list \<Rightarrow> orcm_alloc_tracker list \<Rightarrow> orcm_scd_base \<Rightarrow>
    opal_err + orcm_scd_base" where
  "check_in env al done [] s = Inr s"
| "check_in env al done (trk # trks) s =
     (if trk_alloc_id trk = sint (al_id al)
      then if trk_count_checked_in trk = INT_MAX then Inl C_UNDEFINED
           else let trk = trk\<lparr>trk_count_checked_in := trk_count_checked_in trk + 1\<rparr>
                in if trk_count_checked_in trk = sint (al_min_nodes al)
                   then let (r, s) = new_session \<lparr>ses_id = ucast (al_id al), ses_uid = uninit_uid env, ses_alloc = Some al\<rparr> s;
                            s = orcm_scd_base_activate_session_state r ORCM_SESSION_STATE_TERMINATED s
                        in Inr (s\<lparr>tracking := done @ trks\<rparr>)
                   else Inr (s\<lparr>tracking := done @ trk # trks\<rparr>)
      else check_in env al (done @ [trk]) trks s)"

definition rm_recv_complete :: "scd_env \<Rightarrow> opal_buffer \<Rightarrow> orcm_scd_base \<Rightarrow> opal_err + orcm_scd_base" where
  "rm_recv_complete env buffer s =
     unpacked (unpack1 env ORCM_ALLOC getalloc) buffer s (\<lambda>al _. check_in env al [] (tracking s) s)"

definition rm_recv_power :: "scd_env \<Rightarrow> u8 \<Rightarrow> opal_buffer \<Rightarrow> orcm_scd_base \<Rightarrow> opal_err + orcm_scd_base" where
  "rm_recv_power env command buffer s =
     unpacked (unpack1 env ORCM_ALLOC getalloc) buffer s (\<lambda>al _.
       after_return (answer env (al_hnp al) ORCM_RML_TAG_PWRMGMT_BASE
         (dss_bind (pack1 env ORCM_RM_CMD_T (D8 [command])) (\<lambda>_. pack1 env ORCM_ALLOC (DAlloc [al]))) s))"

definition orcm_scd_base_rm_recv :: "scd_env \<Rightarrow> opal_process_name \<Rightarrow> opal_buffer \<Rightarrow> orcm_scd_base \<Rightarrow> opal_err + orcm_scd_base" where
  "orcm_scd_base_rm_recv env sender buffer s =
     unpacked (unpack1 env ORCM_RM_CMD_T get8) buffer s (\<lambda>command buffer.
       if command = ORCM_NODESTATE_UPDATE_COMMAND then rm_recv_nodestate env sender buffer s
       else if command = ORCM_STEPD_COMPLETE_COMMAND then rm_recv_complete env buffer s
       else if command = ORCM_SET_POWER_COMMAND then rm_recv_power env command buffer s
       else Inr s)"

end
