(* ===== verification/Scd_Recv.thy ===== *)
theory Scd_Recv
  imports Scd_Rm_Recv
begin

text \<open>
  Messages to the scheduler: \<^verbatim>\<open>orcm/mca/scd/base/scd_base_recv.c\<close>.  Clients request
  sessions, ask about queues and nodes, cancel sessions and change power settings, of the
  cluster or of one session.  Each branch of the handler is a definition; every branch ends
  with an answer to the sender or returns without one.
\<close>

abbreviation (input) ORCM_SCD_CMD_T :: opal_data_type where "ORCM_SCD_CMD_T \<equiv> OPAL_UINT8"
abbreviation (input) ORCM_ALLOC_ID_T :: opal_data_type where "ORCM_ALLOC_ID_T \<equiv> OPAL_INT64"
abbreviation (input) ORCM_SESSION_REQ_COMMAND :: u8 where "ORCM_SESSION_REQ_COMMAND \<equiv> 1"
abbreviation (input) ORCM_SESSION_INFO_COMMAND :: u8 where "ORCM_SESSION_INFO_COMMAND \<equiv> 2"
abbreviation (input) ORCM_SESSION_CANCEL_COMMAND :: u8 where "ORCM_SESSION_CANCEL_COMMAND \<equiv> 3"
abbreviation (input) ORCM_NODE_INFO_COMMAND :: u8 where "ORCM_NODE_INFO_COMMAND \<equiv> 4"
abbreviation (input) ORCM_GET_POWER_COMMAND :: u8 where "ORCM_GET_POWER_COMMAND \<equiv> 10"
abbreviation (input) ORCM_PWRMGMT_START_KEY :: u16 where "ORCM_PWRMGMT_START_KEY \<equiv> 2000"

section \<open>Answers\<close>

definition reply :: "scd_env \<Rightarrow> opal_process_name \<Rightarrow> unit dss \<Rightarrow> orcm_scd_base \<Rightarrow> opal_err + orcm_scd_base" where
  "reply env sender p s = after_return (answer env sender ORCM_RML_TAG_SCD p s)"

text \<open>An unpack that fails jumps to the label \<^verbatim>\<open>answer\<close>, with nothing packed.\<close>

definition wanted :: "scd_env \<Rightarrow> opal_process_name \<Rightarrow> 'a dss \<Rightarrow> opal_buffer \<Rightarrow> orcm_scd_base \<Rightarrow>
    ('a \<Rightarrow> opal_buffer \<Rightarrow> opal_err + orcm_scd_base) \<Rightarrow> opal_err + orcm_scd_base" where
  "wanted env sender u buffer s k =
     (case u buffer of
        (Inl e, _) \<Rightarrow> err_bind (after_return (Some e, s)) (reply env sender (dss_return ()))
      | (Inr x, buffer) \<Rightarrow> k x buffer)"

definition pack_int :: "scd_env \<Rightarrow> int \<Rightarrow> unit dss" where
  "pack_int env n = pack1 env OPAL_INT (D32 [word_of_int n])"

section \<open>Power settings\<close>

datatype power_param =
    Budget | Mode | Window | Overage | Underage | OverageTime | UnderageTime | Frequency | Strict

text \<open>The cases of the two switches; the command for the list of modes has none.\<close>

definition set_command :: "u8 \<Rightarrow> power_param option" where
  "set_command c =
     (if c = 11 then Some Budget else if c = 12 then Some Mode else if c = 13 then Some Window
      else if c = 14 then Some Overage else if c = 15 then Some Underage else if c = 16 then Some OverageTime
      else if c = 17 then Some UnderageTime else if c = 18 then Some Frequency else if c = 19 then Some Strict
      else None)"

definition get_command :: "u8 \<Rightarrow> power_param option" where
  "get_command c =
     (if c = 20 then Some Budget else if c = 21 then Some Mode else if c = 22 then Some Window
      else if c = 23 then Some Overage else if c = 24 then Some Underage else if c = 25 then Some OverageTime
      else if c = 26 then Some UnderageTime else if c = 27 then Some Frequency else if c = 29 then Some Strict
      else None)"

fun param_key :: "power_param \<Rightarrow> u16" where
  "param_key Mode = ORCM_PWRMGMT_START_KEY + 1"
| "param_key Budget = ORCM_PWRMGMT_START_KEY + 2"
| "param_key Window = ORCM_PWRMGMT_START_KEY + 3"
| "param_key Overage = ORCM_PWRMGMT_START_KEY + 4"
| "param_key Underage = ORCM_PWRMGMT_START_KEY + 5"
| "param_key OverageTime = ORCM_PWRMGMT_START_KEY + 6"
| "param_key UnderageTime = ORCM_PWRMGMT_START_KEY + 7"
| "param_key Frequency = ORCM_PWRMGMT_START_KEY + 9"
| "param_key Strict = ORCM_PWRMGMT_START_KEY + 11"

fun param_type :: "power_param \<Rightarrow> opal_data_type" where
  "param_type Frequency = OPAL_FLOAT"
| "param_type Strict = OPAL_BOOL"
| "param_type _ = OPAL_INT32"

definition get_param :: "dss_data \<Rightarrow> attr_data dss" where
  "get_param d =
     (case d of
        D32 (x # _) \<Rightarrow> dss_return (A32 x)
      | D8 (x # _) \<Rightarrow> dss_return (A8 x)
      | _ \<Rightarrow> dss_fail C_UNDEFINED)"

definition param_data :: "attr_data \<Rightarrow> dss_data" where
  "param_data v = (case v of A8 x \<Rightarrow> D8 [x] | A32 x \<Rightarrow> D32 [x] | _ \<Rightarrow> D8 [])"

definition int_of_param :: "attr_data \<Rightarrow> int" where
  "int_of_param v = (case v of A32 x \<Rightarrow> sint x | _ \<Rightarrow> 0)"

definition bits_of_param :: "attr_data \<Rightarrow> u32" where
  "bits_of_param v = (case v of A32 x \<Rightarrow> x | _ \<Rightarrow> 0)"

definition flag_of_param :: "attr_data \<Rightarrow> u8" where
  "flag_of_param v = (case v of A8 x \<Rightarrow> x | _ \<Rightarrow> 0)"

fun set_cluster_power :: "power_param \<Rightarrow> attr_data \<Rightarrow> orcm_scd_base \<Rightarrow> orcm_scd_base" where
  "set_cluster_power Budget v = orcm_scd_base_set_cluster_power_budget (int_of_param v)"
| "set_cluster_power Mode v = orcm_scd_base_set_cluster_power_mode (int_of_param v)"
| "set_cluster_power Window v = orcm_scd_base_set_cluster_power_window (int_of_param v)"
| "set_cluster_power Overage v = orcm_scd_base_set_cluster_power_overage (int_of_param v)"
| "set_cluster_power Underage v = orcm_scd_base_set_cluster_power_underage (int_of_param v)"
| "set_cluster_power OverageTime v = orcm_scd_base_set_cluster_power_overage_time (int_of_param v)"
| "set_cluster_power UnderageTime v = orcm_scd_base_set_cluster_power_underage_time (int_of_param v)"
| "set_cluster_power Frequency v = orcm_scd_base_set_cluster_power_frequency (bits_of_param v)"
| "set_cluster_power Strict v = orcm_scd_base_set_cluster_power_strict (flag_of_param v)"

fun get_cluster_power :: "power_param \<Rightarrow> orcm_scd_base \<Rightarrow> attr_data" where
  "get_cluster_power Budget s = A32 (word_of_int (orcm_scd_base_get_cluster_power_budget s))"
| "get_cluster_power Mode s = A32 (word_of_int (orcm_scd_base_get_cluster_power_mode s))"
| "get_cluster_power Window s = A32 (word_of_int (orcm_scd_base_get_cluster_power_window s))"
| "get_cluster_power Overage s = A32 (word_of_int (orcm_scd_base_get_cluster_power_overage s))"
| "get_cluster_power Underage s = A32 (word_of_int (orcm_scd_base_get_cluster_power_underage s))"
| "get_cluster_power OverageTime s = A32 (word_of_int (orcm_scd_base_get_cluster_power_overage_time s))"
| "get_cluster_power UnderageTime s = A32 (word_of_int (orcm_scd_base_get_cluster_power_underage_time s))"
| "get_cluster_power Frequency s = A32 (orcm_scd_base_get_cluster_power_frequency s)"
| "get_cluster_power Strict s = A8 (orcm_scd_base_get_cluster_power_strict s)"

section \<open>Session requests\<close>

text \<open>
  The share of the cluster's power budget for an allocation.  Division truncates, and a product
  outside \<^verbatim>\<open>int32_t\<close> is not defined.
\<close>

definition c_div :: "int \<Rightarrow> int \<Rightarrow> int" where
  "c_div a b = sgn a * sgn b * (abs a div abs b)"

definition alloc_power_budget :: "orcm_alloc \<Rightarrow> orcm_scd_base \<Rightarrow> opal_err + int" where
  "alloc_power_budget al s =
     (if orcm_scd_base_get_cluster_power_budget s = - 1 then Inr (- 1)
      else
        let count = pa_size (nodes s) - number_free (nodes s);
            node_power_budget = (if count = 0 then - 1 else c_div (orcm_scd_base_get_cluster_power_budget s) count);
            budget = node_power_budget * sint (al_min_nodes al)
        in if node_power_budget = - 1 then Inr (- 1)
           else if budget < - (2 ^ 31) \<or> 2 ^ 31 \<le> budget then Inl C_UNDEFINED
           else Inr budget)"

text \<open>The attributes in the order they are set, with the cluster's defaults.\<close>

definition power_constraints :: "int \<Rightarrow> orcm_scd_base \<Rightarrow> (power_param \<times> attr_data) list" where
  "power_constraints budget s =
     (Budget, A32 (word_of_int budget)) #
     map (\<lambda>p. (p, get_cluster_power p s)) [Mode, Window, Overage, Underage, OverageTime, UnderageTime, Frequency, Strict]"

text \<open>The attributes set one after the other, up to the first failure.\<close>

fun set_constraints :: "(power_param \<times> attr_data) list \<Rightarrow> orte_attribute list \<Rightarrow> opal_err option \<times> orte_attribute list" where
  "set_constraints [] attrs = (None, attrs)"
| "set_constraints ((p, v) # ps) attrs =
     (case orte_set_attribute attrs (param_key p) False (Some v) (param_type p) of
        Inl e \<Rightarrow> (Some e, attrs)
      | Inr attrs \<Rightarrow> set_constraints ps attrs)"

text \<open>
  The session id is packed as an eight-byte allocation id: the user id that lies behind it in
  the session object goes along, as the word behind the error code does.
\<close>

definition as_alloc_id :: "u32 \<Rightarrow> u32 \<Rightarrow> u64" where
  "as_alloc_id low high = ucast low + push_bit 32 (ucast high)"

definition admit_session :: "scd_env \<Rightarrow> opal_process_name \<Rightarrow> u32 \<Rightarrow> orcm_alloc \<Rightarrow> session_ref \<Rightarrow> orcm_scd_base \<Rightarrow>
    opal_err + orcm_scd_base" where
  "admit_session env sender sid al r s =
     err_bind (alloc_power_budget al s) (\<lambda>budget.
       case set_constraints (power_constraints budget s) (al_constraints al) of
         (Some e, attrs) \<Rightarrow> after_return (Some e, upd_alloc r (al_constraints_update (\<lambda>_. attrs)) s)
       | (None, attrs) \<Rightarrow>
           (case pwrmgmt_alloc_notify env (al\<lparr>al_constraints := attrs\<rparr>) of
              (Some e, al) \<Rightarrow>
                reply env sender (pack1 env ORCM_ALLOC_ID_T (D64 [as_alloc_id (- 1) (uninit_word env)]))
                  (upd_alloc r (\<lambda>_. al) s)
            | (None, al) \<Rightarrow>
                (case answer env sender ORCM_RML_TAG_SCD
                        (pack1 env ORCM_ALLOC_ID_T (D64 [as_alloc_id sid (uninit_uid env)])) (upd_alloc r (\<lambda>_. al) s) of
                   (Some e, s) \<Rightarrow> after_return (Some e, s)
                 | (None, s) \<Rightarrow> Inr (orcm_scd_base_activate_session_state r ORCM_SESSION_STATE_INIT s))))"

definition scd_recv_req :: "scd_env \<Rightarrow> opal_process_name \<Rightarrow> opal_buffer \<Rightarrow> orcm_scd_base \<Rightarrow> opal_err + orcm_scd_base" where
  "scd_recv_req env sender buffer s =
     wanted env sender (unpack1 env ORCM_ALLOC getalloc) buffer s (\<lambda>al _.
       let (sid, s) = orcm_scd_base_get_next_session_id s;
           al = al\<lparr>al_id := ucast sid\<rparr>;
           (r, s) = new_session \<lparr>ses_id = sid, ses_uid = uninit_uid env, ses_alloc = Some al\<rparr> s
       in admit_session env sender sid al r s)"

section \<open>Queries and cancellation\<close>

text \<open>One queue: its name, its length, and the allocations of its sessions.\<close>

definition queue_allocs :: "orcm_scd_base \<Rightarrow> orcm_queue \<Rightarrow> orcm_alloc option list" where
  "queue_allocs s q = map (alloc_at s) (q_sessions q)"

definition pack_queue :: "scd_env \<Rightarrow> orcm_scd_base \<Rightarrow> orcm_queue \<Rightarrow> unit dss" where
  "pack_queue env s q =
     (let cnt = c_int32 (int (length (q_sessions q)))
      in dss_bind (pack1 env OPAL_STRING (DString [Some (q_name q)])) (\<lambda>_.
         dss_bind (pack_int env cnt) (\<lambda>_.
         if 0 < cnt
         then if \<not> c_alloc_ok (env_dss env) (8 * nat cnt) then dss_fail OPAL_ERR_OUT_OF_RESOURCE
              else if None \<in> set (queue_allocs s q) then dss_fail C_UNDEFINED
              else opal_dss_pack (env_dss env) (orcm_dss_types (env_dss env))
                     (DAlloc (map the (queue_allocs s q))) cnt ORCM_ALLOC
         else dss_return ())))"

definition scd_recv_info :: "scd_env \<Rightarrow> opal_process_name \<Rightarrow> orcm_scd_base \<Rightarrow> opal_err + orcm_scd_base" where
  "scd_recv_info env sender s =
     reply env sender
       (dss_bind (pack_int env (c_int32 (int (length (queues s))))) (\<lambda>_. dss_seq (map (pack_queue env s) (queues s)))) s"

text \<open>
  The eight bytes of the id are unpacked over a variable of four: it receives the first four, on
  a little endian machine the low half.  What lies behind it is taken to be left alone.
\<close>

definition scd_recv_cancel :: "scd_env \<Rightarrow> opal_process_name \<Rightarrow> opal_buffer \<Rightarrow> orcm_scd_base \<Rightarrow> opal_err + orcm_scd_base" where
  "scd_recv_cancel env sender buffer s =
     wanted env sender (unpack1 env ORCM_ALLOC_ID_T get64) buffer s (\<lambda>sessionid _.
       let (r, s) = new_session \<lparr>ses_id = ucast sessionid, ses_uid = uninit_uid env, ses_alloc = None\<rparr> s;
           s = orcm_scd_base_activate_session_state r ORCM_SESSION_STATE_CANCEL s
       in reply env sender (pack_int env 0) s)"

text \<open>The nodes below the lowest free slot of the table, and their supposed number.\<close>

definition scd_recv_node_info :: "scd_env \<Rightarrow> opal_process_name \<Rightarrow> orcm_scd_base \<Rightarrow> opal_err + orcm_scd_base" where
  "scd_recv_node_info env sender s =
     (let cnt = lowest_free (nodes s);
          ns = List.map_filter (opal_pointer_array_get_item (nodes s)) [0..<nat cnt]
      in reply env sender
           (dss_bind (pack_int env cnt) (\<lambda>_.
            if 0 < cnt
            then if \<not> c_alloc_ok (env_dss env) (8 * nat cnt) then dss_fail OPAL_ERR_OUT_OF_RESOURCE
                 else opal_dss_pack (env_dss env) (orcm_dss_types (env_dss env)) (DNode ns) (int (length ns)) ORCM_NODE
            else dss_return ())) s)"

section \<open>Setting and reading power settings\<close>

text \<open>
  The first session on the queues whose allocation has the id, with the name of its queue.  A
  session without an allocation is dereferenced all the same.
\<close>

fun find_alloc :: "(string \<times> session_ref) list \<Rightarrow> u64 \<Rightarrow> orcm_scd_base \<Rightarrow> opal_err + (string \<times> session_ref) option" where
  "find_alloc [] aid s = Inr None"
| "find_alloc ((qn, r) # qs) aid s =
     (case alloc_at s r of
        None \<Rightarrow> Inl C_UNDEFINED
      | Some al \<Rightarrow> if al_id al = aid then Inr (Some (qn, r)) else find_alloc qs aid s)"

definition on_queues :: "orcm_scd_base \<Rightarrow> (string \<times> session_ref) list" where
  "on_queues s = concat (map (\<lambda>q. map (Pair (q_name q)) (q_sessions q)) (queues s))"

text \<open>The request is forwarded to the resource manager of the running session.\<close>

definition forward_power :: "scd_env \<Rightarrow> orcm_alloc \<Rightarrow> orcm_scd_base \<Rightarrow> opal_err option \<times> orcm_scd_base" where
  "forward_power env al s =
     answer env (my_scheduler env) ORCM_RML_TAG_RM
       (dss_bind (pack1 env ORCM_RM_CMD_T (D8 [ORCM_SET_POWER_COMMAND])) (\<lambda>_. pack1 env ORCM_ALLOC (DAlloc [al]))) s"

text \<open>What the confirmation says, once the attribute is set and the running session told.\<close>

definition confirm_power :: "scd_env \<Rightarrow> opal_process_name \<Rightarrow> string \<Rightarrow> int \<Rightarrow> orcm_alloc \<Rightarrow> orcm_scd_base \<Rightarrow>
    opal_err + orcm_scd_base" where
  "confirm_power env sender qn result al s =
     (if qn = ''running''
      then (case forward_power env al s of
              (Some e, s) \<Rightarrow> err_bind (after_return (Some e, s)) (reply env sender (pack_int env (rc_code (Some e))))
            | (None, s) \<Rightarrow> reply env sender (pack_int env result) s)
      else reply env sender (pack_int env result) s)"

definition set_session_power :: "scd_env \<Rightarrow> opal_process_name \<Rightarrow> u8 \<Rightarrow> string \<Rightarrow> session_ref \<Rightarrow> orcm_alloc \<Rightarrow>
    opal_buffer \<Rightarrow> orcm_scd_base \<Rightarrow> opal_err + orcm_scd_base" where
  "set_session_power env sender sub qn r al buffer s =
     (case set_command sub of
        None \<Rightarrow> confirm_power env sender qn (rc_code (Some OPAL_ERR_BAD_PARAM)) al s
      | Some p \<Rightarrow>
          wanted env sender (unpack1 env (param_type p) get_param) buffer s (\<lambda>v _.
            let (rc, al) = (case orte_set_attribute (al_constraints al) (param_key p) False (Some v) (param_type p) of
                              Inl e \<Rightarrow> (Some e, al)
                            | Inr attrs \<Rightarrow> (None, al\<lparr>al_constraints := attrs\<rparr>));
                al = (if p = Mode then snd (pwrmgmt_alloc_notify env al) else al)
            in confirm_power env sender qn (rc_code rc) al (upd_alloc r (\<lambda>_. al) s)))"

definition scd_recv_set_power :: "scd_env \<Rightarrow> opal_process_name \<Rightarrow> opal_buffer \<Rightarrow> orcm_scd_base \<Rightarrow> opal_err + orcm_scd_base" where
  "scd_recv_set_power env sender buffer s =
     wanted env sender (unpack1 env ORCM_SCD_CMD_T get8) buffer s (\<lambda>sub buffer.
     wanted env sender (unpack1 env OPAL_BOOL get8) buffer s (\<lambda>per_session buffer.
       if per_session = 0
       then (case set_command sub of
               None \<Rightarrow> reply env sender (pack_int env (rc_code (Some OPAL_ERR_BAD_PARAM))) s
             | Some p \<Rightarrow>
                 wanted env sender (unpack1 env (param_type p) get_param) buffer s (\<lambda>v _.
                   reply env sender (pack_int env 0) (set_cluster_power p v s)))
       else wanted env sender (unpack1 env ORCM_ALLOC_ID_T get64) buffer s (\<lambda>sessionid buffer.
              err_bind (find_alloc (on_queues s) (ucast (ucast sessionid :: u32)) s) (\<lambda>found.
                case found of
                  None \<Rightarrow> reply env sender (pack1 env OPAL_INT (D32 [uninit_result env])) s
                | Some (qn, r) \<Rightarrow>
                    (case alloc_at s r of
                       None \<Rightarrow> Inl C_UNDEFINED
                     | Some al \<Rightarrow> set_session_power env sender sub qn r al buffer s)))))"

text \<open>
  The answer to a question about one session.  Where the attribute is missing the answer is an
  error, but for the time window: there the return code of the last unpack is packed, which is
  success, and no value follows.
\<close>

definition pack_session_power :: "scd_env \<Rightarrow> u8 \<Rightarrow> orcm_alloc \<Rightarrow> unit dss" where
  "pack_session_power env sub al =
     (case get_command sub of
        None \<Rightarrow> pack_int env (rc_code (Some OPAL_ERR_BAD_PARAM))
      | Some p \<Rightarrow>
          (case orte_get_attribute (al_constraints al) (param_key p) (Some True) (param_type p) of
             (False, _) \<Rightarrow> pack_int env (if p = Window then 0 else rc_code (Some OPAL_ERR_BAD_PARAM))
           | (True, None) \<Rightarrow> dss_fail C_UNDEFINED
           | (True, Some v) \<Rightarrow> dss_bind (pack_int env 0) (\<lambda>_. pack1 env (param_type p) (param_data v))))"

definition scd_recv_get_power :: "scd_env \<Rightarrow> opal_process_name \<Rightarrow> opal_buffer \<Rightarrow> orcm_scd_base \<Rightarrow> opal_err + orcm_scd_base" where
  "scd_recv_get_power env sender buffer s =
     wanted env sender (unpack1 env ORCM_SCD_CMD_T get8) buffer s (\<lambda>sub buffer.
     wanted env sender (unpack1 env OPAL_BOOL get8) buffer s (\<lambda>per_session buffer.
       if per_session = 0
       then reply env sender
              (case get_command sub of
                 None \<Rightarrow> pack_int env (rc_code (Some OPAL_ERR_BAD_PARAM))
               | Some p \<Rightarrow> dss_bind (pack_int env 0) (\<lambda>_. pack1 env (param_type p) (param_data (get_cluster_power p s)))) s
       else wanted env sender (unpack1 env ORCM_ALLOC_ID_T get64) buffer s (\<lambda>sessionid _.
              err_bind (find_alloc (on_queues s) (ucast (ucast sessionid :: u32)) s) (\<lambda>found.
                reply env sender
                  (case found of
                     None \<Rightarrow> dss_return ()
                   | Some (qn, r) \<Rightarrow>
                       (case alloc_at s r of
                          None \<Rightarrow> dss_fail C_UNDEFINED
                        | Some al \<Rightarrow> pack_session_power env sub al)) s))))"

section \<open>The handler\<close>

text \<open>An unknown command is answered with an empty message.\<close>

definition orcm_scd_base_recv :: "scd_env \<Rightarrow> opal_process_name \<Rightarrow> opal_buffer \<Rightarrow> orcm_scd_base \<Rightarrow> opal_err + orcm_scd_base" where
  "orcm_scd_base_recv env sender buffer s =
     wanted env sender (unpack1 env ORCM_SCD_CMD_T get8) buffer s (\<lambda>command buffer.
       if command = ORCM_SESSION_REQ_COMMAND then scd_recv_req env sender buffer s
       else if command = ORCM_SESSION_INFO_COMMAND then scd_recv_info env sender s
       else if command = ORCM_SESSION_CANCEL_COMMAND then scd_recv_cancel env sender buffer s
       else if command = ORCM_NODE_INFO_COMMAND then scd_recv_node_info env sender s
       else if command = ORCM_SET_POWER_COMMAND then scd_recv_set_power env sender buffer s
       else if command = ORCM_GET_POWER_COMMAND then scd_recv_get_power env sender buffer s
       else reply env sender (dss_return ()) s)"

end
