(* ===== verification/Scd_Inv.thy ===== *)
theory Scd_Inv
  imports Scd_Recv "HOL-Library.Multiset"
begin

text \<open>
  What holds of the scheduler between any two events.  A session that waits for something is
  in one place: a queue, or a pending event that will hand it on.  Each handler moves sessions
  from place to place; the interface \<open>session_handler\<close> says so, and every handler of
  \<^verbatim>\<open>scd_fifo.c\<close> and \<^verbatim>\<open>scd_base_rm.c\<close> satisfies it.
\<close>

section \<open>Places\<close>

definition events :: "orcm_scd_base \<Rightarrow> event list" where
  "events s = scd_events s @ rm_events s"

text \<open>Events that hand a session on, and events whose handler reads the allocation.\<close>

definition hands_on :: "cbfunc \<Rightarrow> bool" where
  "hands_on cb \<longleftrightarrow> cb \<in> {fifo_find_queue_cb, fifo_allocated_cb, rm_request_cb}"

definition reads_alloc :: "cbfunc \<Rightarrow> bool" where
  "reads_alloc cb \<longleftrightarrow> hands_on cb \<or> cb \<in> {fifo_terminated_cb, rm_active_cb, rm_kill_cb}"

definition places :: "orcm_scd_base \<Rightarrow> session_ref list" where
  "places s = map ev_session (filter (\<lambda>e. hands_on (ev_cbfunc e)) (events s)) @ queued s"

definition good_event :: "orcm_scd_base \<Rightarrow> event \<Rightarrow> bool" where
  "good_event s e \<longleftrightarrow> ev_session e < length (sessions s) \<and> (reads_alloc (ev_cbfunc e) \<longrightarrow> alloc_at s (ev_session e) \<noteq> None)"

definition table_of :: "(nat \<times> cbfunc) list \<Rightarrow> orcm_scd_state list" where
  "table_of xs = map (\<lambda>(st, cb). \<lparr>st_state = st, st_cbfunc = Some cb, st_priority = ORTE_SYS_PRI\<rparr>) xs"

definition scd_inv :: "orcm_scd_base \<Rightarrow> bool" where
  "scd_inv s \<longleftrightarrow>
     distinct (places s) \<and> list_all (good_event s) (events s) \<and> list_all (\<lambda>r. alloc_at s r \<noteq> None) (queued s) \<and>
     states s = table_of fifo_states \<and> rmstates s = table_of rm_states \<and>
     {''running'', ''hold'', ''default''} \<subseteq> q_name ` set (queues s) \<and>
     pa_inv (nodes s) \<and> list_all (\<lambda>n. hostname n \<noteq> None) (live_nodes s)"

section \<open>How a state may change\<close>

text \<open>The session objects, queue names and state tables stay; new events and queue members are in order.\<close>

definition later :: "orcm_scd_base \<Rightarrow> orcm_scd_base \<Rightarrow> bool" where
  "later s s' \<longleftrightarrow>
     states s' = states s \<and> rmstates s' = rmstates s \<and> map q_name (queues s') = map q_name (queues s) \<and>
     (pa_inv (nodes s) \<longrightarrow> pa_inv (nodes s') \<and> map hostname (live_nodes s') = map hostname (live_nodes s)) \<and>
     length (sessions s) \<le> length (sessions s') \<and> (\<forall>r. alloc_at s r \<noteq> None \<longrightarrow> alloc_at s' r \<noteq> None) \<and>
     (\<forall>e \<in> set (events s') - set (events s). good_event s' e) \<and>
     (\<forall>r \<in> set (queued s') - set (queued s). alloc_at s' r \<noteq> None)"

text \<open>In addition, sessions are only where they were before, or come from \<open>rs\<close>.\<close>

definition evolves :: "session_ref list \<Rightarrow> orcm_scd_base \<Rightarrow> orcm_scd_base \<Rightarrow> bool" where
  "evolves rs s s' \<longleftrightarrow> mset (places s') \<subseteq># mset rs + mset (places s) \<and> later s s'"

lemma distinct_subset:
  assumes "distinct xs" "mset ys \<subseteq># mset xs"
  shows "distinct ys"
proof -
  obtain zs where "mset zs = mset xs - mset ys" using ex_mset by blast
  then have "mset xs = mset (ys @ zs)" using assms(2) by simp
  then show ?thesis using assms(1) mset_eq_imp_distinct_iff by fastforce
qed

lemma good_event_later: "good_event s e \<Longrightarrow> later s s' \<Longrightarrow> good_event s' e"
  by (auto simp: good_event_def later_def)

lemma scd_inv_evolves:
  assumes "scd_inv s" "evolves rs s s'" "distinct (rs @ places s)"
  shows "scd_inv s'"
proof -
  have l: "later s s'" and m: "mset (places s') \<subseteq># mset (rs @ places s)" using assms(2) by (auto simp: evolves_def)
  have "distinct (places s')" using distinct_subset[OF assms(3) m] .
  moreover have "list_all (good_event s') (events s')"
    using assms(1) l good_event_later[of s _ s'] by (auto simp: scd_inv_def list_all_iff later_def)
  moreover have "list_all (\<lambda>r. alloc_at s' r \<noteq> None) (queued s')"
    using assms(1) l by (auto simp: scd_inv_def list_all_iff later_def)
  moreover have "q_name ` set (queues s') = q_name ` set (queues s)"
    using l unfolding later_def by (metis list.set_map)
  moreover have "hostname ` set (live_nodes s') = hostname ` set (live_nodes s)" "pa_inv (nodes s')"
    using l assms(1) unfolding later_def scd_inv_def by (metis list.set_map)+
  moreover have "list_all (\<lambda>n. hostname n \<noteq> None) ns \<longleftrightarrow> None \<notin> hostname ` set ns" for ns :: "orcm_node list"
    by (induction ns) auto
  ultimately show ?thesis using assms(1) l by (simp add: scd_inv_def later_def)
qed

lemma later_refl [simp]: "later s s"
  by (simp add: later_def)

lemma later_trans:
  assumes "later s s1" "later s1 s2"
  shows "later s s2"
proof -
  have "good_event s2 e" if "e \<in> set (events s2) - set (events s)" for e
    using that assms good_event_later[of s1 e s2] by (cases "e \<in> set (events s1)") (auto simp: later_def)
  moreover have "alloc_at s2 r \<noteq> None" if "r \<in> set (queued s2) - set (queued s)" for r
    using that assms by (cases "r \<in> set (queued s1)") (auto simp: later_def)
  ultimately show ?thesis using assms by (auto simp: later_def)
qed

lemma evolves_refl [simp]: "evolves [] s s"
  by (simp add: evolves_def)

lemma evolves_trans:
  assumes "evolves rs s s1" "evolves rs' s1 s2"
  shows "evolves (rs @ rs') s s2"
proof -
  have "mset (places s2) \<subseteq># mset rs' + mset (places s1)" "mset (places s1) \<subseteq># mset rs + mset (places s)"
    using assms by (auto simp: evolves_def)
  then have "mset (places s2) \<subseteq># mset rs' + (mset rs + mset (places s))"
    by (meson subset_mset.add_left_mono subset_mset.order_trans)
  then show ?thesis using assms later_trans by (auto simp: evolves_def ac_simps)
qed

lemma evolves_more: "evolves [] s s' \<Longrightarrow> evolves rs s s'"
  unfolding evolves_def by (auto intro: subset_mset.order_trans)

lemmas evolves_then = evolves_trans[of "[]", simplified]
lemmas then_evolves = evolves_trans[where rs' = "[]", simplified]

section \<open>Elementary changes\<close>

lemma queue_index_bound:
  "queue_index name qs = Some i \<Longrightarrow> i < length qs \<and> q_name (qs ! i) = name"
  by (induction qs arbitrary: i) (auto split: if_splits)

lemma queue_index_None: "queue_index name qs = None \<longleftrightarrow> name \<notin> q_name ` set qs"
  by (induction qs) auto

lemma mset_concat_update:
  "i < length xss \<Longrightarrow> mset (concat (xss[i := ys])) + mset (xss ! i) = mset (concat xss) + mset ys"
  by (induction xss arbitrary: i) (auto simp: nth_Cons' ac_simps split: nat.split)

lemma queued_upd_queue:
  assumes "i < length (queues s)"
  shows "mset (queued (upd_queue i f s)) + mset (q_sessions (queues s ! i)) =
           mset (queued s) + mset (f (q_sessions (queues s ! i)))"
  using mset_concat_update[of i "map q_sessions (queues s)"] assms
  by (simp add: queued_def upd_queue_def map_update)

text \<open>Changes that touch neither events nor queues.\<close>

lemma evolves_quiet:
  assumes "scd_events s' = scd_events s" "rm_events s' = rm_events s" "queues s' = queues s"
    "states s' = states s" "rmstates s' = rmstates s"
    "pa_inv (nodes s) \<Longrightarrow> pa_inv (nodes s') \<and> map hostname (live_nodes s') = map hostname (live_nodes s)"
    "length (sessions s) \<le> length (sessions s')" "\<And>r. alloc_at s r \<noteq> None \<Longrightarrow> alloc_at s' r \<noteq> None"
  shows "evolves [] s s'"
  using assms by (auto simp: evolves_def later_def places_def events_def queued_def)

lemma evolves_upd_alloc [simp]: "evolves [] s (upd_alloc r f s)"
proof -
  have "alloc_at (upd_alloc r f s) x \<noteq> None" if "alloc_at s x \<noteq> None" for x
    using that by (cases "x = r") auto
  then show ?thesis by (intro evolves_quiet) (auto intro: arg_cong[OF live_nodes_cong])
qed

lemma evolves_same:
  assumes "scd_events s' = scd_events s" "rm_events s' = rm_events s" "queues s' = queues s"
    "states s' = states s" "rmstates s' = rmstates s" "nodes s' = nodes s" "sessions s' = sessions s"
  shows "evolves [] s s'"
  using assms live_nodes_cong[of s' s] alloc_at_cong[of s' s] by (intro evolves_quiet) auto

lemma evolves_map_nodes:
  assumes "\<And>n. hostname (f n) = hostname n"
  shows "evolves [] s (map_nodes f s)"
  using assms alloc_at_cong[of "map_nodes f s" s] by (intro evolves_quiet) (auto simp: live_map_nodes)

lemma evolves_set_all_named [simp]: "evolves [] s (set_all_named v ns s)"
proof (induction ns arbitrary: s)
  case (Cons n ns)
  have "evolves [] s (set_named v n s)" unfolding set_named_def by (rule evolves_map_nodes) simp
  then show ?case using Cons evolves_then by (simp add: set_all_named_def)
qed (simp add: set_all_named_def)

lemma evolves_new_session: "evolves [] s (snd (new_session ses s))"
proof -
  have "alloc_at (snd (new_session ses s)) r \<noteq> None" if "alloc_at s r \<noteq> None" for r
    using that by (auto simp: new_session_def alloc_at_def session_at_def nth_append split: if_splits)
  then show ?thesis using live_nodes_cong[of "snd (new_session ses s)" s]
    by (intro evolves_quiet) (auto simp: new_session_def)
qed

lemma alloc_new_session:
  "new_session ses s = (r, s') \<Longrightarrow> alloc_at s' r = ses_alloc ses \<and> r < length (sessions s') \<and> length (sessions s) = r"
  by (auto simp: new_session_def alloc_at_def session_at_def)

text \<open>Changes of the queues.\<close>

lemma later_upd_queue:
  assumes "i < length (queues s)" "\<forall>r \<in> set (f (q_sessions (queues s ! i))) - set (queued s). alloc_at s r \<noteq> None"
  shows "later s (upd_queue i f s)"
proof -
  have "set (queued (upd_queue i f s)) \<subseteq> set (queued s) \<union> set (f (q_sessions (queues s ! i)))"
    using queued_upd_queue[OF assms(1), of f] by (metis Un_upper1 set_mset_mset set_mset_union)
  moreover have "map q_name (queues (upd_queue i f s)) = map q_name (queues s)"
    using assms(1) by (simp add: upd_queue_def map_update list_update_same_conv)
  moreover have "alloc_at (upd_queue i f s) = alloc_at s" by (intro ext alloc_at_cong) simp
  ultimately show ?thesis using assms(2) live_nodes_cong[of "upd_queue i f s" s]
    by (auto simp: later_def events_def)
qed

lemma queue_in_queued: "i < length (queues s) \<Longrightarrow> set (q_sessions (queues s ! i)) \<subseteq> set (queued s)"
  unfolding queued_def using nth_mem by fastforce

lemma evolves_shorten:
  assumes "i < length (queues s)" "mset (f (q_sessions (queues s ! i))) \<subseteq># mset (q_sessions (queues s ! i))"
  shows "evolves [] s (upd_queue i f s)"
proof -
  have "later s (upd_queue i f s)"
    using queue_in_queued[OF assms(1)] set_mset_mono[OF assms(2)] by (intro later_upd_queue[OF assms(1)]) auto
  moreover have "mset (queued (upd_queue i f s)) \<subseteq># mset (queued s)"
    using queued_upd_queue[OF assms(1), of f] assms(2)
    by (metis subset_mset.add_left_mono subset_mset.add_le_cancel_right)
  ultimately show ?thesis by (auto simp: evolves_def places_def events_def)
qed

lemma evolves_longer:
  assumes "i < length (queues s)" "alloc_at s r \<noteq> None" "\<And>rs. mset (f rs) = add_mset r (mset rs)"
  shows "evolves [r] s (upd_queue i f s)"
proof -
  have "mset (queued (upd_queue i f s)) = add_mset r (mset (queued s))"
    using queued_upd_queue[OF assms(1), of f] by (simp add: assms(3))
  moreover have "set (f rs) = insert r (set rs)" for rs using assms(3) by (metis set_mset_add_mset_insert set_mset_mset)
  then have "later s (upd_queue i f s)" using assms(2) queue_in_queued[OF assms(1)] by (intro later_upd_queue[OF assms(1)]) auto
  ultimately show ?thesis by (simp add: evolves_def places_def events_def)
qed

lemma evolves_append:
  "opal_list_append_session i r s = Inr s' \<Longrightarrow> i < length (queues s) \<Longrightarrow> alloc_at s r \<noteq> None \<Longrightarrow> evolves [r] s s'"
  using evolves_longer[of i s r "\<lambda>rs. rs @ [r]"] by (auto simp: opal_list_append_session_def split: if_splits)

lemma evolves_prepend:
  "opal_list_prepend_session i r s = Inr s' \<Longrightarrow> i < length (queues s) \<Longrightarrow> alloc_at s r \<noteq> None \<Longrightarrow> evolves [r] s s'"
  using evolves_longer[of i s r "\<lambda>rs. r # rs"] by (auto simp: opal_list_prepend_session_def split: if_splits)

text \<open>Activations; the tables say which events they make.\<close>

lemma new_fifo_events:
  "new_events (table_of fifo_states) ORCM_SESSION_STATE_INIT r = [\<lparr>ev_cbfunc = fifo_find_queue_cb, ev_session = r, ev_priority = 3\<rparr>]"
  "new_events (table_of fifo_states) ORCM_SESSION_STATE_SCHEDULE r = [\<lparr>ev_cbfunc = fifo_schedule_cb, ev_session = r, ev_priority = 3\<rparr>]"
  "new_events (table_of fifo_states) ORCM_SESSION_STATE_ALLOCD r = [\<lparr>ev_cbfunc = fifo_allocated_cb, ev_session = r, ev_priority = 3\<rparr>]"
  "new_events (table_of fifo_states) ORCM_SESSION_STATE_TERMINATED r = [\<lparr>ev_cbfunc = fifo_terminated_cb, ev_session = r, ev_priority = 3\<rparr>]"
  "new_events (table_of fifo_states) ORCM_SESSION_STATE_CANCEL r = [\<lparr>ev_cbfunc = fifo_cancel_cb, ev_session = r, ev_priority = 3\<rparr>]"
  by (simp_all add: new_events_def table_of_def fifo_states_def)

lemma new_rm_events:
  "new_events (table_of rm_states) ORCM_SESSION_STATE_REQ r = [\<lparr>ev_cbfunc = rm_request_cb, ev_session = r, ev_priority = 3\<rparr>]"
  "new_events (table_of rm_states) ORCM_SESSION_STATE_ACTIVE r = [\<lparr>ev_cbfunc = rm_active_cb, ev_session = r, ev_priority = 3\<rparr>]"
  "new_events (table_of rm_states) ORCM_SESSION_STATE_KILL r = [\<lparr>ev_cbfunc = rm_kill_cb, ev_session = r, ev_priority = 3\<rparr>]"
  by (simp_all add: new_events_def table_of_def rm_states_def)

lemma evolves_new_events:
  assumes "scd_events s' @ rm_events s' = as @ es @ bs" "events s = as @ bs" "list_all (good_event s) es"
    "queues s' = queues s" "states s' = states s" "rmstates s' = rmstates s" "nodes s' = nodes s" "sessions s' = sessions s"
  shows "evolves (map ev_session (filter (\<lambda>e. hands_on (ev_cbfunc e)) es)) s s'"
proof -
  have "alloc_at s' = alloc_at s" "queued s' = queued s" "live_nodes s' = live_nodes s"
    using assms by (auto intro: live_nodes_cong simp: queued_def fun_eq_iff alloc_at_def session_at_def)
  moreover from this have "good_event s' = good_event s" using assms(8) by (auto simp: good_event_def fun_eq_iff)
  moreover have "events s' = as @ es @ bs" using assms(1) by (simp add: events_def)
  ultimately show ?thesis using assms(2-)
    by (auto simp: evolves_def later_def places_def list_all_iff)
qed

lemma evolves_activate:
  assumes "list_all (good_event s) (new_events (states s) st r)"
  shows "evolves (map ev_session (filter (\<lambda>e. hands_on (ev_cbfunc e)) (new_events (states s) st r))) s
           (orcm_scd_base_activate_session_state r st s)"
  using assms by (intro evolves_new_events[where as = "scd_events s" and bs = "rm_events s"]) (auto simp: events_def)

lemma evolves_rm_activate:
  assumes "list_all (good_event s) (new_events (rmstates s) st r)"
  shows "evolves (map ev_session (filter (\<lambda>e. hands_on (ev_cbfunc e)) (new_events (rmstates s) st r))) s
           (orcm_scd_base_rm_activate_session_state r st s)"
  using assms by (intro evolves_new_events[where as = "scd_events s @ rm_events s" and bs = "[]"]) (auto simp: events_def)

section \<open>The handlers\<close>

lemma alloc_at_bound: "alloc_at s r \<noteq> None \<Longrightarrow> r < length (sessions s)"
  by (auto simp: alloc_at_def session_at_def split: if_splits)

lemma err_bind_Inr: "err_bind x f = Inr y \<longleftrightarrow> (\<exists>z. x = Inr z \<and> f z = Inr y)"
  by (cases x) auto

lemma later_tables:
  "later s s' \<Longrightarrow> states s' = states s" "later s s' \<Longrightarrow> rmstates s' = rmstates s"
  "later s s' \<Longrightarrow> alloc_at s r \<noteq> None \<Longrightarrow> alloc_at s' r \<noteq> None"
  "later s s' \<Longrightarrow> length (queues s') = length (queues s)"
  "later s s' \<Longrightarrow> r < length (sessions s) \<Longrightarrow> r < length (sessions s')"
  by (auto simp: later_def dest: map_eq_imp_length_eq)

lemma evolves_later: "evolves rs s s' \<Longrightarrow> later s s'"
  by (simp add: evolves_def)

text \<open>Activations as they are used.\<close>

lemma evolves_schedule:
  "states s = table_of fifo_states \<Longrightarrow> r < length (sessions s) \<Longrightarrow>
   evolves [] s (orcm_scd_base_activate_session_state r ORCM_SESSION_STATE_SCHEDULE s)"
  using evolves_activate[of s ORCM_SESSION_STATE_SCHEDULE r]
  by (simp add: new_fifo_events good_event_def hands_on_def reads_alloc_def)

lemma evolves_allocd:
  "states s = table_of fifo_states \<Longrightarrow> alloc_at s r \<noteq> None \<Longrightarrow>
   evolves [r] s (orcm_scd_base_activate_session_state r ORCM_SESSION_STATE_ALLOCD s)"
  using evolves_activate[of s ORCM_SESSION_STATE_ALLOCD r] alloc_at_bound[of s r]
  by (simp add: new_fifo_events good_event_def hands_on_def)

lemma evolves_active_kill:
  "rmstates s = table_of rm_states \<Longrightarrow> alloc_at s r \<noteq> None \<Longrightarrow>
   evolves [] s (orcm_scd_base_rm_activate_session_state r ORCM_SESSION_STATE_ACTIVE s)"
  "rmstates s = table_of rm_states \<Longrightarrow> alloc_at s r \<noteq> None \<Longrightarrow>
   evolves [] s (orcm_scd_base_rm_activate_session_state r ORCM_SESSION_STATE_KILL s)"
  using evolves_rm_activate[of s ORCM_SESSION_STATE_ACTIVE r] evolves_rm_activate[of s ORCM_SESSION_STATE_KILL r]
    alloc_at_bound[of s r]
  by (simp_all add: new_rm_events good_event_def hands_on_def)

lemma evolves_req:
  "rmstates s = table_of rm_states \<Longrightarrow> alloc_at s r \<noteq> None \<Longrightarrow>
   evolves [r] s (orcm_scd_base_rm_activate_session_state r ORCM_SESSION_STATE_REQ s)"
  using evolves_rm_activate[of s ORCM_SESSION_STATE_REQ r] alloc_at_bound[of s r]
  by (simp add: new_rm_events good_event_def hands_on_def del: One_nat_def)

lemma evolves_put_on_queue:
  assumes "put_on_queue name r s = Inr s'" "states s = table_of fifo_states" "alloc_at s r \<noteq> None"
  shows "evolves [r] s s'"
proof (cases "queue_index name (queues s)")
  case None
  then show ?thesis using assms(1) by (simp add: put_on_queue_def evolves_more)
next
  case (Some i)
  let ?s1 = "upd_alloc r (al_queues_update (\<lambda>_. Some name)) s"
  obtain s2 where s2: "opal_list_append_session i r ?s1 = Inr s2"
    and s': "s' = orcm_scd_base_activate_session_state r ORCM_SESSION_STATE_SCHEDULE s2"
    using assms(1) Some by (auto simp: put_on_queue_def err_bind_Inr)
  have l: "later s ?s1" by (rule evolves_later[OF evolves_upd_alloc])
  have e: "evolves [r] ?s1 s2"
    using s2 queue_index_bound[OF Some] later_tables(3)[OF l assms(3)] by (intro evolves_append) auto
  then have "later s s2" using l later_trans evolves_later by blast
  then have "evolves [] s2 s'" unfolding s' using assms(2,3) alloc_at_bound
    by (intro evolves_schedule) (auto simp: later_tables)
  then show ?thesis using evolves_then[OF evolves_upd_alloc then_evolves[OF e]] by blast
qed

lemma evolves_find_queue:
  assumes "fifo_find_queue r s = Inr s'" "states s = table_of fifo_states"
  shows "evolves [r] s s'"
proof -
  have a: "alloc_at s r \<noteq> None" using assms(1) by (auto simp: fifo_find_queue_def split: option.splits)
  consider "put_on_queue ''default'' r s = Inr s'"
    | s1 where "put_on_queue ''hold'' r s = Inr s1" "s' = upd_alloc r (al_notes_update exceeds_note) s1"
    using assms(1) by (auto simp: fifo_find_queue_def err_bind_Inr split: option.splits if_splits)
  then show ?thesis
  proof cases
    case 1
    then show ?thesis by (rule evolves_put_on_queue[OF _ assms(2) a])
  next
    case 2
    then show ?thesis using then_evolves[OF evolves_put_on_queue[OF 2(1) assms(2) a] evolves_upd_alloc] by simp
  qed
qed

text \<open>Taking the first session off a queue, and putting it back.\<close>

lemma upd_queue_upd [simp]:
  "i < length (queues s) \<Longrightarrow> upd_queue i f (upd_queue i g s) = upd_queue i (\<lambda>rs. f (g rs)) s"
  by (simp add: upd_queue_def)

lemma upd_queue_same: "f (q_sessions (queues s ! i)) = q_sessions (queues s ! i) \<Longrightarrow> upd_queue i f s = s"
  by (simp add: upd_queue_def)

lemma evolves_hand_on:
  assumes "i < length (queues s)" "q_sessions (queues s ! i) = r # rs" "rmstates s = table_of rm_states" "alloc_at s r \<noteq> None"
  shows "evolves [] s (orcm_scd_base_rm_activate_session_state r ORCM_SESSION_STATE_REQ (upd_queue i tl s))"
    (is "evolves [] s ?s'")
proof -
  have l1: "later s (upd_queue i tl s)" using evolves_shorten[of i s tl] assms(1,2) by (simp add: evolves_later)
  then have "evolves [r] (upd_queue i tl s) ?s'" using assms(3,4) by (intro evolves_req) (auto simp: later_tables)
  moreover have "add_mset r (mset (queued (upd_queue i tl s))) = mset (queued s)"
    using queued_upd_queue[OF assms(1), of tl] assms(2) by simp
  then have "add_mset r (mset (places (upd_queue i tl s))) = mset (places s)"
    by (simp add: places_def events_def)
  ultimately show ?thesis using l1 later_trans by (auto simp: evolves_def)
qed

lemma evolves_schedule_queues:
  assumes "schedule_queues is s = Inr s'" "\<forall>i \<in> set is. i < length (queues s)" "rmstates s = table_of rm_states"
  shows "evolves [] s s'"
  using assms
proof (induction "is" arbitrary: s)
  case (Cons i "is")
  have i: "i < length (queues s)" using Cons.prems(2) by simp
  consider "q_name (queues s ! i) \<noteq> ''default''" | "q_name (queues s ! i) = ''default''" "q_sessions (queues s ! i) = []"
    | r rs where "q_name (queues s ! i) = ''default''" "q_sessions (queues s ! i) = r # rs"
    by (meson list.exhaust)
  then show ?case
  proof cases
    case (3 r rs)
    then obtain al s1 where al: "alloc_at s r = Some al" and s1: "schedule_queues is s1 = Inr s'"
      "s1 = orcm_scd_base_rm_activate_session_state r ORCM_SESSION_STATE_REQ (upd_queue i tl s) \<or>
       opal_list_prepend_session i r (upd_queue i tl s) = Inr s1"
      using Cons.prems(1) by (auto simp: err_bind_Inr split: option.splits if_splits)
    have e: "evolves [] s s1"
      using s1(2) evolves_hand_on[OF i 3(2) Cons.prems(3)] al upd_queue_same[of "\<lambda>rs. r # tl rs" s i] 3(2) i
      by (auto simp: opal_list_prepend_session_def split: if_splits)
    then have "evolves [] s1 s'" using s1(1) Cons.prems(2,3) later_tables[OF evolves_later[OF e]]
      by (intro Cons.IH) auto
    then show ?thesis using e evolves_then by blast
  qed (use Cons in auto)
qed simp

lemma evolves_rm_request:
  assumes "scd_base_rm_request r s = Inr s'" "states s = table_of fifo_states"
  shows "evolves [r] s s'"
proof -
  obtain al where al: "alloc_at s r = Some al" using assms(1) by (auto simp: scd_base_rm_request_def split: option.splits)
  consider "s' = s"
    | s1 where "s1 = s \<or> (\<exists>f. s1 = upd_alloc r f s)" "s' = orcm_scd_base_activate_session_state r ORCM_SESSION_STATE_ALLOCD s1"
    using assms(1) al by (auto simp: scd_base_rm_request_def err_bind_Inr split: if_splits option.splits sum.splits opal_err.splits)
  then show ?thesis
  proof cases
    case (2 s1)
    then have e: "evolves [] s s1" by auto
    then have "evolves [r] s1 s'" unfolding 2(2) using al assms(2) later_tables[OF evolves_later[OF e]]
      by (intro evolves_allocd) auto
    then show ?thesis using e evolves_then by blast
  qed (simp add: evolves_more)
qed

lemma mset_tl: "mset (tl xs) \<subseteq># mset xs"
  by (cases xs) simp_all

text \<open>A session that was not there and is put back is in one place.\<close>

lemma evolves_once:
  assumes "evolves [r] s s1" "evolves [r] s1 s2" "r \<notin> set (places s)" "mset (places s2) \<subseteq># add_mset r M"
    "M \<subseteq># mset (places s1)" "r \<notin># M"
  shows "evolves [r] s s2"
proof -
  have "M \<subseteq># add_mset r (mset (places s))" using assms(1,5) by (auto simp: evolves_def intro: subset_mset.order_trans)
  then have "M \<subseteq># mset (places s)" using assms(6) unfolding subseteq_mset_def
    by (metis count_add_mset count_eq_zero_iff le0)
  then have "mset (places s2) \<subseteq># mset [r] + mset (places s)"
    using assms(4) by (auto intro: subset_mset.order_trans)
  then show ?thesis using assms(1,2) later_trans by (auto simp: evolves_def)
qed

lemma evolves_allocated_error:
  assumes "allocated_error r s1 = Inr s'" "evolves [r] s s1" "states s1 = table_of fifo_states" "alloc_at s1 r \<noteq> None"
    "r \<notin> set (places s)" "r \<notin> set (map ev_session (filter (\<lambda>e. hands_on (ev_cbfunc e)) (events s1)))"
  shows "evolves [r] s s'"
proof -
  define s2 where "s2 = (case queue_index ''running'' (queues s1) of None \<Rightarrow> s1 | Some i \<Rightarrow> upd_queue i tl s1)"
  have e2: "evolves [] s1 s2" unfolding s2_def
    by (auto split: option.split simp: mset_tl intro!: evolves_shorten dest: queue_index_bound)
  have t: "states s2 = table_of fifo_states" "alloc_at s2 r \<noteq> None" "events s2 = events s1"
    using assms(3,4) later_tables[OF evolves_later[OF e2]] by (auto simp: s2_def events_def split: option.split)
  show ?thesis
  proof (cases "queue_index ''default'' (queues s2)")
    case None
    then have "s' = s2" using assms(1) by (simp add: allocated_error_def s2_def)
    then show ?thesis using then_evolves[OF assms(2) e2] by simp
  next
    case (Some i)
    then obtain s3 where s3: "opal_list_prepend_session i r s2 = Inr s3"
      "s' = orcm_scd_base_activate_session_state r ORCM_SESSION_STATE_SCHEDULE s3"
      using assms(1) by (auto simp: allocated_error_def s2_def err_bind_Inr)
    have e3: "evolves [r] s2 s3" using s3(1) t(2) queue_index_bound[OF Some] by (intro evolves_prepend) auto
    have "evolves [] s3 s'" unfolding s3(2) using t later_tables[OF evolves_later[OF e3]] alloc_at_bound
      by (intro evolves_schedule) auto
    then have e: "evolves [r] s2 s'" using then_evolves[OF e3] by blast
    have "r \<notin> set (queued s2)" using s3(1) by (auto simp: opal_list_prepend_session_def split: if_splits)
    then have "r \<notin># mset (places s2)" using assms(6) t(3) by (auto simp: places_def)
    then show ?thesis
      using evolves_once[OF assms(2) evolves_then[OF e2 e] assms(5), of "mset (places s2)"] e e2 by (simp add: evolves_def)
  qed
qed

lemma undefined_case: "(case e of C_UNDEFINED \<Rightarrow> a | _ \<Rightarrow> b) = (if e = C_UNDEFINED then a else b)"
  by (cases e) simp_all

lemma evolves_set_scd_states: "set_scd_states v ns s = Inr s' \<Longrightarrow> evolves [] s s'"
  by (auto simp: set_scd_states_def split: if_splits)

lemma evolves_allocated:
  assumes "fifo_allocated r s = Inr s'" "states s = table_of fifo_states" "rmstates s = table_of rm_states"
    "r \<notin> set (places s)"
  shows "evolves [r] s s'"
proof -
  obtain al where al: "alloc_at s r = Some al" using assms(1) by (cases "alloc_at s r") (auto simp: fifo_allocated_def)
  obtain nds where nds: "al_nodes al = Some nds"
    using assms(1) al by (cases "al_nodes al") (auto simp: fifo_allocated_def err_bind_Inr)
  obtain s1 where s1: "(case queue_index ''running'' (queues s) of
               None \<Rightarrow> Inr s
             | Some i \<Rightarrow> opal_list_append_session i r (upd_alloc r (al_queues_update (\<lambda>_. Some ''running'')) s)) = Inr s1"
    and s': "(if nds = ''ERROR'' then allocated_error r s1
     else case orte_regex_extract_node_names (Some nds) None of
            (Some C_UNDEFINED, _) \<Rightarrow> Inl C_UNDEFINED
          | (Some e, _) \<Rightarrow> allocated_error r (orcm_scd_base_rm_activate_session_state r ORCM_SESSION_STATE_ACTIVE s1)
          | (None, nodenames) \<Rightarrow>
              if int (opal_argv_count nodenames) \<noteq> sint (al_min_nodes al)
              then allocated_error r (orcm_scd_base_rm_activate_session_state r ORCM_SESSION_STATE_ACTIVE s1)
              else set_scd_states ORCM_SCD_NODE_STATE_ALLOC (case nodenames of None \<Rightarrow> [] | Some ns \<Rightarrow> ns)
                     (orcm_scd_base_rm_activate_session_state r ORCM_SESSION_STATE_ACTIVE s1)) = Inr s'"
    using assms(1) unfolding fifo_allocated_def al nds option.case err_bind_Inr Let_def by blast
  have e1: "evolves [r] s s1"
  proof (cases "queue_index ''running'' (queues s)")
    case None
    then show ?thesis using s1 by (simp add: evolves_more)
  next
    case (Some i)
    then show ?thesis using s1 al queue_index_bound[OF Some]
      by (intro evolves_then[OF evolves_upd_alloc evolves_append]) auto
  qed
  have ev1: "events s1 = events s"
    using s1 by (auto simp: events_def opal_list_append_session_def split: option.splits if_splits)
  have t1: "states s1 = table_of fifo_states" "rmstates s1 = table_of rm_states" "alloc_at s1 r \<noteq> None"
    using assms(2,3) al later_tables[OF evolves_later[OF e1]] by auto
  define s2 where "s2 = orcm_scd_base_rm_activate_session_state r ORCM_SESSION_STATE_ACTIVE s1"
  have e2: "evolves [] s1 s2" unfolding s2_def by (rule evolves_active_kill(1)[OF t1(2,3)])
  have t2: "states s2 = table_of fifo_states" "alloc_at s2 r \<noteq> None"
    using t1 later_tables[OF evolves_later[OF e2]] by auto
  have ev: "filter (\<lambda>e. hands_on (ev_cbfunc e)) (events s2) = filter (\<lambda>e. hands_on (ev_cbfunc e)) (events s)"
  proof -
    have "events s2 = events s1 @ [\<lparr>ev_cbfunc = rm_active_cb, ev_session = r, ev_priority = 3\<rparr>]"
      using t1(2) by (simp add: s2_def events_def new_rm_events)
    then show ?thesis by (simp add: ev1 hands_on_def)
  qed
  have r: "r \<notin> set (map ev_session (filter (\<lambda>e. hands_on (ev_cbfunc e)) (events s)))"
    using assms(4) by (simp add: places_def)
  consider "allocated_error r s1 = Inr s'" | "allocated_error r s2 = Inr s'"
    | ns where "set_scd_states ORCM_SCD_NODE_STATE_ALLOC ns s2 = Inr s'"
    using s'[folded s2_def] by (auto simp: undefined_case split: if_splits prod.splits option.splits)
  then show ?thesis
  proof cases
    case 1
    then show ?thesis using evolves_allocated_error[OF 1 e1 t1(1,3) assms(4)] r ev1 by simp
  next
    case 2
    then show ?thesis using evolves_allocated_error[OF 2 then_evolves[OF e1 e2] t2 assms(4)] r ev by simp
  next
    case 3
    then show ?thesis using then_evolves[OF then_evolves[OF e1 e2]] evolves_set_scd_states by blast
  qed
qed

lemma evolves_terminated:
  assumes "fifo_terminated r s = Inr s'" "states s = table_of fifo_states"
  shows "evolves [] s s'"
proof -
  obtain al where al: "alloc_at s r = Some al" using assms(1) by (cases "alloc_at s r") (auto simp: fifo_terminated_def)
  then have a: "alloc_at s r \<noteq> None" by simp
  obtain rc nodenames where x: "orte_regex_extract_node_names (al_nodes al) None = (rc, nodenames)" by fastforce
  consider "s' = s"
    | ns s1 s2 where "set_scd_states ORCM_SCD_NODE_STATE_UNALLOC ns s = Inr s1"
      "s2 = (case queue_index ''running'' (queues s1) of
               None \<Rightarrow> s1 | Some i \<Rightarrow> upd_queue i (filter (\<lambda>x. id_at s1 x \<noteq> id_at s1 r)) s1)"
      "s' = orcm_scd_base_activate_session_state r ORCM_SESSION_STATE_SCHEDULE s2"
    using assms(1) unfolding fifo_terminated_def al option.case x prod.case
    by (cases rc) (auto simp: err_bind_Inr undefined_case split: if_splits)
  then show ?thesis
  proof cases
    case (2 ns s1 s2)
    have e1: "evolves [] s s1" using 2(1) by (rule evolves_set_scd_states)
    have e2: "evolves [] s1 s2"
      using 2(2) queue_index_bound[of "''running''" "queues s1"]
      by (cases "queue_index ''running'' (queues s1)") (simp_all add: evolves_shorten mset_filter)
    have e: "evolves [] s s2" using evolves_then[OF e1 e2] .
    have "evolves [] s2 s'" unfolding 2(3)
      using assms(2) alloc_at_bound[OF a] later_tables[OF evolves_later[OF e]] by (intro evolves_schedule) auto
    then show ?thesis using evolves_then[OF e] by blast
  qed simp
qed

lemma later_queued:
  "later s s' \<Longrightarrow> list_all (\<lambda>r. alloc_at s r \<noteq> None) (queued s) \<Longrightarrow> list_all (\<lambda>r. alloc_at s' r \<noteq> None) (queued s')"
  by (auto simp: list_all_iff later_def)

lemma evolves_cancel_queues:
  assumes "\<forall>i \<in> set is. i < length (queues s)" "r < length (sessions s)" "list_all (\<lambda>r. alloc_at s r \<noteq> None) (queued s)"
    "states s = table_of fifo_states" "rmstates s = table_of rm_states"
  shows "evolves [] s (cancel_queues is r s)"
  using assms
proof (induction "is" arbitrary: s)
  case (Cons i "is")
  define s1 where "s1 = (case find (\<lambda>x. id_at s x = id_at s r) (q_sessions (queues s ! i)) of
      None \<Rightarrow> s
    | Some x \<Rightarrow>
        if q_name (queues s ! i) = ''running''
        then orcm_scd_base_rm_activate_session_state x ORCM_SESSION_STATE_KILL s
        else orcm_scd_base_activate_session_state r ORCM_SESSION_STATE_SCHEDULE (upd_queue i (remove1 x) s))"
  have i: "i < length (queues s)" using Cons.prems(1) by simp
  have e1: "evolves [] s s1"
  proof (cases "find (\<lambda>x. id_at s x = id_at s r) (q_sessions (queues s ! i))")
    case (Some x)
    then have "x \<in> set (q_sessions (queues s ! i))" by (auto simp: find_Some_iff)
    then have "alloc_at s x \<noteq> None" using Cons.prems(3) queue_in_queued[OF i] by (auto simp: list_all_iff)
    then have k: "evolves [] s (orcm_scd_base_rm_activate_session_state x ORCM_SESSION_STATE_KILL s)"
      using Cons.prems(5) by (intro evolves_active_kill) auto
    have "mset (remove1 x rs) \<subseteq># mset rs" for rs by (simp add: diff_subset_eq_self)
    then have "evolves [] s (upd_queue i (remove1 x) s)" by (intro evolves_shorten[OF i])
    moreover have "evolves [] (upd_queue i (remove1 x) s)
        (orcm_scd_base_activate_session_state r ORCM_SESSION_STATE_SCHEDULE (upd_queue i (remove1 x) s))"
      using Cons.prems(2,4) by (intro evolves_schedule) simp_all
    ultimately show ?thesis using Some k evolves_then by (simp add: s1_def)
  qed (simp add: s1_def)
  note l = evolves_later[OF e1]
  have "evolves [] s1 (cancel_queues is r s1)"
    using Cons.prems(1,2,4,5) later_queued[OF l Cons.prems(3)] by (intro Cons.IH) (auto simp: later_tables[OF l])
  then have "evolves [] s (cancel_queues is r s1)" using evolves_then[OF e1] by blast
  then show ?case by (simp add: s1_def)
qed simp

text \<open>Launching and killing write messages and the head node.\<close>

lemma evolves_send_command: "send_command env command n r s = (rc, s') \<Longrightarrow> evolves [] s s'"
  by (auto simp: send_command_def intro!: evolves_same split: option.splits sum.splits)

lemma evolves_notify_named: "notify_named env command hnp name r ns s = (rc, s') \<Longrightarrow> evolves [] s s'"
proof (induction ns arbitrary: s)
  case (Cons n ns)
  define s1 where "s1 = (if hnp then upd_alloc r (al_hnp_update (\<lambda>_. daemon n)) s else s)"
  obtain rc2 s2 where s2: "send_command env command n r s1 = (rc2, s2)" by fastforce
  have "evolves [] s s1" by (simp add: s1_def)
  then have "evolves [] s s2" using evolves_then evolves_send_command[OF s2] by blast
  then show ?case using Cons s2[unfolded s1_def]
    by (cases rc2) (auto split: if_splits intro: evolves_then)
qed simp

lemma evolves_notify_nodes: "notify_nodes env command launch names i n r s = (rc, s') \<Longrightarrow> evolves [] s s'"
proof (induction n arbitrary: i s)
  case (Suc n)
  obtain rc1 s1 where s1: "notify_named env command (launch \<and> i = 0) (names ! i) r (live_nodes s) s = (rc1, s1)" by fastforce
  then have "evolves [] s s1" by (rule evolves_notify_named)
  then show ?case using Suc s1 by (cases rc1) (auto split: if_splits intro: evolves_then)
qed simp

lemma after_return_Inr: "after_return res = Inr s \<Longrightarrow> s = snd res"
  by (auto simp: after_return_def undefined_case split: option.splits opal_err.splits)

lemma evolves_rm_active:
  assumes "scd_base_rm_active env r s = Inr s'"
  shows "evolves [] s s'"
proof -
  obtain al sid where al: "alloc_at s r = Some al" "id_at s r = Some sid"
    using assms by (auto simp: scd_base_rm_active_def split: option.splits)
  obtain rc nodenames where x: "orte_regex_extract_node_names (al_nodes al) None = (rc, nodenames)" by fastforce
  have "s' = s \<or> (\<exists>nm names. s' = snd (notify_nodes env ORCM_LAUNCH_STEPD_COMMAND True (nm # names) 0 (nat (sint (al_min_nodes al))) r
      ((upd_alloc r (al_hnpname_update (\<lambda>_. Some nm)) s)\<lparr>tracking :=
         tracking (upd_alloc r (al_hnpname_update (\<lambda>_. Some nm)) s) @ [\<lparr>trk_alloc_id = sint sid, trk_count_checked_in = 0\<rparr>]\<rparr>)))"
    using assms unfolding scd_base_rm_active_def al x prod.case option.case Let_def
    by (cases rc; cases nodenames) (auto dest: after_return_Inr split: list.splits)
  then show ?thesis
  proof (elim disjE exE)
    fix nm names
    let ?s1 = "upd_alloc r (al_hnpname_update (\<lambda>_. Some nm)) s"
    let ?s2 = "?s1\<lparr>tracking := tracking ?s1 @ [\<lparr>trk_alloc_id = sint sid, trk_count_checked_in = 0\<rparr>]\<rparr>"
    assume s': "s' = snd (notify_nodes env ORCM_LAUNCH_STEPD_COMMAND True (nm # names) 0 (nat (sint (al_min_nodes al))) r ?s2)"
    have "evolves [] ?s1 ?s2" by (rule evolves_same) simp_all
    then have "evolves [] s ?s2" using evolves_then[OF evolves_upd_alloc] by blast
    moreover have "evolves [] ?s2 s'" using evolves_notify_nodes s' by (metis prod.collapse)
    ultimately show ?thesis using evolves_then by blast
  qed simp
qed

lemma evolves_rm_kill:
  assumes "scd_base_rm_kill env r s = Inr s'"
  shows "evolves [] s s'"
proof -
  obtain al where al: "alloc_at s r = Some al" using assms by (auto simp: scd_base_rm_kill_def split: option.splits)
  obtain rc nodenames where x: "orte_regex_extract_node_names (al_nodes al) None = (rc, nodenames)" by fastforce
  have "s' = s \<or> (\<exists>names. s' = snd (notify_nodes env ORCM_CANCEL_STEPD_COMMAND False names 0 (nat (sint (al_min_nodes al))) r s))"
    using assms unfolding scd_base_rm_kill_def al x prod.case option.case
    by (cases rc; cases nodenames) (auto dest: after_return_Inr)
  then show ?thesis using evolves_notify_nodes by (metis evolves_refl prod.collapse)
qed

section \<open>The contract of a handler\<close>

text \<open>
  A handler is given a session with the event that calls it.  It moves sessions around, and
  only the one it is given may appear in a place where it was not.
\<close>

locale session_handler =
  fixes handle :: "session_ref \<Rightarrow> orcm_scd_base \<Rightarrow> opal_err + orcm_scd_base" and cb :: cbfunc
  assumes moves: "scd_inv s \<Longrightarrow> r < length (sessions s) \<Longrightarrow> (hands_on cb \<Longrightarrow> r \<notin> set (places s)) \<Longrightarrow>
      handle r s = Inr s' \<Longrightarrow> evolves (if hands_on cb then [r] else []) s s'"
begin

lemma keeps_inv:
  assumes "scd_inv s" "r < length (sessions s)" "hands_on cb \<Longrightarrow> r \<notin> set (places s)" "handle r s = Inr s'"
  shows "scd_inv s'"
  using moves[OF assms] assms(1,3) by (rule_tac scd_inv_evolves[OF assms(1)]) (auto simp: scd_inv_def split: if_splits)

end

interpretation handlers: session_handler "run_cbfunc env cb" cb for env cb
proof
  fix s r s'
  assume inv: "scd_inv s" and r: "r < length (sessions s)" "hands_on cb \<Longrightarrow> r \<notin> set (places s)"
    and run: "run_cbfunc env cb r s = Inr s'"
  have t: "states s = table_of fifo_states" "rmstates s = table_of rm_states" "list_all (\<lambda>r. alloc_at s r \<noteq> None) (queued s)"
    using inv by (simp_all add: scd_inv_def)
  show "evolves (if hands_on cb then [r] else []) s s'"
  proof (cases cb)
    case fifo_cancel_cb
    then show ?thesis using run evolves_cancel_queues[OF _ r(1) t(3,1,2)]
      by (auto simp: hands_on_def fifo_cancel_def split: if_splits)
  next
    case fifo_schedule_cb
    then show ?thesis using run evolves_schedule_queues[OF _ _ t(2)] by (auto simp: hands_on_def fifo_schedule_def)
  next
    case fifo_allocated_cb
    then show ?thesis using run evolves_allocated[OF _ t(1,2)] r(2) by (simp add: hands_on_def)
  qed (use run t in \<open>auto simp: hands_on_def fifo_undef_def scd_base_rm_undef_def intro: evolves_find_queue
      evolves_terminated evolves_rm_request evolves_rm_active evolves_rm_kill\<close>)
qed

section \<open>Messages\<close>

text \<open>The first matching node is changed, and nothing moves.\<close>

lemma upd_first_nulls: "map (\<lambda>x. x = None) (upd_first P f xs) = map (\<lambda>x. x = None) xs"
  by (induction P f xs rule: upd_first.induct) auto

lemma first_free_nulls: "first_free xs = first_free ys" if "map (\<lambda>x. x = None) xs = map (\<lambda>x. x = None) ys"
proof -
  have "find_null xs i = find_null ys i" for i
    using that
  proof (induction xs arbitrary: ys i)
    case (Cons x xs)
    then obtain y ys' where "ys = y # ys'" by (cases ys) auto
    then show ?case using Cons by (cases x; cases y) auto
  qed simp
  then show ?thesis using map_eq_imp_length_eq[OF that] by (simp add: first_free_def split: option.split)
qed

lemma count_null_map: "count_null zs = length (filter id (map (\<lambda>x. x = None) zs))"
  by (simp add: count_null_def filter_map o_def)

lemma count_null_nulls: "map (\<lambda>x. x = None) xs = map (\<lambda>x. x = None) ys \<Longrightarrow> count_null xs = count_null ys"
  by (simp only: count_null_map)

lemma upd_first_hostnames:
  assumes "\<And>n. hostname (f n) = hostname n"
  shows "map hostname (List.map_filter (\<lambda>n. n) (upd_first P f xs)) = map hostname (List.map_filter (\<lambda>n. n) xs)"
  using assms by (induction P f xs rule: upd_first.induct) (auto simp: map_filter_simps)

lemma evolves_upd_first_node:
  assumes "\<And>n. hostname (f n) = hostname n"
  shows "evolves [] s (upd_first_node P f s)"
proof (rule evolves_quiet)
  let ?s' = "upd_first_node P f s"
  assume inv: "pa_inv (nodes s)"
  have sl: "slots (nodes ?s') = upd_first P f (slots (nodes s))"
    by (simp add: upd_first_node_def slots_def split: option.split)
  have "pa_size (nodes ?s') = pa_size (nodes s)" "number_free (nodes ?s') = number_free (nodes s)"
    "lowest_free (nodes ?s') = lowest_free (nodes s)" by (simp_all add: upd_first_node_def)
  then have inv': "pa_inv (nodes ?s')"
    using inv first_free_nulls[OF upd_first_nulls, of P f] count_null_nulls[OF upd_first_nulls, of P f]
      map_eq_imp_length_eq[OF upd_first_nulls, of P f]
    by (simp add: pa_inv_def sl)
  then show "pa_inv (nodes ?s') \<and> map hostname (live_nodes ?s') = map hostname (live_nodes s)"
    using upd_first_hostnames[OF assms] inv by (simp add: live_nodes_def node_slots sl)
next
  fix r assume "alloc_at s r \<noteq> None"
  then show "alloc_at (upd_first_node P f s) r \<noteq> None"
    using alloc_at_cong[of "upd_first_node P f s" s] by (simp add: upd_first_node_def)
qed (simp_all add: upd_first_node_def)

lemma evolves_update_each:
  assumes "\<And>n. hostname (f n) = hostname n"
  shows "evolves [] s (snd (update_each P f xs found s))"
proof (induction xs arbitrary: found s)
  case (Cons x xs)
  show ?case using evolves_then[OF evolves_upd_first_node[OF assms] Cons] Cons by simp
qed simp

lemma hostname_update_node [simp]: "hostname (update_node state newstate topo n) = hostname n"
  by (simp add: update_node_def Let_def)

lemma evolves_update_byproc: "update_nodestate_byproc state ps topo s = (rc, s') \<Longrightarrow> evolves [] s s'"
  using evolves_update_each[of "update_node state state topo" s "\<lambda>nm n. same_proc (daemon n) nm" ps False]
  by (auto simp: update_nodestate_byproc_def Let_def split: prod.splits)

lemma evolves_byproc: "evolves [] s (snd (update_nodestate_byproc state ps topo s))"
  using evolves_update_byproc by (metis prod.collapse)

lemma evolves_update_byname:
  assumes "update_nodestate_byname state regexp topo s = (rc, s')"
  shows "evolves [] s s'"
proof -
  have u: "evolves [] s t"
    if "update_each (\<lambda>nm n. hostname n = Some nm) (update_node st new topo) names False s = (b, t)" for st new names b t
    using evolves_update_each[of "update_node st new topo" s "\<lambda>nm n. hostname n = Some nm" names False] that by simp
  show ?thesis using assms unfolding update_nodestate_byname_def Let_def
    by (auto split: prod.splits option.splits if_split_asm dest!: u)
qed

lemma evolves_answer: "answer env peer tag p s = (rc, s') \<Longrightarrow> evolves [] s s'"
  by (auto simp: answer_def intro!: evolves_same split: prod.splits sum.splits option.splits)

lemma evolves_after_answer: "after_return (answer env peer tag p s) = Inr s' \<Longrightarrow> evolves [] s s'"
  using evolves_answer by (metis after_return_Inr prod.collapse)

lemma unpacked_cases:
  assumes "unpacked u buffer s k = Inr s'"
  obtains "s' = s" | x buffer' where "k x buffer' = Inr s'"
  using assms by (auto simp: unpacked_def dest: after_return_Inr split: prod.splits sum.splits)

lemma evolves_keep_topology: "keep_topology env topo s = Inr (t, s') \<Longrightarrow> evolves [] s s'"
  by (auto simp: keep_topology_def undefined_case intro!: evolves_same split: sum.splits if_splits prod.splits)

lemma evolves_rm_recv_up:
  assumes "rm_recv_up env buffer s = Inr s'"
  shows "evolves [] s s'"
  using assms unfolding rm_recv_up_def
proof (elim unpacked_cases)
  fix node b have_topo b'
  assume *: "(if have_topo \<noteq> 0 then unpacked (unpack_topology env) b' s (\<lambda>topo _.
      err_bind (keep_topology env topo s) (\<lambda>(t, s).
        after_return (None, snd (update_nodestate_byproc ORCM_NODE_STATE_UP [node] t s))))
    else Inr (snd (update_nodestate_byproc ORCM_NODE_STATE_UP [node] TopoNull s))) = Inr s'"
  show ?thesis
  proof (cases "have_topo \<noteq> 0")
    case True
    then have "unpacked (unpack_topology env) b' s (\<lambda>topo _.
      err_bind (keep_topology env topo s) (\<lambda>(t, s).
        after_return (None, snd (update_nodestate_byproc ORCM_NODE_STATE_UP [node] t s)))) = Inr s'" using * by simp
    then show ?thesis
      by (elim unpacked_cases)
        (auto simp: err_bind_Inr dest!: after_return_Inr intro: evolves_then[OF evolves_keep_topology evolves_byproc])
  qed (use * evolves_byproc in auto)
qed simp_all

lemma evolves_rm_recv_nodestate:
  assumes "rm_recv_nodestate env sender buffer s = Inr s'"
  shows "evolves [] s s'"
  using assms unfolding rm_recv_nodestate_def
proof (elim unpacked_cases)
  fix state b
  assume *: "(if state = ORCM_NODE_STATE_UP then rm_recv_up env b s
    else if state = ORCM_NODE_STATE_DOWN then rm_recv_down env b s
    else if state = ORCM_NODE_STATE_DRAIN \<or> state = ORCM_NODE_STATE_RESUME then rm_recv_byname env sender state b s
    else Inr s) = Inr s'"
  have down: "evolves [] s s'" if "rm_recv_down env b s = Inr s'"
    using that unfolding rm_recv_down_def Let_def
    by (elim unpacked_cases) (use evolves_byproc in auto)
  have byname: "evolves [] s s'" if "rm_recv_byname env sender state b s = Inr s'"
    using that unfolding rm_recv_byname_def
    by (elim unpacked_cases)
      (auto split: prod.splits if_splits intro: evolves_then[OF evolves_update_byname evolves_after_answer])
  show ?thesis using * evolves_rm_recv_up down byname by (auto split: if_splits)
qed simp_all

text \<open>Sessions that arrive with a message are new.\<close>

lemma evolves_terminated_event:
  "states s = table_of fifo_states \<Longrightarrow> alloc_at s r \<noteq> None \<Longrightarrow>
   evolves [] s (orcm_scd_base_activate_session_state r ORCM_SESSION_STATE_TERMINATED s)"
  using evolves_activate[of s ORCM_SESSION_STATE_TERMINATED r] alloc_at_bound[of s r]
  by (simp add: new_fifo_events good_event_def hands_on_def)

lemma evolves_cancel_event:
  "states s = table_of fifo_states \<Longrightarrow> r < length (sessions s) \<Longrightarrow>
   evolves [] s (orcm_scd_base_activate_session_state r ORCM_SESSION_STATE_CANCEL s)"
  using evolves_activate[of s ORCM_SESSION_STATE_CANCEL r]
  by (simp add: new_fifo_events good_event_def hands_on_def reads_alloc_def)

lemma evolves_init_event:
  "states s = table_of fifo_states \<Longrightarrow> alloc_at s r \<noteq> None \<Longrightarrow>
   evolves [r] s (orcm_scd_base_activate_session_state r ORCM_SESSION_STATE_INIT s)"
  using evolves_activate[of s ORCM_SESSION_STATE_INIT r] alloc_at_bound[of s r]
  by (simp add: new_fifo_events good_event_def hands_on_def del: One_nat_def)

lemma evolves_check_in:
  assumes "check_in env al done trks s = Inr s'" "states s = table_of fifo_states"
  shows "evolves [] s s'"
  using assms(1)
proof (induction trks arbitrary: "done")
  case (Cons trk trks)
  let ?ses = "\<lparr>ses_id = ucast (al_id al), ses_uid = uninit_uid env, ses_alloc = Some al\<rparr>"
  define s1 where "s1 = snd (new_session ?ses s)"
  define s2 where "s2 = orcm_scd_base_activate_session_state (length (sessions s)) ORCM_SESSION_STATE_TERMINATED s1"
  have s1: "new_session ?ses s = (length (sessions s), s1)" by (simp add: new_session_def s1_def)
  have e1: "evolves [] s s1" unfolding s1_def by (rule evolves_new_session)
  have "evolves [] s1 s2" unfolding s2_def
    using alloc_new_session[OF s1] later_tables(1)[OF evolves_later[OF e1]] assms(2) by (intro evolves_terminated_event) simp_all
  then have e2: "evolves [] s s2" using evolves_then[OF e1] by blast
  have tr: "evolves [] t (t\<lparr>tracking := ts\<rparr>)" for t :: orcm_scd_base and ts by (rule evolves_same) simp_all
  show ?case
  proof (cases "trk_alloc_id trk = sint (al_id al)")
    case True
    then have "(\<exists>ts. s' = s\<lparr>tracking := ts\<rparr>) \<or> (\<exists>ts. s' = s2\<lparr>tracking := ts\<rparr>)"
      using Cons.prems unfolding check_in.simps s1 prod.case Let_def s2_def[symmetric] by (simp split: if_split_asm) blast+
    then show ?thesis
    proof (elim disjE exE)
      fix ts assume "s' = s\<lparr>tracking := ts\<rparr>"
      then show ?thesis using tr[of s ts] by simp
    next
      fix ts assume "s' = s2\<lparr>tracking := ts\<rparr>"
      then show ?thesis using evolves_then[OF e2 tr[of s2 ts]] by simp
    qed
  next
    case False
    then have "check_in env al (done @ [trk]) trks s = Inr s'" using Cons.prems by simp
    then show ?thesis by (rule Cons.IH)
  qed
qed simp

lemma evolves_rm_recv:
  assumes "orcm_scd_base_rm_recv env sender buffer s = Inr s'" "states s = table_of fifo_states"
  shows "evolves [] s s'"
  using assms(1) unfolding orcm_scd_base_rm_recv_def
proof (elim unpacked_cases)
  fix command b
  assume *: "(if command = ORCM_NODESTATE_UPDATE_COMMAND then rm_recv_nodestate env sender b s
    else if command = ORCM_STEPD_COMPLETE_COMMAND then rm_recv_complete env b s
    else if command = ORCM_SET_POWER_COMMAND then rm_recv_power env command b s else Inr s) = Inr s'"
  have "evolves [] s s'" if "rm_recv_complete env b s = Inr s'"
    using that unfolding rm_recv_complete_def by (elim unpacked_cases) (auto intro: evolves_check_in[OF _ assms(2)])
  moreover have "evolves [] s s'" if "rm_recv_power env command b s = Inr s'"
    using that unfolding rm_recv_power_def by (elim unpacked_cases) (auto intro: evolves_after_answer)
  ultimately show ?thesis using * evolves_rm_recv_nodestate by (auto split: if_splits)
qed simp

lemma evolves_reply: "reply env sender p s = Inr s' \<Longrightarrow> evolves [] s s'"
  unfolding reply_def by (rule evolves_after_answer)

lemma wanted_cases:
  assumes "wanted env sender u buffer s k = Inr s'"
  obtains "evolves [] s s'" | x buffer' where "k x buffer' = Inr s'"
  using assms by (auto simp: wanted_def err_bind_Inr dest!: after_return_Inr evolves_reply split: prod.splits sum.splits)

lemma evolves_admit:
  assumes "admit_session env sender sid al r s = Inr s'" "states s = table_of fifo_states" "alloc_at s r \<noteq> None"
  shows "evolves [r] s s'"
proof -
  obtain budget where b: "alloc_power_budget al s = Inr budget" using assms(1) by (auto simp: admit_session_def err_bind_Inr)
  obtain rc1 attrs where c: "set_constraints (power_constraints budget s) (al_constraints al) = (rc1, attrs)" by fastforce
  obtain rc2 al2 where n: "pwrmgmt_alloc_notify env (al\<lparr>al_constraints := attrs\<rparr>) = (rc2, al2)" by fastforce
  obtain rc3 s3 where a: "answer env sender ORCM_RML_TAG_SCD
      (pack1 env ORCM_ALLOC_ID_T (D64 [as_alloc_id sid (uninit_uid env)])) (upd_alloc r (\<lambda>_. al2) s) = (rc3, s3)" by fastforce
  have e3: "evolves [] s s3" using evolves_then[OF evolves_upd_alloc evolves_answer[OF a]] .
  note l = later_tables[OF evolves_later[OF e3]]
  have i: "evolves [r] s (orcm_scd_base_activate_session_state r ORCM_SESSION_STATE_INIT s3)"
    using assms(2,3) l by (intro evolves_then[OF e3 evolves_init_event]) auto
  note run = assms(1)[unfolded admit_session_def b err_bind_simps c prod.case n a]
  show ?thesis
  proof (cases rc1)
    case None
    show ?thesis
    proof (cases rc2)
      case None
      then show ?thesis using run \<open>rc1 = None\<close> i e3 by (cases rc3) (auto dest!: after_return_Inr intro: evolves_more)
    next
      case (Some e)
      then show ?thesis using run \<open>rc1 = None\<close> evolves_then[OF evolves_upd_alloc evolves_reply] by (auto intro: evolves_more)
    qed
  next
    case (Some e)
    then show ?thesis using run by (auto dest!: after_return_Inr intro: evolves_more)
  qed
qed

lemma evolves_scd_recv_req:
  assumes "scd_recv_req env sender buffer s = Inr s'" "states s = table_of fifo_states"
  shows "evolves [length (sessions s)] s s'"
  using assms(1) unfolding scd_recv_req_def
proof (elim wanted_cases)
  assume "evolves [] s s'"
  then show ?thesis by (rule evolves_more)
next
  fix al :: orcm_alloc and b :: opal_buffer
  let ?r = "length (sessions s)"
  define sid where "sid = last_session_id s + 1"
  define s1 where "s1 = s\<lparr>last_session_id := sid\<rparr>"
  define al1 where "al1 = al\<lparr>al_id := ucast sid\<rparr>"
  define s2 where "s2 = snd (new_session \<lparr>ses_id = sid, ses_uid = uninit_uid env, ses_alloc = Some al1\<rparr> s1)"
  have n: "orcm_scd_base_get_next_session_id s = (sid, s1)"
    "new_session \<lparr>ses_id = sid, ses_uid = uninit_uid env, ses_alloc = Some al1\<rparr> s1 = (?r, s2)"
    by (simp_all add: orcm_scd_base_get_next_session_id_def new_session_def s2_def s1_def sid_def)
  have "evolves [] s s1" unfolding s1_def by (rule evolves_same) simp_all
  moreover have "evolves [] s1 s2" unfolding s2_def by (rule evolves_new_session)
  ultimately have e2: "evolves [] s s2" by (rule evolves_then)
  assume "(let (sid, s) = orcm_scd_base_get_next_session_id s; al = al\<lparr>al_id := ucast sid\<rparr>;
       (r, s) = new_session \<lparr>ses_id = sid, ses_uid = uninit_uid env, ses_alloc = Some al\<rparr> s
     in admit_session env sender sid al r s) = Inr s'"
  then have "admit_session env sender sid al1 ?r s2 = Inr s'"
    unfolding n prod.case Let_def al1_def[symmetric] .
  then show ?thesis using assms(2) alloc_new_session[OF n(2)] later_tables(1)[OF evolves_later[OF e2]]
    by (intro evolves_then[OF e2 evolves_admit]) simp_all
qed

lemma evolves_scd_recv_cancel:
  assumes "scd_recv_cancel env sender buffer s = Inr s'" "states s = table_of fifo_states"
  shows "evolves [] s s'"
  using assms(1) unfolding scd_recv_cancel_def
proof (elim wanted_cases)
  fix sid :: u64 and b :: opal_buffer
  let ?ses = "\<lparr>ses_id = ucast sid, ses_uid = uninit_uid env, ses_alloc = None\<rparr>"
  obtain r s1 where n: "new_session ?ses s = (r, s1)" by fastforce
  then have e1: "evolves [] s s1" using evolves_new_session[of s ?ses] by simp
  assume "(let (r, s) = new_session ?ses s; s = orcm_scd_base_activate_session_state r ORCM_SESSION_STATE_CANCEL s
     in reply env sender (pack_int env 0) s) = Inr s'"
  then have "reply env sender (pack_int env 0) (orcm_scd_base_activate_session_state r ORCM_SESSION_STATE_CANCEL s1) = Inr s'"
    by (simp add: n)
  moreover have "evolves [] s1 (orcm_scd_base_activate_session_state r ORCM_SESSION_STATE_CANCEL s1)"
    using assms(2) alloc_new_session[OF n] later_tables(1)[OF evolves_later[OF e1]] by (intro evolves_cancel_event) simp_all
  ultimately show ?thesis using evolves_then[OF evolves_then[OF e1] evolves_reply] by blast
qed

lemma evolves_confirm_power: "confirm_power env sender qn result al s = Inr s' \<Longrightarrow> evolves [] s s'"
  using evolves_reply evolves_then[OF evolves_answer evolves_reply]
  by (auto simp: confirm_power_def forward_power_def err_bind_Inr dest!: after_return_Inr
      split: if_splits prod.splits option.splits)

lemma evolves_set_cluster_power: "evolves [] s (set_cluster_power p v s)"
  by (cases p) (auto intro!: evolves_same simp: orcm_scd_base_set_cluster_power_budget_def
      orcm_scd_base_set_cluster_power_mode_def orcm_scd_base_set_cluster_power_window_def
      orcm_scd_base_set_cluster_power_overage_def orcm_scd_base_set_cluster_power_underage_def
      orcm_scd_base_set_cluster_power_overage_time_def orcm_scd_base_set_cluster_power_underage_time_def
      orcm_scd_base_set_cluster_power_frequency_def orcm_scd_base_set_cluster_power_strict_def)

lemma evolves_set_session_power:
  assumes "set_session_power env sender sub qn r al buffer s = Inr s'"
  shows "evolves [] s s'"
proof (cases "set_command sub")
  case None
  then show ?thesis using assms evolves_confirm_power by (simp add: set_session_power_def)
next
  case (Some p)
  from assms[unfolded set_session_power_def Some option.case] show ?thesis
    by (elim wanted_cases) (auto simp: Let_def split: prod.splits intro: evolves_then[OF evolves_upd_alloc evolves_confirm_power])
qed

lemma evolves_scd_recv_set_power:
  assumes "scd_recv_set_power env sender buffer s = Inr s'"
  shows "evolves [] s s'"
proof -
  have glob: "evolves [] s s'"
    if "(case set_command sub of
           None \<Rightarrow> reply env sender (pack_int env (rc_code (Some OPAL_ERR_BAD_PARAM))) s
         | Some p \<Rightarrow>
             wanted env sender (unpack1 env (param_type p) get_param) b s (\<lambda>v _.
               reply env sender (pack_int env 0) (set_cluster_power p v s))) = Inr s'" for sub b
  proof (cases "set_command sub")
    case (Some p)
    then show ?thesis using that unfolding Some option.case
      by (elim wanted_cases) (auto intro: evolves_then[OF evolves_set_cluster_power evolves_reply])
  qed (use that evolves_reply in auto)
  have ses: "evolves [] s s'"
    if "err_bind (find_alloc (on_queues s) aid s) (\<lambda>found.
          case found of
            None \<Rightarrow> reply env sender (pack1 env OPAL_INT (D32 [uninit_result env])) s
          | Some (qn, r) \<Rightarrow>
              (case alloc_at s r of
                 None \<Rightarrow> Inl C_UNDEFINED
               | Some al \<Rightarrow> set_session_power env sender sub qn r al b s)) = Inr s'" for aid sub b
  proof (cases "find_alloc (on_queues s) aid s")
    case (Inr found)
    then show ?thesis
    proof (cases found)
      case (Some qr)
      then show ?thesis using that Inr evolves_set_session_power
        by (cases qr; cases "alloc_at s (snd qr)") (auto simp: err_bind_Inr)
    qed (use that evolves_reply in \<open>auto simp: err_bind_Inr\<close>)
  qed (use that in simp)
  show ?thesis using assms unfolding scd_recv_set_power_def
  proof (elim wanted_cases)
    fix sub b per_session b'
    assume *: "(if per_session = 0
       then (case set_command sub of
           None \<Rightarrow> reply env sender (pack_int env (rc_code (Some OPAL_ERR_BAD_PARAM))) s
         | Some p \<Rightarrow>
             wanted env sender (unpack1 env (param_type p) get_param) b' s (\<lambda>v _.
               reply env sender (pack_int env 0) (set_cluster_power p v s)))
       else wanted env sender (unpack1 env ORCM_ALLOC_ID_T get64) b' s (\<lambda>sessionid buffer.
              err_bind (find_alloc (on_queues s) (ucast (ucast sessionid :: u32)) s) (\<lambda>found.
                case found of
                  None \<Rightarrow> reply env sender (pack1 env OPAL_INT (D32 [uninit_result env])) s
                | Some (qn, r) \<Rightarrow>
                    (case alloc_at s r of
                       None \<Rightarrow> Inl C_UNDEFINED
                     | Some al \<Rightarrow> set_session_power env sender sub qn r al buffer s)))) = Inr s'"
    show ?thesis
    proof (cases "per_session = 0")
      case True
      then show ?thesis using * by (intro glob) simp
    next
      case False
      from *[unfolded if_not_P[OF False]] show ?thesis by (elim wanted_cases) (auto intro: ses)
    qed
  qed
qed

lemma evolves_scd_recv_get_power:
  assumes "scd_recv_get_power env sender buffer s = Inr s'"
  shows "evolves [] s s'"
  using assms unfolding scd_recv_get_power_def
proof (elim wanted_cases)
  fix sub b per_session b'
  assume *: "(if per_session = 0
       then reply env sender
              (case get_command sub of
                 None \<Rightarrow> pack_int env (rc_code (Some OPAL_ERR_BAD_PARAM))
               | Some p \<Rightarrow> dss_bind (pack_int env 0) (\<lambda>_. pack1 env (param_type p) (param_data (get_cluster_power p s)))) s
       else wanted env sender (unpack1 env ORCM_ALLOC_ID_T get64) b' s (\<lambda>sessionid _.
              err_bind (find_alloc (on_queues s) (ucast (ucast sessionid :: u32)) s) (\<lambda>found.
                reply env sender
                  (case found of
                     None \<Rightarrow> dss_return ()
                   | Some (qn, r) \<Rightarrow>
                       (case alloc_at s r of
                          None \<Rightarrow> dss_fail C_UNDEFINED
                        | Some al \<Rightarrow> pack_session_power env sub al)) s))) = Inr s'"
  show ?thesis
  proof (cases "per_session = 0")
    case True
    then show ?thesis using * evolves_reply by auto
  next
    case False
    from *[unfolded if_not_P[OF False]] show ?thesis by (elim wanted_cases) (auto simp: err_bind_Inr intro: evolves_reply)
  qed
qed

lemma evolves_scd_recv:
  assumes "orcm_scd_base_recv env sender buffer s = Inr s'" "states s = table_of fifo_states"
  shows "evolves [length (sessions s)] s s'"
  using assms(1) unfolding orcm_scd_base_recv_def
proof (elim wanted_cases)
  fix command b
  assume *: "(if command = ORCM_SESSION_REQ_COMMAND then scd_recv_req env sender b s
       else if command = ORCM_SESSION_INFO_COMMAND then scd_recv_info env sender s
       else if command = ORCM_SESSION_CANCEL_COMMAND then scd_recv_cancel env sender b s
       else if command = ORCM_NODE_INFO_COMMAND then scd_recv_node_info env sender s
       else if command = ORCM_SET_POWER_COMMAND then scd_recv_set_power env sender b s
       else if command = ORCM_GET_POWER_COMMAND then scd_recv_get_power env sender b s
       else reply env sender (dss_return ()) s) = Inr s'"
  have "scd_recv_req env sender b s = Inr s' \<or> evolves [] s s'"
    using * evolves_scd_recv_cancel[OF _ assms(2)] evolves_scd_recv_set_power evolves_scd_recv_get_power evolves_reply
    by (auto simp: scd_recv_info_def scd_recv_node_info_def Let_def split: if_splits)
  then show ?thesis using evolves_scd_recv_req[OF _ assms(2)] evolves_more by blast
qed (rule evolves_more)

end
