(* ===== verification/Scd_Work.thy ===== *)
theory Scd_Work
  imports Scd_Inv
begin

text \<open>
  What the handlers of the scheduler and the resource manager do: the queue they serve, the
  nodes they choose, mark and release, and the messages they send.
\<close>

section \<open>The waiting line\<close>

text \<open>
  An abstract scheduler: sessions wait in line, and a pass asks the resource manager for nodes
  for the first one if there are enough.
\<close>

record fifo_spec =
  waiting :: "session_ref list"
  requested :: "session_ref list"

definition spec_arrive :: "session_ref \<Rightarrow> fifo_spec \<Rightarrow> fifo_spec" where
  "spec_arrive r sp = sp\<lparr>waiting := waiting sp @ [r]\<rparr>"

definition spec_pass :: "(session_ref \<Rightarrow> int) \<Rightarrow> int \<Rightarrow> fifo_spec \<Rightarrow> fifo_spec" where
  "spec_pass needed free sp =
     (case waiting sp of
        [] \<Rightarrow> sp
      | r # rs \<Rightarrow> if needed r \<le> free then \<lparr>waiting = rs, requested = requested sp @ [r]\<rparr> else sp)"

text \<open>The scheduler's state seen that way.\<close>

definition default_sessions :: "orcm_scd_base \<Rightarrow> session_ref list" where
  "default_sessions s = concat (map q_sessions (filter (\<lambda>q. q_name q = ''default'') (queues s)))"

definition abs_fifo :: "orcm_scd_base \<Rightarrow> fifo_spec" where
  "abs_fifo s = \<lparr>waiting = default_sessions s,
     requested = map ev_session (filter (\<lambda>e. ev_cbfunc e = rm_request_cb) (rm_events s))\<rparr>"

definition needed_nodes :: "orcm_scd_base \<Rightarrow> session_ref \<Rightarrow> int" where
  "needed_nodes s r = (case alloc_at s r of None \<Rightarrow> 0 | Some al \<Rightarrow> sint (al_min_nodes al))"

text \<open>One queue of each of the built-in names: the site has not defined others.\<close>

definition one_queue :: "string \<Rightarrow> orcm_scd_base \<Rightarrow> bool" where
  "one_queue name s \<longleftrightarrow> length (filter (\<lambda>q. q_name q = name) (queues s)) = 1"

lemma one_queue_index:
  assumes "one_queue name s"
  obtains i where "queue_index name (queues s) = Some i" "i < length (queues s)"
    "\<And>j. j < length (queues s) \<Longrightarrow> q_name (queues s ! j) = name \<longleftrightarrow> j = i"
proof -
  have "\<exists>i. queue_index name qs = Some i \<and> i < length qs \<and> (\<forall>j < length qs. q_name (qs ! j) = name \<longleftrightarrow> j = i)"
    if "length (filter (\<lambda>q. q_name q = name) qs) = 1" for qs
    using that
  proof (induction qs)
    case (Cons q qs)
    show ?case
    proof (cases "q_name q = name")
      case True
      then have "filter (\<lambda>q. q_name q = name) qs = []" using Cons.prems by simp
      then have "\<forall>j < length qs. q_name (qs ! j) \<noteq> name" by (simp add: filter_empty_conv)
      then show ?thesis using True by (auto simp: nth_Cons')
    next
      case False
      then obtain i where "queue_index name qs = Some i" "i < length qs" "\<forall>j < length qs. q_name (qs ! j) = name \<longleftrightarrow> j = i"
        using Cons by auto
      then show ?thesis using False by (auto simp: nth_Cons' intro!: exI[of _ "Suc i"])
    qed
  qed simp
  then show thesis using assms that unfolding one_queue_def by blast
qed

lemma concat_only:
  "i < length xs \<Longrightarrow> (\<And>j. j < length xs \<Longrightarrow> P (xs ! j) \<longleftrightarrow> j = i) \<Longrightarrow> concat (map f (filter P xs)) = f (xs ! i)"
proof (induction xs arbitrary: i)
  case (Cons x xs)
  show ?case
  proof (cases i)
    case 0
    have "\<not> P (xs ! j)" if "j < length xs" for j using Cons.prems(2)[of "Suc j"] that 0 by simp
    then have "filter P xs = []" by (metis filter_False in_set_conv_nth)
    then show ?thesis using Cons.prems(2)[of 0] 0 by simp
  next
    case (Suc k)
    then show ?thesis using Cons.IH[of k] Cons.prems(1) Cons.prems(2)[of 0] Cons.prems(2)[of "Suc _"] by simp
  qed
qed simp

lemma default_sessions_at:
  "i < length (queues s) \<Longrightarrow> (\<And>j. j < length (queues s) \<Longrightarrow> q_name (queues s ! j) = ''default'' \<longleftrightarrow> j = i) \<Longrightarrow>
   default_sessions s = q_sessions (queues s ! i)"
  unfolding default_sessions_def by (rule concat_only)

lemma upd_queue_names: "j < length (queues s) \<Longrightarrow> q_name (queues (upd_queue i f s) ! j) = q_name (queues s ! j)"
  by (cases "j = i") (simp_all add: upd_queue_def)

text \<open>With one default queue the loop of the scheduler is one decision.\<close>

lemma schedule_others:
  "\<forall>j \<in> set is. q_name (queues s ! j) \<noteq> ''default'' \<Longrightarrow> schedule_queues is s = Inr s"
  by (induction "is") auto

lemma fifo_schedule_one:
  assumes "i < length (queues s)" "\<And>j. j < length (queues s) \<Longrightarrow> q_name (queues s ! j) = ''default'' \<longleftrightarrow> j = i"
  shows "fifo_schedule s =
    (case q_sessions (queues s ! i) of
       [] \<Rightarrow> Inr s
     | r # rs \<Rightarrow>
         (case alloc_at s r of
            None \<Rightarrow> Inl C_UNDEFINED
          | Some al \<Rightarrow>
              if sint (al_min_nodes al) \<le> int (length (free_nodes s))
              then Inr (orcm_scd_base_rm_activate_session_state r ORCM_SESSION_STATE_REQ (upd_queue i tl s))
              else if r \<in> set (queued (upd_queue i tl s)) then Inl C_UNDEFINED else Inr s))"
proof -
  have split: "[0..<length (queues s)] = [0..<i] @ i # [Suc i..<length (queues s)]"
    using assms(1) by (metis less_imp_le_nat upt_add_eq_append upt_conv_Cons le0 le_add_diff_inverse)
  have skip: "schedule_queues ([0..<i] @ rest) s = schedule_queues rest s" for rest
  proof -
    have "schedule_queues (xs @ rest) s = schedule_queues rest s" if "\<forall>j \<in> set xs. q_name (queues s ! j) \<noteq> ''default''" for xs
      using that by (induction xs) auto
    then show ?thesis using assms by auto
  qed
  have tail: "schedule_queues [Suc i..<length (queues s)] t = Inr t"
    if "length (queues t) = length (queues s)" "\<And>j. j < length (queues s) \<Longrightarrow> q_name (queues t ! j) = q_name (queues s ! j)" for t
    using that assms(2) by (intro schedule_others) auto
  have same: "upd_queue i (\<lambda>rs. r # tl rs) s = s" if "q_sessions (queues s ! i) = r # rs" for r rs
    using that by (intro upd_queue_same) simp
  have "q_name (queues s ! i) = ''default''" using assms by blast
  then show ?thesis unfolding fifo_schedule_def split skip using assms(1)
    by (auto simp: tail upd_queue_names opal_list_prepend_session_def same split: list.split option.split)
qed

lemma one_queue_cong: "map q_name (queues s') = map q_name (queues s) \<Longrightarrow> one_queue name s' = one_queue name s"
proof -
  have "length (filter (\<lambda>q. q_name q = name) qs) = length (filter (\<lambda>n. n = name) (map q_name qs))" for qs :: "orcm_queue list"
    by (simp add: filter_map o_def)
  then show "map q_name (queues s') = map q_name (queues s) \<Longrightarrow> ?thesis" by (simp only: one_queue_def)
qed

lemma map_q_name_upd [simp]: "map q_name (queues (upd_queue i f s)) = map q_name (queues s)"
proof (cases "i < length (queues s)")
  case True
  then show ?thesis by (simp add: upd_queue_def map_update list_update_same_conv)
qed (simp add: upd_queue_def list_update_beyond)

lemma q_sessions_upd [simp]: "i < length (queues s) \<Longrightarrow> q_sessions (queues (upd_queue i f s) ! i) = f (q_sessions (queues s ! i))"
  by (simp add: upd_queue_def)

lemma default_sessions_upd:
  assumes "i < length (queues s)" "\<And>j. j < length (queues s) \<Longrightarrow> q_name (queues s ! j) = ''default'' \<longleftrightarrow> j = i"
    "k < length (queues s)"
  shows "default_sessions (upd_queue k f s) = (if k = i then f (default_sessions s) else default_sessions s)"
proof -
  have "default_sessions (upd_queue k f s) = q_sessions (queues (upd_queue k f s) ! i)"
    using assms(1,2) by (intro default_sessions_at) (simp_all add: upd_queue_names)
  then show ?thesis using assms(3) default_sessions_at[OF assms(1,2)] by (simp add: upd_queue_def)
qed

lemma default_sessions_frame [simp]:
  "default_sessions (upd_alloc r f s) = default_sessions s"
  "default_sessions (orcm_scd_base_activate_session_state r st s) = default_sessions s"
  by (simp_all add: default_sessions_def)

lemma abs_fifo_simps [simp]:
  "abs_fifo (upd_alloc r f s) = abs_fifo s"
  "abs_fifo (orcm_scd_base_activate_session_state r st s) = abs_fifo s"
  by (simp_all add: abs_fifo_def)

lemma pass_refines:
  assumes "scd_inv s" "one_queue ''default'' s"
  shows "\<exists>s'. fifo_schedule s = Inr s' \<and> one_queue ''default'' s' \<and>
    abs_fifo s' = spec_pass (needed_nodes s) (int (length (free_nodes s))) (abs_fifo s)"
proof -
  obtain i where i: "i < length (queues s)" "\<And>j. j < length (queues s) \<Longrightarrow> q_name (queues s ! j) = ''default'' \<longleftrightarrow> j = i"
    using one_queue_index[OF assms(2)] by metis
  note abs = abs_fifo_def default_sessions_at[OF i]
  show ?thesis
  proof (cases "q_sessions (queues s ! i)")
    case Nil
    then show ?thesis using fifo_schedule_one[OF i] assms(2) by (simp add: abs spec_pass_def)
  next
    case (Cons r rs)
    have q: "mset (queued s) = add_mset r (mset (queued (upd_queue i tl s)))"
      using queued_upd_queue[OF i(1), of tl] Cons by simp
    then have "r \<in> set (queued s)" by (metis set_mset_mset union_single_eq_member)
    then obtain al where al: "alloc_at s r = Some al" using assms(1) by (auto simp: scd_inv_def list_all_iff)
    have "distinct (queued s)" using assms(1) by (auto simp: scd_inv_def places_def)
    then have "distinct (r # queued (upd_queue i tl s))" using q by (metis mset.simps(2) mset_eq_imp_distinct_iff)
    then have r: "r \<notin> set (queued (upd_queue i tl s))" by simp
    show ?thesis
    proof (cases "sint (al_min_nodes al) \<le> int (length (free_nodes s))")
      case True
      let ?s' = "orcm_scd_base_rm_activate_session_state r ORCM_SESSION_STATE_REQ (upd_queue i tl s)"
      have d: "default_sessions ?s' = rs"
        using default_sessions_at[of i ?s'] i Cons upd_queue_names[of _ s i tl] by simp
      have e: "rm_events ?s' = rm_events s @ [\<lparr>ev_cbfunc = rm_request_cb, ev_session = r, ev_priority = 3\<rparr>]"
        using assms(1) by (simp add: scd_inv_def new_rm_events del: One_nat_def)
      have "abs_fifo ?s' = spec_pass (needed_nodes s) (int (length (free_nodes s))) (abs_fifo s)"
        unfolding abs_fifo_def d e by (simp add: default_sessions_at[OF i] Cons spec_pass_def needed_nodes_def al True)
      moreover have "one_queue ''default'' ?s'" using assms(2) one_queue_cong[of ?s' s] by simp
      ultimately show ?thesis using fifo_schedule_one[OF i] True Cons al by simp
    next
      case False
      then have "fifo_schedule s = Inr s" using fifo_schedule_one[OF i] Cons al r by simp
      then show ?thesis using assms(2) False by (simp add: abs spec_pass_def needed_nodes_def Cons al)
    qed
  qed
qed

lemma put_on_queue_one:
  assumes "queue_index name (queues s) = Some i" "r \<notin> set (queued s)"
  shows "put_on_queue name r s = Inr (orcm_scd_base_activate_session_state r ORCM_SESSION_STATE_SCHEDULE
           (upd_queue i (\<lambda>rs. rs @ [r]) (upd_alloc r (al_queues_update (\<lambda>_. Some name)) s)))"
  using assms by (simp add: put_on_queue_def opal_list_append_session_def queued_def)

lemma arrive_refines:
  assumes "scd_inv s" "one_queue ''default'' s" "one_queue ''hold'' s" "alloc_at s r \<noteq> None" "r \<notin> set (queued s)"
  shows "\<exists>s'. fifo_find_queue r s = Inr s' \<and> one_queue ''default'' s' \<and> one_queue ''hold'' s' \<and>
    abs_fifo s' = (if needed_nodes s r \<le> int (length (live_nodes s)) then spec_arrive r (abs_fifo s) else abs_fifo s)"
proof -
  obtain al where al: "alloc_at s r = Some al" using assms(4) by auto
  have cnt: "pa_size (nodes s) - number_free (nodes s) = int (length (live_nodes s))"
    using assms(1) by (intro number_of_nodes) (simp add: scd_inv_def)
  obtain i where i: "queue_index ''default'' (queues s) = Some i" "i < length (queues s)"
    "\<And>j. j < length (queues s) \<Longrightarrow> q_name (queues s ! j) = ''default'' \<longleftrightarrow> j = i"
    using one_queue_index[OF assms(2)] by metis
  obtain h where h: "queue_index ''hold'' (queues s) = Some h" "h < length (queues s)"
    "\<And>j. j < length (queues s) \<Longrightarrow> q_name (queues s ! j) = ''hold'' \<longleftrightarrow> j = h"
    using one_queue_index[OF assms(3)] by metis
  have "i \<noteq> h" using i(2,3) h(3) by force
  let ?s1 = "\<lambda>k name. upd_queue k (\<lambda>rs. rs @ [r]) (upd_alloc r (al_queues_update (\<lambda>_. Some name)) s)"
  have d: "default_sessions (?s1 k name) = (if k = i then default_sessions s @ [r] else default_sessions s)"
    if "k < length (queues s)" for k name
    using default_sessions_upd[of i "upd_alloc r (al_queues_update (\<lambda>_. Some name)) s" k] that i(2,3)
    by simp
  have o: "one_queue n (?s1 k name) = one_queue n s" for n k name by (rule one_queue_cong) simp
  have o2: "one_queue n (orcm_scd_base_activate_session_state r st s) = one_queue n s"
    "one_queue n (upd_alloc r f s) = one_queue n s" for n st s f by (simp_all add: one_queue_def)
  show ?thesis
    using put_on_queue_one[OF i(1) assms(5)] put_on_queue_one[OF h(1) assms(5)] d[OF i(2)] d[OF h(2)] \<open>i \<noteq> h\<close> o assms(2,3)
    by (auto simp: fifo_find_queue_def al cnt needed_nodes_def o2 abs_fifo_def spec_arrive_def)
qed

text \<open>Sequences of arrivals and passes, in the scheduler and in the abstract one.\<close>

datatype fifo_op = Arrive session_ref | Pass

definition run_op :: "fifo_op \<Rightarrow> orcm_scd_base \<Rightarrow> opal_err + orcm_scd_base" where
  "run_op f s = (case f of Arrive r \<Rightarrow> fifo_find_queue r s | Pass \<Rightarrow> fifo_schedule s)"

fun run_ops :: "('f \<Rightarrow> 's \<Rightarrow> opal_err + 's) \<Rightarrow> 'f list \<Rightarrow> 's \<Rightarrow> opal_err + 's" where
  "run_ops run [] s = Inr s"
| "run_ops run (f # fs) s = err_bind (run f s) (run_ops run fs)"

definition spec_op :: "(session_ref \<Rightarrow> int) \<Rightarrow> int \<Rightarrow> int \<Rightarrow> fifo_op \<Rightarrow> fifo_spec \<Rightarrow> fifo_spec" where
  "spec_op needed free all_nodes f sp =
     (case f of
        Arrive r \<Rightarrow> if needed r \<le> all_nodes then spec_arrive r sp else sp
      | Pass \<Rightarrow> spec_pass needed free sp)"

definition arrivals :: "fifo_op list \<Rightarrow> session_ref list" where
  "arrivals fs = List.map_filter (\<lambda>f. case f of Arrive r \<Rightarrow> Some r | Pass \<Rightarrow> None) fs"

lemma arrivals_simps [simp]:
  "arrivals [] = []" "arrivals (Arrive r # fs) = r # arrivals fs" "arrivals (Pass # fs) = arrivals fs"
  by (simp_all add: arrivals_def map_filter_simps)

text \<open>Neither operation touches the nodes or how many of them a session wants.\<close>

lemma needed_upd [simp]:
  "(\<And>al. al_min_nodes (f al) = al_min_nodes al) \<Longrightarrow> needed_nodes (upd_alloc r f s) = needed_nodes s"
proof (rule ext)
  fix x assume "\<And>al. al_min_nodes (f al) = al_min_nodes al"
  then show "needed_nodes (upd_alloc r f s) x = needed_nodes s x"
    by (cases "x = r") (auto simp: needed_nodes_def split: option.split)
qed

lemma needed_cong: "sessions s' = sessions s \<Longrightarrow> needed_nodes s' = needed_nodes s"
  by (auto simp: needed_nodes_def alloc_at_def session_at_def)

definition same_work :: "orcm_scd_base \<Rightarrow> orcm_scd_base \<Rightarrow> bool" where
  "same_work s s' \<longleftrightarrow> needed_nodes s' = needed_nodes s \<and> nodes s' = nodes s"

lemma same_work_put_on_queue: "put_on_queue name r s = Inr s' \<Longrightarrow> same_work s s'"
  using needed_cong[of "upd_queue _ _ _"] needed_cong[of "orcm_scd_base_activate_session_state _ _ _"]
  by (auto simp: put_on_queue_def opal_list_append_session_def same_work_def split: option.splits if_splits)

lemma same_work_find_queue: "fifo_find_queue r s = Inr s' \<Longrightarrow> same_work s s'"
  by (auto simp: fifo_find_queue_def err_bind_Inr same_work_def split: option.splits if_splits
      dest!: same_work_put_on_queue[unfolded same_work_def])

lemma same_work_schedule: "schedule_queues is s = Inr s' \<Longrightarrow> same_work s s'"
proof (induction "is" arbitrary: s)
  case (Cons i "is")
  have "s' = s \<or> (\<exists>s1. sessions s1 = sessions s \<and> nodes s1 = nodes s \<and> schedule_queues is s1 = Inr s')"
  proof (cases "q_name (queues s ! i) = ''default'' \<and> q_sessions (queues s ! i) \<noteq> []")
    case True
    then obtain r rs where "q_sessions (queues s ! i) = r # rs" by (meson list.exhaust)
    then obtain s1 where "schedule_queues is s1 = Inr s'"
      "s1 = orcm_scd_base_rm_activate_session_state r ORCM_SESSION_STATE_REQ (upd_queue i tl s) \<or>
       opal_list_prepend_session i r (upd_queue i tl s) = Inr s1"
      using Cons.prems True by (auto simp: err_bind_Inr split: option.splits if_splits)
    then show ?thesis by (auto simp: opal_list_prepend_session_def split: if_splits intro!: exI[of _ s1])
  next
    case False
    then show ?thesis using Cons.prems by (auto split: if_splits)
  qed
  then show ?case
  proof (elim disjE exE conjE)
    fix s1 assume s1: "sessions s1 = sessions s" "nodes s1 = nodes s" "schedule_queues is s1 = Inr s'"
    show ?thesis using Cons.IH[OF s1(3)] needed_cong[OF s1(1)] s1(2) by (simp add: same_work_def)
  qed (simp add: same_work_def)
qed (simp add: same_work_def)

lemma same_work_op: "run_op f s = Inr s' \<Longrightarrow> same_work s s'"
  by (auto simp: run_op_def fifo_schedule_def same_work_find_queue same_work_schedule split: fifo_op.splits)

text \<open>Refinement along a sequence of operations, once and for all.\<close>

locale op_refinement =
  fixes run :: "'f \<Rightarrow> 's \<Rightarrow> opal_err + 's" and spec :: "'f \<Rightarrow> 'a \<Rightarrow> 'a" and abs :: "'s \<Rightarrow> 'a" and ok :: "'f list \<Rightarrow> 's \<Rightarrow> bool"
  assumes step: "ok (f # fs) s \<Longrightarrow> \<exists>s'. run f s = Inr s' \<and> abs s' = spec f (abs s) \<and> ok fs s'"
begin

lemma runs: "ok fs s \<Longrightarrow> \<exists>s'. run_ops run fs s = Inr s' \<and> abs s' = fold spec fs (abs s)"
proof (induction fs arbitrary: s)
  case (Cons f fs)
  then show ?case using step[OF Cons.prems] by (fastforce simp: err_bind_simps)
qed simp

end

text \<open>
  The scheduler may take a sequence if the sessions that arrive have an allocation and are
  nowhere yet.
\<close>

definition fifo_ready :: "(session_ref \<Rightarrow> int) \<Rightarrow> int \<Rightarrow> int \<Rightarrow> fifo_op list \<Rightarrow> orcm_scd_base \<Rightarrow> bool" where
  "fifo_ready needed free all_nodes fs s \<longleftrightarrow>
     scd_inv s \<and> one_queue ''default'' s \<and> one_queue ''hold'' s \<and>
     distinct (arrivals fs @ places s) \<and> list_all (\<lambda>r. alloc_at s r \<noteq> None) (arrivals fs) \<and>
     needed = needed_nodes s \<and> free = int (length (free_nodes s)) \<and> all_nodes = int (length (live_nodes s))"

lemma fifo_ready_step:
  assumes "fifo_ready needed free all_nodes (f # fs) s" "run_op f s = Inr s'" "evolves rs s s'"
    "arrivals (f # fs) = rs @ arrivals fs"
  shows "fifo_ready needed free all_nodes fs s'"
proof -
  have l: "later s s'" and m: "mset (places s') \<subseteq># mset (rs @ places s)" using assms(3) by (auto simp: evolves_def)
  have w: "same_work s s'" by (rule same_work_op[OF assms(2)])
  have d: "distinct (arrivals fs @ rs @ places s)" "distinct (rs @ places s)" "scd_inv s"
    using assms(1,4) by (auto simp: fifo_ready_def)
  have "mset (arrivals fs @ places s') \<subseteq># mset (arrivals fs @ rs @ places s)" using m by simp
  then have "distinct (arrivals fs @ places s')" by (rule distinct_subset[OF d(1)])
  moreover have "scd_inv s'" using scd_inv_evolves[OF d(3) assms(3) d(2)] .
  moreover have "one_queue n s' = one_queue n s" for n using l by (intro one_queue_cong) (simp add: later_def)
  moreover have "live_nodes s' = live_nodes s" "needed_nodes s' = needed_nodes s"
    using w live_nodes_cong[of s' s] by (simp_all add: same_work_def)
  ultimately show ?thesis using assms(1,4) l
    by (auto simp: fifo_ready_def free_nodes_def later_def list_all_iff)
qed

interpretation fifo: op_refinement run_op "spec_op needed free all_nodes" abs_fifo "fifo_ready needed free all_nodes"
  for needed free all_nodes
proof
  fix f fs s
  assume ok: "fifo_ready needed free all_nodes (f # fs) s"
  then have s: "scd_inv s" "one_queue ''default'' s" "one_queue ''hold'' s" "states s = table_of fifo_states" "rmstates s = table_of rm_states"
    by (auto simp: fifo_ready_def scd_inv_def)
  show "\<exists>s'. run_op f s = Inr s' \<and> abs_fifo s' = spec_op needed free all_nodes f (abs_fifo s) \<and> fifo_ready needed free all_nodes fs s'"
  proof (cases f)
    case (Arrive r)
    have "alloc_at s r \<noteq> None" "r \<notin> set (queued s)" using ok Arrive by (auto simp: fifo_ready_def places_def)
    then obtain s' where s': "fifo_find_queue r s = Inr s'"
      "abs_fifo s' = (if needed_nodes s r \<le> int (length (live_nodes s)) then spec_arrive r (abs_fifo s) else abs_fifo s)"
      using arrive_refines[OF s(1,2,3)] by blast
    then have "fifo_ready needed free all_nodes fs s'"
      using fifo_ready_step[OF ok _ evolves_find_queue[OF s'(1) s(4)]] Arrive by (simp add: run_op_def)
    then show ?thesis using s' ok Arrive by (auto simp: run_op_def spec_op_def fifo_ready_def)
  next
    case Pass
    obtain s' where s': "fifo_schedule s = Inr s'"
      "abs_fifo s' = spec_pass (needed_nodes s) (int (length (free_nodes s))) (abs_fifo s)"
      using pass_refines[OF s(1,2)] by blast
    have "evolves [] s s'" using s'(1) by (intro evolves_schedule_queues[OF _ _ s(5)]) (auto simp: fifo_schedule_def)
    then have "fifo_ready needed free all_nodes fs s'" using fifo_ready_step[OF ok] s'(1) Pass by (simp add: run_op_def)
    then show ?thesis using s' ok Pass by (auto simp: run_op_def spec_op_def fifo_ready_def)
  qed
qed

text \<open>In the abstract scheduler nobody overtakes.\<close>

lemma spec_order:
  "requested (fold (spec_op needed free all_nodes) fs sp) @ waiting (fold (spec_op needed free all_nodes) fs sp) =
   requested sp @ waiting sp @ filter (\<lambda>r. needed r \<le> all_nodes) (arrivals fs)"
proof (induction fs arbitrary: sp)
  case (Cons f fs)
  show ?case
  proof (cases f)
    case (Arrive r)
    then show ?thesis by (simp add: Cons.IH) (simp add: spec_op_def spec_arrive_def)
  next
    case Pass
    then show ?thesis by (simp add: Cons.IH) (simp add: spec_op_def spec_pass_def split: list.split)
  qed
qed simp

section \<open>An example\<close>

text \<open>Two free nodes, and one new session for every number of nodes wanted.\<close>

definition example_session :: "nat \<Rightarrow> u32 \<Rightarrow> orcm_session" where
  "example_session i k =
     \<lparr>ses_id = of_nat (Suc i), ses_uid = 0,
      ses_alloc = Some (orcm_alloc_con\<lparr>al_id := of_nat (Suc i), al_min_nodes := k\<rparr>)\<rparr>"

definition example_nodes :: "orcm_node list" where
  "example_nodes = [example_node, example_node\<lparr>hostname := Some ''n2'', daemon := \<lparr>jobid = 0, vpid = 5\<rparr>\<rparr>]"

definition example_scd :: "u32 list \<Rightarrow> orcm_scd_base" where
  "example_scd wants =
     \<lparr>power_budget = - 1, power_mode = 0, power_window = 10, power_overage = 0, power_underage = 0,
      power_overage_time = 0, power_underage_time = 0, power_frequency = 0xBF800000, power_strict = 1,
      states = table_of fifo_states, rmstates = table_of rm_states,
      queues = [\<lparr>q_name = ''running'', q_priority = 0, q_sessions = []\<rparr>,
                \<lparr>q_name = ''hold'', q_priority = 0, q_sessions = []\<rparr>,
                \<lparr>q_name = ''default'', q_priority = 0, q_sessions = []\<rparr>],
      nodes = \<lparr>lowest_free = 2, number_free = 0, pa_size = 2, max_size = INT_MAX, block_size = 8,
               addr = Some (map Some example_nodes)\<rparr>,
      topologies = opal_pointer_array_construct, tracking = [], last_session_id = 0,
      sessions = map2 example_session [0..<length wants] wants,
      scd_events = [], rm_events = [], outbox = []\<rparr>"

definition example_scd_env :: scd_env where
  "example_scd_env =
     \<lparr>env_dss = example_env, send_buffer_nb = (\<lambda>_ _ _. None), unpack_topology = dss_fail OPAL_ERR_NOT_SUPPORTED,
      equal_topology = (=), pwrmgmt_alloc_notify = (\<lambda>al. (None, al)), orcm_clusters = [example_cluster],
      my_scheduler = \<lparr>jobid = 0, vpid = 0\<rparr>, uninit_uid = 0, uninit_word = 0, uninit_result = 0\<rparr>"

lemma example_scd_inv [simp]:
  "places (example_scd wants) = []" "scd_inv (example_scd wants)" "live_nodes (example_scd wants) = example_nodes"
  "one_queue ''default'' (example_scd wants)" "one_queue ''hold'' (example_scd wants)"
  "abs_fifo (example_scd wants) = \<lparr>waiting = [], requested = []\<rparr>"
proof -
  have pa: "pa_inv (nodes (example_scd wants))" 
    by (simp add: example_scd_def example_nodes_def pa_inv_def slots_def count_null_def first_free_def)
  then show live: "live_nodes (example_scd wants) = example_nodes"
    by (simp add: live_nodes_def node_slots) (simp add: example_scd_def example_nodes_def slots_def map_filter_simps)
  show "places (example_scd wants) = []" 
    by (simp add: places_def events_def queued_def example_scd_def)
  with live pa show "scd_inv (example_scd wants)"
    by (simp add: scd_inv_def example_nodes_def example_node_def) (simp add: example_scd_def events_def queued_def)
qed (simp_all add: one_queue_def example_scd_def abs_fifo_def default_sessions_def)

lemma example_alloc [simp]:
  "r < length wants \<Longrightarrow> alloc_at (example_scd wants) r = Some (orcm_alloc_con\<lparr>al_id := of_nat (Suc r), al_min_nodes := wants ! r\<rparr>)"
  by (simp add: alloc_at_def session_at_def example_scd_def example_session_def)

section \<open>Arrival and passes\<close>

text \<open>
  C2: The queue handlers refine an abstract scheduler with one waiting line.  For any
  interleaving of sessions arriving (\<^verbatim>\<open>fifo_find_queue\<close>) and passes of the scheduler
  (\<^verbatim>\<open>fifo_schedule\<close>) that starts in a state in order, every handler returns, and the
  default queue together with the requests sent to the resource manager is what the abstract
  scheduler has: arrivals that fit the cluster queue up at the end, and a pass takes the first
  one if it fits the free nodes.  So sessions are requested in the order of their arrival.
\<close>

theorem fifo_refines:
  assumes "scd_inv s" "one_queue ''default'' s" "one_queue ''hold'' s"
    "distinct (arrivals fs @ places s)" "list_all (\<lambda>r. alloc_at s r \<noteq> None) (arrivals fs)"
  shows "\<exists>s'. run_ops run_op fs s = Inr s' \<and>
           abs_fifo s' = fold (spec_op (needed_nodes s) (int (length (free_nodes s))) (int (length (live_nodes s)))) fs (abs_fifo s) \<and>
           requested (abs_fifo s') @ waiting (abs_fifo s') =
             requested (abs_fifo s) @ waiting (abs_fifo s) @
             filter (\<lambda>r. needed_nodes s r \<le> int (length (live_nodes s))) (arrivals fs)"
  using fifo.runs[of _ _ _ fs s] assms by (force simp: fifo_ready_def spec_order)

theorem fifo_refines_witness:
  "\<exists>s'. run_ops run_op [Arrive 0, Arrive 1, Pass, Pass] (example_scd [2, 1]) = Inr s' \<and>
     requested (abs_fifo s') @ waiting (abs_fifo s') = [0, 1]"
proof -
  have "needed_nodes (example_scd [2, 1]) 0 = 2" "needed_nodes (example_scd [2, 1]) 1 = 1" "length example_nodes = 2"
    by (simp_all add: needed_nodes_def orcm_alloc_con_def example_nodes_def)
  then show ?thesis using fifo_refines[of "example_scd [2, 1]" "[Arrive 0, Arrive 1, Pass, Pass]"] by auto
qed

section \<open>Nodes for a session\<close>

text \<open>The names a request takes: those of the first free nodes of the table.\<close>

definition picked :: "orcm_scd_base \<Rightarrow> int \<Rightarrow> string list" where
  "picked s k = take (nat k) (map (\<lambda>n. the (hostname n)) (free_nodes s))"

definition name_list :: "string list \<Rightarrow> string option" where
  "name_list xs = (if xs = [] then None else Some (separated (CHR '','') xs))"

lemma separated_snoc: "xs \<noteq> [] \<Longrightarrow> separated d (xs @ [x]) = separated d xs @ d # x"
  by (induction d xs rule: separated.induct) auto

lemma name_list_snoc: "name_list (xs @ [x]) = Some (case name_list xs of None \<Rightarrow> x | Some l \<Rightarrow> l @ CHR '','' # x)"
  by (simp add: name_list_def separated_snoc)

lemma pick_nodes:
  assumes "list_all (\<lambda>n. hostname n \<noteq> None) ns" "0 < k"
  shows "pick_nodes ns k (name_list xs) =
    Inr (name_list (xs @ take (nat k) (map (\<lambda>n. the (hostname n)) (filter free_node ns))),
         k - min k (int (length (filter free_node ns))))"
  using assms
proof (induction ns arbitrary: k xs)
  case (Cons n ns)
  show ?case
  proof (cases "free_node n")
    case True
    obtain h where h: "hostname n = Some h" using Cons.prems(1) by auto
    have "nat k = Suc (nat (k - 1))" using Cons.prems(2) by simp
    moreover have "pick_nodes ns (k - 1) (name_list (xs @ [h])) =
        Inr (name_list ((xs @ [h]) @ take (nat (k - 1)) (map (\<lambda>n. the (hostname n)) (filter free_node ns))),
             k - 1 - min (k - 1) (int (length (filter free_node ns))))" if "k \<noteq> 1"
      using Cons.IH[of "k - 1" "xs @ [h]"] Cons.prems that by simp
    ultimately show ?thesis using True h Cons.prems(2) by (simp add: name_list_snoc[symmetric] Let_def) (simp add: min_def)
  next
    case False
    then show ?thesis using Cons by simp
  qed
qed simp

lemma scd_inv_named: "scd_inv s \<Longrightarrow> list_all (\<lambda>n. hostname n \<noteq> None) (live_nodes s)"
  by (simp add: scd_inv_def)

lemma rm_request_cases:
  assumes "list_all (\<lambda>n. hostname n \<noteq> None) (live_nodes s)" "alloc_at s r = Some al" "0 < sint (al_min_nodes al)"
  shows "pick_nodes (live_nodes s) (sint (al_min_nodes al)) None =
    Inr (name_list (picked s (sint (al_min_nodes al))),
         sint (al_min_nodes al) - min (sint (al_min_nodes al)) (int (length (free_nodes s))))"
  using assms pick_nodes[of "live_nodes s" "sint (al_min_nodes al)" "[]"]
  by (simp add: picked_def free_nodes_def name_list_def)

text \<open>The names can be written as an expression, which is not taken for an error.\<close>

definition names_ok :: "string list \<Rightarrow> bool" where
  "names_ok ns \<longleftrightarrow> list_all node_name_ok ns \<and> ''ERROR'' \<notin> set ns"

lemma error_name_ok: "node_name_ok ''ERROR''"
  by (simp add: node_name_ok_def plain_text_def alpha_part_def digit_part_def rest_part_def c_isalpha_def
      c_isdigit_def c_isalnum_def char_code_def ORTE_MAX_NODE_PREFIX_def)

definition writes_names :: "string \<Rightarrow> string list \<Rightarrow> bool" where
  "writes_names e ns \<longleftrightarrow> e \<noteq> ''ERROR'' \<and>
     (\<exists>names. orte_regex_extract_node_names (Some e) None = (None, Some names) \<and>
        set names = set ns \<and> length names = length ns \<and> hd names = hd ns)"

lemma request_picks_first:
  assumes "list_all (\<lambda>n. hostname n \<noteq> None) (live_nodes s)" "alloc_at s r = Some al" "0 < sint (al_min_nodes al)"
    "sint (al_min_nodes al) \<le> int (length (free_nodes s))" "names_ok (picked s (sint (al_min_nodes al)))"
  shows "\<exists>e. scd_base_rm_request r s = Inr (orcm_scd_base_activate_session_state r ORCM_SESSION_STATE_ALLOCD
             (upd_alloc r (al_nodes_update (\<lambda>_. Some e)) s)) \<and> writes_names e (picked s (sint (al_min_nodes al)))"
proof -
  let ?ns = "picked s (sint (al_min_nodes al))"
  have ns: "?ns \<noteq> []" using assms(3,4) by (auto simp: picked_def)
  obtain e left names where e: "orte_regex_create (separated (CHR '','') ?ns) = Inr (e, left)" "e \<noteq> ''ERROR''"
    "orte_regex_extract_node_names (Some e) None = (None, Some names)" "set names = set ?ns" "length names = length ?ns"
    "hd names = hd ?ns"
    using node_expr.expands_to[OF ns _ error_name_ok] assms(5) unfolding names_ok_def by metis
  have "scd_base_rm_request r s = Inr (orcm_scd_base_activate_session_state r ORCM_SESSION_STATE_ALLOCD
             (upd_alloc r (al_nodes_update (\<lambda>_. Some e)) s))"
    using assms(2-4) e(1) ns
    by (simp add: scd_base_rm_request_def rm_request_cases[OF assms(1-3)] name_list_def)
  then show ?thesis using e by (auto simp: writes_names_def)
qed

text \<open>
  C5: A request takes the first free nodes of the node table.  If at least as many nodes are free as the
  session wants, the handler stores an expression that the daemons expand to exactly the names
  of the first that many free nodes, the first one in front, and reports the allocation to the
  scheduler; nothing else changes.
\<close>

theorem request_picks:
  assumes "scd_inv s" "alloc_at s r = Some al" "0 < sint (al_min_nodes al)"
    "sint (al_min_nodes al) \<le> int (length (free_nodes s))" "names_ok (picked s (sint (al_min_nodes al)))"
  shows "\<exists>e names. scd_base_rm_request r s =
           Inr (orcm_scd_base_activate_session_state r ORCM_SESSION_STATE_ALLOCD
             (upd_alloc r (al_nodes_update (\<lambda>_. Some e)) s)) \<and>
         orte_regex_extract_node_names (Some e) None = (None, Some names) \<and>
         set names = set (picked s (sint (al_min_nodes al))) \<and> int (length names) = sint (al_min_nodes al) \<and>
         hd names = hd (picked s (sint (al_min_nodes al)))"
  using request_picks_first[OF scd_inv_named[OF assms(1)] assms(2-)] assms(3,4) by (fastforce simp: writes_names_def picked_def)

lemma example_free [simp]: "free_nodes (example_scd wants) = example_nodes"
  by (simp add: free_nodes_def example_nodes_def example_node_def free_node_def)

lemma example_picked [simp]:
  "picked (example_scd wants) k = take (nat k) [''n1'', ''n2'']" "names_ok [''n1'', ''n2'']"
  by (simp_all add: picked_def example_nodes_def example_node_def names_ok_def node_name_ok_def plain_text_def alpha_part_def
      digit_part_def rest_part_def c_isalpha_def c_isdigit_def c_isalnum_def char_code_def ORTE_MAX_NODE_PREFIX_def
      digits_value_def digit_value_def INT_MAX_def)

theorem request_picks_witness:
  "\<exists>e names. scd_base_rm_request 0 (example_scd [2]) =
       Inr (orcm_scd_base_activate_session_state 0 ORCM_SESSION_STATE_ALLOCD
         (upd_alloc 0 (al_nodes_update (\<lambda>_. Some e)) (example_scd [2]))) \<and>
     orte_regex_extract_node_names (Some e) None = (None, Some names) \<and>
     set names = {''n1'', ''n2''} \<and> int (length names) = 2 \<and> hd names = ''n1''"
  using request_picks[of "example_scd [2]" 0 "orcm_alloc_con\<lparr>al_id := of_nat (Suc 0), al_min_nodes := 2\<rparr>"]
  by (simp add: example_nodes_def)

section \<open>From allocation to termination\<close>

lemma running_index:
  assumes "scd_inv s"
  obtains i where "queue_index ''running'' (queues s) = Some i" "i < length (queues s)"
  using assms queue_index_None[of "''running''" "queues s"] queue_index_bound[of "''running''" "queues s"]
  by (auto simp: scd_inv_def)

lemma named_nodes_known: "scd_inv s \<Longrightarrow> \<not> list_ex (\<lambda>n. hostname n = None) (live_nodes s)"
  by (auto simp: scd_inv_def list_ex_iff list_all_iff)

text \<open>Marking nodes depends on the set of their names only.\<close>

lemma allocated_marks:
  assumes "scd_inv s" "alloc_at s r = Some al" "al_nodes al = Some e" "writes_names e ns"
    "int (length ns) = sint (al_min_nodes al)" "r \<notin> set (queued s)" "queue_index ''running'' (queues s) = Some i"
  shows "\<exists>names. set names = set ns \<and>
    fifo_allocated r s = Inr (set_all_named ORCM_SCD_NODE_STATE_ALLOC names
      (orcm_scd_base_rm_activate_session_state r ORCM_SESSION_STATE_ACTIVE
        (upd_queue i (\<lambda>rs. rs @ [r]) (upd_alloc r (al_queues_update (\<lambda>_. Some ''running'')) s))))"
proof -
  obtain names where n: "e \<noteq> ''ERROR''" "orte_regex_extract_node_names (Some e) None = (None, Some names)"
    "set names = set ns" "length names = length ns"
    using assms(4) by (auto simp: writes_names_def)
  let ?t = "orcm_scd_base_rm_activate_session_state r ORCM_SESSION_STATE_ACTIVE
        (upd_queue i (\<lambda>rs. rs @ [r]) (upd_alloc r (al_queues_update (\<lambda>_. Some ''running'')) s))"
  have "live_nodes ?t = live_nodes s" by (rule live_nodes_cong) simp
  then have "\<not> list_ex (\<lambda>n. hostname n = None) (live_nodes ?t)" using named_nodes_known[OF assms(1)] by simp
  moreover have "r \<notin> set (queued (upd_alloc r f s))" for f using assms(6) by (simp add: queued_def)
  ultimately show ?thesis using assms(2,3,5,7) n
    by (intro exI[of _ names]) (simp add: fifo_allocated_def opal_list_append_session_def Let_def set_scd_states_def)
qed

lemma terminated_releases:
  assumes "\<not> list_ex (\<lambda>n. hostname n = None) (live_nodes s)" "alloc_at s r = Some al" "al_nodes al = Some e" "writes_names e ns"
    "queue_index ''running'' (queues s) = Some i"
  shows "\<exists>names. set names = set ns \<and>
    fifo_terminated r s = Inr (orcm_scd_base_activate_session_state r ORCM_SESSION_STATE_SCHEDULE
      (upd_queue i (filter (\<lambda>x. id_at s x \<noteq> id_at s r)) (set_all_named ORCM_SCD_NODE_STATE_UNALLOC names s)))"
proof -
  obtain names where n: "orte_regex_extract_node_names (Some e) None = (None, Some names)" "set names = set ns"
    using assms(4) by (auto simp: writes_names_def)
  have "id_at (set_all_named v names s) = id_at s" for v
    by (simp add: fun_eq_iff id_at_def session_at_def)
  then show ?thesis using assms(1-3,5) n
    by (intro exI[of _ names]) (simp add: fifo_terminated_def set_scd_states_def Let_def)
qed

lemma set_named_twice:
  assumes "pa_inv (nodes s)" "set names = ns" "set names' = ns" "\<forall>n \<in> set (live_nodes s). hostname n \<in> Some ` ns \<longrightarrow> scd_state n = v"
    "nodes t = nodes (set_all_named w names s)"
  shows "live_nodes (set_all_named v names' t) = live_nodes s"
proof -
  have t: "pa_inv (nodes t)" "live_nodes t = live_nodes (set_all_named w names s)"
    using assms(1,5) live_nodes_cong[OF assms(5)] by simp_all
  have "n\<lparr>scd_state := w, scd_state := v\<rparr> = n" if "scd_state n = v" for n :: orcm_node using that by simp
  then show ?thesis using assms(1-4) t by (auto simp: live_set_all_named intro!: map_idI)
qed

lemma picked_hosts:
  assumes "scd_inv s" "distinct (map hostname (live_nodes s))" "n \<in> set (live_nodes s)"
  shows "hostname n \<in> Some ` set (picked s k) \<longleftrightarrow> n \<in> set (take (nat k) (free_nodes s))"
proof -
  have sub: "set (take (nat k) (free_nodes s)) \<subseteq> set (live_nodes s)"
    using set_take_subset[of "nat k" "free_nodes s"] by (auto simp: free_nodes_def)
  have inj: "inj_on hostname (set (live_nodes s))" using assms(2) by (simp add: distinct_map)
  have named: "hostname m \<noteq> None" if "m \<in> set (live_nodes s)" for m
    using assms(1) that by (auto simp: scd_inv_def list_all_iff)
  have "Some ` set (picked s k) = (\<lambda>m. Some (the (hostname m))) ` set (take (nat k) (free_nodes s))"
    by (simp add: picked_def take_map image_image)
  also have "\<dots> = hostname ` set (take (nat k) (free_nodes s))"
    using named sub by (intro image_cong) auto
  finally show ?thesis using inj_on_image_mem_iff[OF inj assms(3) sub] by simp
qed


text \<open>What the daemons report back when a session ends: the allocation as it was sent, in a new session object.\<close>

definition reported :: "session_ref \<Rightarrow> string \<Rightarrow> orcm_scd_base \<Rightarrow> orcm_scd_base \<Rightarrow> session_ref \<Rightarrow> bool" where
  "reported r e s t r' \<longleftrightarrow> nodes t = nodes s \<and> queues t = queues s \<and> map_option al_nodes (alloc_at t r') = Some (Some e) \<and>
     id_at t r' = id_at t r \<and> list_all (\<lambda>x. x = r \<or> id_at t x \<noteq> id_at t r) (queued t)"

lemma removes_last:
  "x \<notin> set xs \<Longrightarrow> list_all (\<lambda>y. y = x \<or> f y \<noteq> f x) xs \<Longrightarrow> filter (\<lambda>y. f y \<noteq> f x) (xs @ [x]) = xs"
  by (induction xs) auto

lemma upd_queue_undo:
  "i < length (queues s) \<Longrightarrow> queues t = queues (upd_queue i f s) \<Longrightarrow> g (f (q_sessions (queues s ! i))) = q_sessions (queues s ! i) \<Longrightarrow>
   queues (upd_queue i g t) = queues s"
  by (simp add: upd_queue_def)

lemma queue_index_cong: "map q_name qs = map q_name qs' \<Longrightarrow> queue_index name qs = queue_index name qs'"
proof (induction qs arbitrary: qs')
  case (Cons q qs)
  then show ?case by (cases qs') auto
qed simp

lemma nodes_set_all_named: "nodes s = nodes t \<Longrightarrow> nodes (set_all_named v ns s) = nodes (set_all_named v ns t)"
  by (induction ns arbitrary: s t) (simp_all add: set_all_named_def set_named_def map_nodes_def)

lemma terminated_undoes:
  assumes inv: "scd_inv s" and d: "distinct (map hostname (live_nodes s))" and r: "r \<notin> set (queued s)"
    and i: "queue_index ''running'' (queues s) = Some i" "i < length (queues s)"
    and e: "writes_names e (picked s k)" and n: "set names = set (picked s k)"
    and t: "reported r e s' t r'" "nodes s' = nodes (set_all_named ORCM_SCD_NODE_STATE_ALLOC names s)"
      "queues s' = queues (upd_queue i (\<lambda>rs. rs @ [r]) s)"
  shows "\<exists>t'. fifo_terminated r' t = Inr t' \<and> live_nodes t' = live_nodes s \<and> queues t' = queues s"
proof -
  have pa: "pa_inv (nodes s)" using inv by (simp add: scd_inv_def)
  have nt: "nodes t = nodes (set_all_named ORCM_SCD_NODE_STATE_ALLOC names s)"
    and qt: "queues t = queues (upd_queue i (\<lambda>rs. rs @ [r]) s)" using t by (simp_all add: reported_def)
  have "\<not> list_ex (\<lambda>n. hostname n = None) (live_nodes t)"
    unfolding live_nodes_cong[OF nt] live_set_all_named[OF pa] using named_nodes_known[OF inv] by (auto simp: list_ex_iff)
  moreover obtain al' where "alloc_at t r' = Some al'" "al_nodes al' = Some e" using t(1) by (auto simp: reported_def)
  moreover have "queue_index ''running'' (queues t) = Some i"
    using i(1) queue_index_cong[of "queues (upd_queue i (\<lambda>rs. rs @ [r]) s)" "queues s"] by (simp add: qt)
  ultimately obtain names' where n': "set names' = set (picked s k)" and run: "fifo_terminated r' t =
      Inr (orcm_scd_base_activate_session_state r' ORCM_SESSION_STATE_SCHEDULE
        (upd_queue i (filter (\<lambda>x. id_at t x \<noteq> id_at t r')) (set_all_named ORCM_SCD_NODE_STATE_UNALLOC names' t)))"
    using terminated_releases[of t r' al' e "picked s k" i] e by blast
  let ?t = "orcm_scd_base_activate_session_state r' ORCM_SESSION_STATE_SCHEDULE
        (upd_queue i (filter (\<lambda>x. id_at t x \<noteq> id_at t r')) (set_all_named ORCM_SCD_NODE_STATE_UNALLOC names' t))"
  have "\<forall>n \<in> set (live_nodes s). hostname n \<in> Some ` set (picked s k) \<longrightarrow> scd_state n = ORCM_SCD_NODE_STATE_UNALLOC"
    using picked_hosts[OF inv d] set_take_subset[of "nat k" "free_nodes s"] by (auto simp: free_nodes_def free_node_def)
  then have "live_nodes (set_all_named ORCM_SCD_NODE_STATE_UNALLOC names' t) = live_nodes s"
    by (rule set_named_twice[OF pa n n' _ nt])
  then have 1: "live_nodes ?t = live_nodes s" using live_nodes_cong[of ?t] by simp
  have "set (q_sessions (queues t ! i)) \<subseteq> set (queued t)" using queue_in_queued[of i t] i(2) qt by simp
  then have sub: "set (q_sessions (queues s ! i)) \<subseteq> set (queued t)" using i(2) qt by simp
  have "filter (\<lambda>x. id_at t x \<noteq> id_at t r') (q_sessions (queues s ! i) @ [r]) = q_sessions (queues s ! i)"
    using removes_last[of r "q_sessions (queues s ! i)" "id_at t"] t(1) sub r queue_in_queued[OF i(2)]
    by (auto simp: reported_def list_all_iff)
  then have "queues ?t = queues s" using upd_queue_undo[OF i(2), of "set_all_named ORCM_SCD_NODE_STATE_UNALLOC names' t"] qt by simp
  then show ?thesis using run 1 by simp
qed

lemma allocated_then:
  assumes inv: "scd_inv s" and al: "alloc_at s r = Some al" "al_nodes al = Some e" and k: "k = sint (al_min_nodes al)"
    and e: "writes_names e (picked s k)" "0 < k" "k \<le> int (length (free_nodes s))"
    and r: "r \<notin> set (queued s)" and d: "distinct (map hostname (live_nodes s))"
  shows "\<exists>s'. fifo_allocated r s = Inr s' \<and>
    live_nodes s' = map (\<lambda>n. if n \<in> set (take (nat k) (free_nodes s)) then n\<lparr>scd_state := ORCM_SCD_NODE_STATE_ALLOC\<rparr> else n)
                      (live_nodes s) \<and>
    mset (queued s') = add_mset r (mset (queued s)) \<and>
    (\<forall>t r'. reported r e s' t r' \<longrightarrow>
       (\<exists>t'. fifo_terminated r' t = Inr t' \<and> live_nodes t' = live_nodes s \<and> queues t' = queues s))"
proof -
  let ?ns = "picked s k"
  have pa: "pa_inv (nodes s)" using inv by (simp add: scd_inv_def)
  obtain i where i: "queue_index ''running'' (queues s) = Some i" "i < length (queues s)" using running_index[OF inv] .
  let ?q = "orcm_scd_base_rm_activate_session_state r ORCM_SESSION_STATE_ACTIVE
      (upd_queue i (\<lambda>rs. rs @ [r]) (upd_alloc r (al_queues_update (\<lambda>_. Some ''running'')) s))"
  have len: "int (length ?ns) = sint (al_min_nodes al)" using e(2,3) k by (simp add: picked_def)
  obtain names where n: "set names = set ?ns" and run: "fifo_allocated r s = Inr (set_all_named ORCM_SCD_NODE_STATE_ALLOC names ?q)"
      (is "_ = Inr ?s'") using allocated_marks[OF inv al e(1) len r i(1)] by blast
  have q: "queues ?s' = queues (upd_queue i (\<lambda>rs. rs @ [r]) s)" by (simp add: upd_queue_def)
  have nd: "nodes ?s' = nodes (set_all_named ORCM_SCD_NODE_STATE_ALLOC names s)" by (rule nodes_set_all_named) simp
  have queued: "mset (queued ?s') = add_mset r (mset (queued s))"
    using queued_upd_queue[OF i(2), of "\<lambda>rs. rs @ [r]"] q by (simp add: queued_def)
  have live: "live_nodes ?s' = map (\<lambda>n. if n \<in> set (take (nat k) (free_nodes s)) then n\<lparr>scd_state := ORCM_SCD_NODE_STATE_ALLOC\<rparr> else n)
                      (live_nodes s)"
    unfolding live_nodes_cong[OF nd] using pa picked_hosts[OF inv d] by (simp add: live_set_all_named n cong: map_cong)
  show ?thesis using run live queued terminated_undoes[OF inv d r i e(1) n _ nd q] by blast
qed

text \<open>
  C6: Allocation marks exactly the nodes that were chosen, and termination undoes it.  When the
  nodes of a session have been chosen among the free ones, the handler of the allocated state marks the
  first so many free nodes as allocated and no other, and puts the session on the running
  queue.  Whenever later the session's allocation is reported back under the same id, while the
  node table and the queues are as they were left, the handler of the terminated state brings
  every node and every queue back to what it was before.
\<close>

theorem session_released:
  assumes "scd_inv s" "alloc_at s r = Some al" "al_nodes al = Some e" "k = sint (al_min_nodes al)"
    "writes_names e (picked s k)" "0 < k" "k \<le> int (length (free_nodes s))"
    "r \<notin> set (queued s)" "distinct (map hostname (live_nodes s))"
  shows "\<exists>s'. fifo_allocated r s = Inr s' \<and>
    live_nodes s' = map (\<lambda>n. if n \<in> set (take (nat k) (free_nodes s)) then n\<lparr>scd_state := ORCM_SCD_NODE_STATE_ALLOC\<rparr> else n)
                      (live_nodes s) \<and>
    mset (queued s') = add_mset r (mset (queued s)) \<and>
    (\<forall>t r'. reported r e s' t r' \<longrightarrow>
       (\<exists>t'. fifo_terminated r' t = Inr t' \<and> live_nodes t' = live_nodes s \<and> queues t' = queues s))"
  using allocated_then[OF assms] by blast

text \<open>The example with both nodes already chosen for its session.\<close>

definition example_chosen :: orcm_scd_base where
  "example_chosen = upd_alloc 0 (al_nodes_update (\<lambda>_. Some ''n[1:1-2]'')) (example_scd [2])"

lemma example_chosen_inv: "scd_inv example_chosen" "queued example_chosen = []" "live_nodes example_chosen = example_nodes"
  "alloc_at example_chosen 0 = Some (orcm_alloc_con\<lparr>al_id := 1, al_min_nodes := 2, al_nodes := Some ''n[1:1-2]''\<rparr>)"
proof -
  show "scd_inv example_chosen" unfolding example_chosen_def
    by (rule scd_inv_evolves[OF _ evolves_upd_alloc]) simp_all
  have "queued (example_scd [2]) = []" by (simp add: example_scd_def queued_def)
  then show "queued example_chosen = []" by (simp add: queued_def example_chosen_def)
  show "live_nodes example_chosen = example_nodes" unfolding example_chosen_def
    using live_nodes_cong[of "upd_alloc 0 (al_nodes_update (\<lambda>_. Some ''n[1:1-2]'')) (example_scd [2])" "example_scd [2]"] by simp
  show "alloc_at example_chosen 0 = Some (orcm_alloc_con\<lparr>al_id := 1, al_min_nodes := 2, al_nodes := Some ''n[1:1-2]''\<rparr>)"
    by (simp add: example_chosen_def orcm_alloc_con_def)
qed

lemma example_expression: "orte_regex_extract_node_names (Some ''n[1:1-2]'') None = (None, Some [''n1'', ''n2''])"
  by code_simp

theorem session_released_witness:
  "\<exists>s'. fifo_allocated 0 example_chosen = Inr s' \<and> map scd_state (live_nodes s') = [3, 3] \<and> set (queued s') = {0}"
proof -
  have p: "picked example_chosen 2 = [''n1'', ''n2'']" "free_nodes example_chosen = example_nodes"
    by (simp_all add: picked_def free_nodes_def example_chosen_inv example_nodes_def example_node_def free_node_def)
  have "\<exists>s'. fifo_allocated 0 example_chosen = Inr s' \<and>
      live_nodes s' = map (\<lambda>n. if n \<in> set (take (nat 2) (free_nodes example_chosen)) then n\<lparr>scd_state := 3\<rparr> else n) (live_nodes example_chosen) \<and>
      mset (queued s') = add_mset 0 (mset (queued example_chosen))"
    using session_released[of example_chosen 0 _ "''n[1:1-2]''" 2] example_expression p
    by (auto simp: example_chosen_inv writes_names_def example_nodes_def example_node_def)
  then show ?thesis unfolding p
    by (auto simp: example_chosen_inv example_nodes_def dest!: mset_eq_setD[where xs = "queued _" and ys = "[0]", simplified])
qed

end
