(* ===== verification/Scheduler.thy ===== *)
theory Scheduler
  imports Scd_Work
begin

text \<open>
  The running scheduler: its start (\<^verbatim>\<open>orcm/mca/sst/orcmsched/sst_orcmsched.c\<close>), the
  steps it makes, and what holds in every state it reaches.  Events wait on two event bases;
  a step runs one event of either base or handles one message.  Handlers are taken to be
  atomic, though each base has a thread of its own in C and nothing guards the shared state.
\<close>

section \<open>Start\<close>

text \<open>Every node of every rack joins the pool; a node that finds no room is dropped silently.\<close>

definition cluster_nodes :: "orcm_cluster list \<Rightarrow> orcm_node list" where
  "cluster_nodes clusters =
     concat (map (\<lambda>cl. concat (map (\<lambda>row. concat (map rack_nodes (row_racks row))) (cluster_rows cl))) clusters)"

fun add_nodes :: "(nat \<Rightarrow> bool) \<Rightarrow> orcm_node list \<Rightarrow> orcm_scd_base \<Rightarrow> opal_err + orcm_scd_base" where
  "add_nodes heap [] s = Inr s"
| "add_nodes heap (n # ns) s =
     (case opal_pointer_array_add heap (nodes s) (Some n) of
        Inl C_UNDEFINED \<Rightarrow> Inl C_UNDEFINED
      | Inl _ \<Rightarrow> add_nodes heap ns s
      | Inr (_, t) \<Rightarrow> add_nodes heap ns (s\<lparr>nodes := t\<rparr>))"

text \<open>
  Opening the framework, filling the pool, selecting the only scheduler whose initialisation
  sets up the state machines, and constructing the queues.  \<open>scd_zero\<close> is the static memory
  before that.
\<close>

definition scd_zero :: orcm_scd_base where
  "scd_zero =
     \<lparr>power_budget = 0, power_mode = 0, power_window = 0, power_overage = 0, power_underage = 0,
      power_overage_time = 0, power_underage_time = 0, power_frequency = 0, power_strict = 0,
      states = [], rmstates = [], queues = [], nodes = opal_pointer_array_construct,
      topologies = opal_pointer_array_construct, tracking = [], last_session_id = 0, sessions = [],
      scd_events = [], rm_events = [], outbox = []\<rparr>"

definition scd_start :: "scd_env \<Rightarrow> argv \<Rightarrow> opal_err + orcm_scd_base" where
  "scd_start env defs =
     (let heap = heap_grants (env_dss env);
          s = orcm_scd_base_open heap (orcm_scd_base_register scd_zero)
      in err_bind (add_nodes heap (cluster_nodes (orcm_clusters env)) s) (\<lambda>s.
         err_bind (fifo_init s) (\<lambda>s.
           Inr (orcm_scd_base_construct_queues defs s))))"

section \<open>Steps\<close>

text \<open>The event loop runs the first event of the best priority.\<close>

definition next_event :: "event list \<Rightarrow> (event \<times> event list) option" where
  "next_event es =
     map_option (\<lambda>(as, e, bs). (e, as @ bs))
       (List.extract (\<lambda>e. list_all (\<lambda>e'. ev_priority e \<le> ev_priority e') es) es)"

inductive scd_step :: "scd_env \<Rightarrow> orcm_scd_base \<Rightarrow> orcm_scd_base \<Rightarrow> bool" for env where
  scd_event: "next_event (scd_events s) = Some (e, es) \<Longrightarrow>
    run_cbfunc env (ev_cbfunc e) (ev_session e) (s\<lparr>scd_events := es\<rparr>) = Inr s' \<Longrightarrow> scd_step env s s'"
| rm_event: "next_event (rm_events s) = Some (e, es) \<Longrightarrow>
    run_cbfunc env (ev_cbfunc e) (ev_session e) (s\<lparr>rm_events := es\<rparr>) = Inr s' \<Longrightarrow> scd_step env s s'"
| rm_message: "orcm_scd_base_rm_recv env sender buffer s = Inr s' \<Longrightarrow> scd_step env s s'"
| scd_message: "orcm_scd_base_recv env sender buffer s = Inr s' \<Longrightarrow> scd_step env s s'"

inductive_cases scd_stepE: "scd_step env s s'"

section \<open>Every reachable state is in order\<close>

lemma next_event_Some:
  assumes "next_event es = Some (e, es')"
  obtains as bs where "es = as @ e # bs" "es' = as @ bs"
  using assms by (auto simp: next_event_def extract_Some_iff)

text \<open>Taking the event off leaves the session it hands on in no place at all.\<close>

lemma pop_event:
  assumes "scd_inv s" "events s = as @ e # bs" "events s0 = as @ bs"
    "queues s0 = queues s" "states s0 = states s" "rmstates s0 = rmstates s" "nodes s0 = nodes s" "sessions s0 = sessions s"
  shows "scd_inv s0" "ev_session e < length (sessions s0)" "hands_on (ev_cbfunc e) \<Longrightarrow> ev_session e \<notin> set (places s0)"
proof -
  have same: "queued s0 = queued s" "live_nodes s0 = live_nodes s" "alloc_at s0 = alloc_at s"
    using assms(4-) by (auto simp: queued_def fun_eq_iff alloc_at_def session_at_def intro: live_nodes_cong)
  then have good: "good_event s0 = good_event s" using assms(8) by (auto simp: good_event_def fun_eq_iff)
  have "mset (places s) = mset ((if hands_on (ev_cbfunc e) then [ev_session e] else []) @ places s0)"
    by (simp add: places_def assms(2,3) same)
  moreover have "distinct (places s)" using assms(1) by (simp add: scd_inv_def)
  ultimately have d: "distinct ((if hands_on (ev_cbfunc e) then [ev_session e] else []) @ places s0)"
    by (metis mset_eq_imp_distinct_iff)
  then have "distinct (places s0)" by simp
  then show "scd_inv s0" using assms unfolding scd_inv_def same good by simp
  show "ev_session e < length (sessions s0)" using assms(1,2,8) by (auto simp: scd_inv_def good_event_def)
  assume "hands_on (ev_cbfunc e)"
  then show "ev_session e \<notin> set (places s0)" using d by simp
qed

lemma fresh_session:
  assumes "scd_inv s"
  shows "length (sessions s) \<notin> set (places s)"
proof -
  have "r < length (sessions s)" if "r \<in> set (places s)" for r
    using that assms alloc_at_bound by (auto simp: places_def scd_inv_def good_event_def list_all_iff)
  then show ?thesis by blast
qed

lemma scd_step_inv:
  assumes "scd_step env s s'" "scd_inv s"
  shows "scd_inv s'"
  using assms(1)
proof cases
  case (scd_event e es)
  then obtain as bs where es: "scd_events s = as @ e # bs" "es = as @ bs" by (elim next_event_Some)
  have "events s = as @ e # (bs @ rm_events s)" "events (s\<lparr>scd_events := es\<rparr>) = as @ bs @ rm_events s"
    by (simp_all add: events_def es)
  note pop = pop_event[OF assms(2) this, simplified]
  show ?thesis using handlers.keeps_inv[OF pop(1) _ _ scd_event(2)] pop(2,3) by simp
next
  case (rm_event e es)
  then obtain as bs where es: "rm_events s = as @ e # bs" "es = as @ bs" by (elim next_event_Some)
  have "events s = (scd_events s @ as) @ e # bs" "events (s\<lparr>rm_events := es\<rparr>) = (scd_events s @ as) @ bs"
    by (simp_all add: events_def es)
  note pop = pop_event[OF assms(2) this, simplified]
  show ?thesis using handlers.keeps_inv[OF pop(1) _ _ rm_event(2)] pop(2,3) by simp
next
  case (rm_message sender buffer)
  then have "evolves [] s s'" using assms(2) by (intro evolves_rm_recv) (auto simp: scd_inv_def)
  then show ?thesis using assms(2) by (intro scd_inv_evolves[OF assms(2)]) (auto simp: scd_inv_def)
next
  case (scd_message sender buffer)
  then have "evolves [length (sessions s)] s s'" using assms(2) by (intro evolves_scd_recv) (auto simp: scd_inv_def)
  then show ?thesis using assms(2) fresh_session by (intro scd_inv_evolves[OF assms(2)]) (auto simp: scd_inv_def)
qed

lemma scd_run_inv: "(scd_step env)\<^sup>*\<^sup>* s s' \<Longrightarrow> scd_inv s \<Longrightarrow> scd_inv s'"
  by (induction rule: rtranclp_induct) (auto intro: scd_step_inv)

lemma set_live_nodes:
  assumes "pa_inv (nodes s)"
  shows "set (live_nodes s) = {n. \<exists>j. opal_pointer_array_get_item (nodes s) j = Some n}"
proof -
  have "set (List.map_filter (\<lambda>n. n) xs) = {n. Some n \<in> set xs}" for xs :: "orcm_node option list"
    by (induction xs) (auto simp: map_filter_simps split: option.splits)
  moreover have "Some n \<in> set (slots (nodes s)) \<longleftrightarrow> (\<exists>j. opal_pointer_array_get_item (nodes s) j = Some n)" for n
    using assms by (auto simp: get_item_slots in_set_conv_nth split: if_splits)
  ultimately show ?thesis using assms by (simp add: live_nodes_def node_slots)
qed

lemma add_nodes_inv:
  assumes "add_nodes heap ns s = Inr s'" "pa_inv (nodes s)"
  shows "pa_inv (nodes s') \<and> set (live_nodes s') \<subseteq> set (live_nodes s) \<union> set ns \<and> (\<exists>t. s' = s\<lparr>nodes := t\<rparr>)"
  using assms
proof (induction ns arbitrary: s)
  case (Cons n ns)
  show ?case
  proof (cases "opal_pointer_array_add heap (nodes s) (Some n)")
    case (Inl e)
    then have "add_nodes heap ns s = Inr s'" using Cons.prems(1) by (simp add: undefined_case split: if_splits)
    then show ?thesis using Cons.IH[OF _ Cons.prems(2)] by auto
  next
    case (Inr it)
    then obtain i t where it: "opal_pointer_array_add heap (nodes s) (Some n) = Inr (i, t)" by (cases it) auto
    let ?s1 = "s\<lparr>nodes := t\<rparr>"
    have t: "pa_inv t" "\<And>j. opal_pointer_array_get_item t j = (if int j = i then Some n else opal_pointer_array_get_item (nodes s) j)"
      using add_spec[OF it Cons.prems(2)] by auto
    then have "set (live_nodes ?s1) \<subseteq> insert n (set (live_nodes s))"
      using set_live_nodes[of ?s1] set_live_nodes[OF Cons.prems(2)] by (auto split: if_splits)
    moreover have "add_nodes heap ns ?s1 = Inr s'" using Cons.prems(1) it by simp
    ultimately show ?thesis using Cons.IH[of ?s1] t(1) by fastforce
  qed
next
  case Nil
  then have "s' = s" "s = s\<lparr>nodes := nodes s\<rparr>" by simp_all
  then show ?case using Nil(2) by fastforce
qed

lemma fifo_init_tables:
  assumes "states s = []" "rmstates s = []"
  shows "fifo_init s = Inr (s\<lparr>states := table_of fifo_states, rmstates := table_of rm_states\<rparr>)"
  using assms by (simp add: fifo_init_def scd_base_rm_init_def rm_states_def fifo_states_def table_of_def
      orcm_scd_base_rm_add_session_state_def orcm_scd_base_add_session_state_def add_state_def)

text \<open>The configured queues are new and empty, and none of the three built-in ones goes away.\<close>

lemma insert_queue_set: "set (insert_queue q qs) \<subseteq> insert q (set qs) \<and> set qs \<subseteq> set (insert_queue q qs)"
  by (induction qs) auto

lemma define_queues_set:
  "set qs \<subseteq> set (define_queues ds qs) \<and> (\<forall>q \<in> set (define_queues ds qs) - set qs. q_sessions q = [])"
proof (induction ds qs rule: define_queues.induct)
  case (2 d ds qs)
  show ?case
  proof (cases "\<exists>name pri x. opal_argv_split (Some d) (CHR '':'') = Some [name, pri, x]")
    case True
    then obtain name pri x where split: "opal_argv_split (Some d) (CHR '':'') = Some [name, pri, x]" by blast
    define q where "q = \<lparr>q_name = name, q_priority = c_int32 (fst (c_strtol pri)), q_sessions = []\<rparr>"
    have "define_queues (d # ds) qs = define_queues ds (insert_queue q qs)" using split by (simp add: q_def)
    moreover note 2[OF split refl refl refl refl, folded q_def]
    ultimately show ?thesis using insert_queue_set[of q qs] by (fastforce simp: q_def)
  next
    case False
    then have "define_queues (d # ds) qs = qs"
      by (auto split: option.split list.split)
    then show ?thesis by simp
  qed
qed simp

lemma scd_start_inv:
  assumes "scd_start env defs = Inr s" "list_all (\<lambda>n. hostname n \<noteq> None) (cluster_nodes (orcm_clusters env))"
    "heap_grants (env_dss env) 64"
  shows "scd_inv s"
proof -
  let ?heap = "heap_grants (env_dss env)"
  define s0 where "s0 = orcm_scd_base_open ?heap (orcm_scd_base_register scd_zero)"
  obtain s1 where s1: "add_nodes ?heap (cluster_nodes (orcm_clusters env)) s0 = Inr s1"
    and s: "err_bind (fifo_init s1) (\<lambda>s. Inr (orcm_scd_base_construct_queues defs s)) = Inr s"
    using assms(1) by (auto simp: scd_start_def Let_def err_bind_Inr s0_def[symmetric])
  have "pa_inv (nodes s0)" "live_nodes s0 = []"
    using pa_inv_init[of ?heap opal_pointer_array_construct 8 INT_MAX 8 "nodes s0"] assms(3)
    by (simp_all add: s0_def orcm_scd_base_open_def opal_pointer_array_init_def opal_pointer_array_construct_def
        sz_mul_def to_size_t_def INT_MAX_def live_nodes_def node_slots map_filter_def)
  then obtain t where s1': "pa_inv (nodes s1)" "set (live_nodes s1) \<subseteq> set (cluster_nodes (orcm_clusters env))" "s1 = s0\<lparr>nodes := t\<rparr>"
    using add_nodes_inv[OF s1] by auto
  let ?s2 = "s1\<lparr>states := table_of fifo_states, rmstates := table_of rm_states\<rparr>"
  have s0: "states s1 = []" "rmstates s1 = []" "queues s1 = []" "scd_events s1 = []" "rm_events s1 = []"
    by (simp_all add: s1'(3) s0_def orcm_scd_base_open_def orcm_scd_base_register_def scd_zero_def)
  have s: "s = orcm_scd_base_construct_queues defs ?s2" using s fifo_init_tables[OF s0(1,2)] by simp
  define qs where "qs = [\<lparr>q_name = ''running'', q_priority = 0, q_sessions = []\<rparr>,
      \<lparr>q_name = ''hold'', q_priority = 0, q_sessions = []\<rparr>, \<lparr>q_name = ''default'', q_priority = 0, q_sessions = [] :: session_ref list\<rparr>]"
  have q: "queues s = (case defs of None \<Rightarrow> qs | Some ds \<Rightarrow> define_queues ds qs)"
    unfolding s orcm_scd_base_construct_queues_def by (simp add: s0 qs_def Let_def split: option.split)
  have e: "events s = []" and same: "states s = table_of fifo_states" "rmstates s = table_of rm_states" "nodes s = nodes s1"
    unfolding s by (simp_all add: orcm_scd_base_construct_queues_def events_def s0 Let_def)
  have "set qs \<subseteq> set (queues s)" "\<forall>x \<in> set (queues s) - set qs. q_sessions x = []"
    using define_queues_set[of qs] by (auto simp: q split: option.split)
  moreover have "\<forall>x \<in> set qs. q_sessions x = []" "{''running'', ''hold'', ''default''} \<subseteq> q_name ` set qs" by (auto simp: qs_def)
  ultimately have "queued s = []" "{''running'', ''hold'', ''default''} \<subseteq> q_name ` set (queues s)"
    by (auto simp: queued_def)
  moreover have "list_all (\<lambda>n. hostname n \<noteq> None) (live_nodes s)"
    using assms(2) s1'(2) live_nodes_cong[OF same(3)] by (auto simp: list_all_iff)
  ultimately show ?thesis using s1'(1) e same by (simp add: scd_inv_def places_def)
qed


lemma nodes_eight: "replicate 8 x = [x, x, x, x, x, x, x, x]" "replicate 7 x = [x, x, x, x, x, x, x]"
  by (simp_all add: numeral_eq_Suc)


end
