(* ===== verification/Scd_Run.thy ===== *)
theory Scd_Run
  imports Scheduler
begin

text \<open>
  Runs of the scheduler: how a session gets from its arrival to its launch by the events the
  handlers activate, and what goes wrong when events interleave badly.
\<close>

section \<open>A session runs\<close>

abbreviation sys_event :: "cbfunc \<Rightarrow> session_ref \<Rightarrow> event" where
  "sys_event cb r \<equiv> \<lparr>ev_cbfunc = cb, ev_session = r, ev_priority = ORTE_SYS_PRI\<rparr>"

lemma next_event_first: "list_all (\<lambda>e'. ev_priority e \<le> ev_priority e') es \<Longrightarrow> next_event (e # es) = Some (e, es)"
  by (simp add: next_event_def extract_def)

lemma scd_step_first:
  assumes "scd_events s = sys_event cb r # es" "list_all (\<lambda>e. ev_priority e = ORTE_SYS_PRI) es"
    "run_cbfunc env cb r (s\<lparr>scd_events := es\<rparr>) = Inr s'"
  shows "scd_step env s s'"
proof (rule scd_event)
  show "next_event (scd_events s) = Some (sys_event cb r, es)"
    using assms(1,2) by (simp add: next_event_first list_all_iff)
qed (use assms(3) in simp)

lemma rm_step_first:
  assumes "rm_events s = sys_event cb r # es" "list_all (\<lambda>e. ev_priority e = ORTE_SYS_PRI) es"
    "run_cbfunc env cb r (s\<lparr>rm_events := es\<rparr>) = Inr s'"
  shows "scd_step env s s'"
proof (rule rm_event)
  show "next_event (rm_events s) = Some (sys_event cb r, es)"
    using assms(1,2) by (simp add: next_event_first list_all_iff)
qed (use assms(3) in simp)

text \<open>Taking an event off changes nothing else.\<close>

lemma popped_scd:
  assumes "scd_inv s" "scd_events s = sys_event cb r # es"
  shows "scd_inv (s\<lparr>scd_events := es\<rparr>)" "hands_on cb \<Longrightarrow> r \<notin> set (places (s\<lparr>scd_events := es\<rparr>))"
  using pop_event[OF assms(1), of "[]" "sys_event cb r" "es @ rm_events s" "s\<lparr>scd_events := es\<rparr>"] assms(2)
  by (simp_all add: events_def)

lemma popped_rm:
  assumes "scd_inv s" "rm_events s = sys_event cb r # es"
  shows "scd_inv (s\<lparr>rm_events := es\<rparr>)" "hands_on cb \<Longrightarrow> r \<notin> set (places (s\<lparr>rm_events := es\<rparr>))"
  using pop_event[OF assms(1), of "scd_events s" "sys_event cb r" es "s\<lparr>rm_events := es\<rparr>"] assms(2)
  by (simp_all add: events_def)

lemma popped_frame [simp]:
  "live_nodes (s\<lparr>scd_events := es\<rparr>) = live_nodes s" "live_nodes (s\<lparr>rm_events := es\<rparr>) = live_nodes s"
  "free_nodes (s\<lparr>scd_events := es\<rparr>) = free_nodes s" "free_nodes (s\<lparr>rm_events := es\<rparr>) = free_nodes s"
  "picked (s\<lparr>scd_events := es\<rparr>) k = picked s k" "picked (s\<lparr>rm_events := es\<rparr>) k = picked s k"
  "alloc_at (s\<lparr>scd_events := es\<rparr>) r = alloc_at s r" "alloc_at (s\<lparr>rm_events := es\<rparr>) r = alloc_at s r"
  "queued (s\<lparr>scd_events := es\<rparr>) = queued s" "queued (s\<lparr>rm_events := es\<rparr>) = queued s"
  "one_queue n (s\<lparr>scd_events := es\<rparr>) = one_queue n s" "one_queue n (s\<lparr>rm_events := es\<rparr>) = one_queue n s"
  "default_sessions (s\<lparr>scd_events := es\<rparr>) = default_sessions s" "default_sessions (s\<lparr>rm_events := es\<rparr>) = default_sessions s"
  by (simp_all add: live_nodes_def node_slots_def free_nodes_def picked_def alloc_at_def session_at_def queued_def one_queue_def
      default_sessions_def)


definition running_sessions :: "orcm_scd_base \<Rightarrow> session_ref list" where
  "running_sessions s = (case queue_index ''running'' (queues s) of None \<Rightarrow> [] | Some i \<Rightarrow> q_sessions (queues s ! i))"

lemma running_cong: "queues s = queues t \<Longrightarrow> running_sessions s = running_sessions t"
  by (simp add: running_sessions_def split: option.split)

lemma queue_index_name: "queue_index name qs = Some i \<Longrightarrow> q_name (qs ! i) = name"
  by (induction qs arbitrary: i) (auto split: if_splits)

lemma running_upd:
  assumes "i < length (queues s)"
  shows "running_sessions (upd_queue i f s) =
    (if queue_index ''running'' (queues s) = Some i then f (running_sessions s) else running_sessions s)"
  using assms queue_index_cong[of "queues (upd_queue i f s)" "queues s" "''running''"]
  by (auto simp: running_sessions_def split: option.split) (simp add: upd_queue_def)

lemma running_upd_default:
  assumes "i < length (queues s)" "q_name (queues s ! i) = ''default''"
  shows "running_sessions (upd_queue i f s) = running_sessions s"
  using running_upd[OF assms(1)] queue_index_name[of "''running''" "queues s" i] assms(2) by auto

lemma arrive_step:
  assumes inv: "scd_inv s" and one: "one_queue ''default'' s" and ev: "scd_events s = [sys_event fifo_find_queue_cb r]"
    and al: "alloc_at s r = Some al" "sint (al_min_nodes al) \<le> int (length (live_nodes s))"
  shows "\<exists>s1. scd_step env s s1 \<and> scd_inv s1 \<and> one_queue ''default'' s1 \<and> scd_events s1 = [sys_event fifo_schedule_cb r] \<and>
    rm_events s1 = rm_events s \<and> default_sessions s1 = default_sessions s @ [r] \<and> nodes s1 = nodes s \<and>
    alloc_at s1 r = Some (al\<lparr>al_queues := Some ''default''\<rparr>) \<and> running_sessions s1 = running_sessions s"
proof -
  let ?s = "s\<lparr>scd_events := []\<rparr>"
  note pop = popped_scd[OF inv ev]
  have r: "r \<notin> set (queued ?s)" "r \<notin> set (places ?s)" using pop(2) by (auto simp: hands_on_def places_def)
  obtain i where i: "queue_index ''default'' (queues s) = Some i" "i < length (queues s)"
    "\<And>j. j < length (queues s) \<Longrightarrow> q_name (queues s ! j) = ''default'' \<longleftrightarrow> j = i"
    using one_queue_index[OF one] by metis
  define t where "t = upd_alloc r (al_queues_update (\<lambda>_. Some ''default'')) ?s"
  define s1 where "s1 = orcm_scd_base_activate_session_state r ORCM_SESSION_STATE_SCHEDULE (upd_queue i (\<lambda>rs. rs @ [r]) t)"
  have t: "queues t = queues s" "scd_events t = []" "rm_events t = rm_events s" "nodes t = nodes s" "states t = states s"
    by (simp_all add: t_def)
  have "pa_size (nodes s) - number_free (nodes s) = int (length (live_nodes s))"
    using inv by (intro number_of_nodes) (simp add: scd_inv_def)
  then have run: "fifo_find_queue r ?s = Inr s1"
    using put_on_queue_one[of "''default''" ?s i r] i(1) r(1) al by (simp add: fifo_find_queue_def s1_def t_def)
  then have "run_cbfunc env fifo_find_queue_cb r ?s = Inr s1" by simp
  moreover have "scd_inv s1"
    using scd_inv_evolves[OF pop(1) evolves_find_queue[OF run]] r inv pop(1) by (simp add: scd_inv_def)
  moreover have "one_queue ''default'' s1" using one one_queue_cong[of s1 s] by (simp add: s1_def t)
  moreover have "default_sessions s1 = default_sessions s @ [r]"
    using default_sessions_upd[of i t i] i t(1) by (simp add: s1_def) (simp add: t_def)
  moreover have "running_sessions s1 = running_sessions s"
    using running_upd_default[of i t] i t(1) running_cong[of s1 "upd_queue i (\<lambda>rs. rs @ [r]) t"] running_cong[of t s]
    by (simp add: s1_def)
  moreover have "alloc_at s1 r = Some (al\<lparr>al_queues := Some ''default''\<rparr>)"
    using al(1) alloc_at_cong[of s1 t r] by (simp add: s1_def) (simp add: t_def)
  moreover have "scd_events s1 = [sys_event fifo_schedule_cb r]"
    using inv by (simp add: s1_def t scd_inv_def new_fifo_events)
  ultimately show ?thesis using scd_step_first[OF ev, of env s1] by (intro exI[of _ s1]) (simp add: s1_def t)
qed

lemma pass_step:
  assumes inv: "scd_inv s" and one: "one_queue ''default'' s" and ev: "scd_events s = sys_event fifo_schedule_cb x # es"
    "list_all (\<lambda>e. ev_priority e = ORTE_SYS_PRI) es"
    and q: "default_sessions s = r # rs" and al: "alloc_at s r = Some al" "sint (al_min_nodes al) \<le> int (length (free_nodes s))"
  shows "\<exists>s1. scd_step env s s1 \<and> scd_inv s1 \<and> one_queue ''default'' s1 \<and> scd_events s1 = es \<and>
    rm_events s1 = rm_events s @ [sys_event rm_request_cb r] \<and> default_sessions s1 = rs \<and> nodes s1 = nodes s \<and>
    sessions s1 = sessions s \<and> running_sessions s1 = running_sessions s"
proof -
  let ?s = "s\<lparr>scd_events := es\<rparr>"
  obtain i where i: "i < length (queues s)" "\<And>j. j < length (queues s) \<Longrightarrow> q_name (queues s ! j) = ''default'' \<longleftrightarrow> j = i"
    using one_queue_index[OF one] by metis
  define s1 where "s1 = orcm_scd_base_rm_activate_session_state r ORCM_SESSION_STATE_REQ (upd_queue i tl ?s)"
  have qi: "q_sessions (queues s ! i) = r # rs" using default_sessions_at[OF i] q by simp
  have run: "fifo_schedule ?s = Inr s1" using fifo_schedule_one[of i ?s] i al qi by (simp add: s1_def)
  have "evolves [] ?s s1" using run inv
    by (intro evolves_schedule_queues[of "[0..<length (queues ?s)]"]) (auto simp: fifo_schedule_def scd_inv_def)
  then have "scd_inv s1" using scd_inv_evolves[OF popped_scd(1)[OF inv ev(1)]] popped_scd(1)[OF inv ev(1)]
    by (simp add: scd_inv_def)
  moreover have "one_queue ''default'' s1" using one one_queue_cong[of s1 s] by (simp add: s1_def)
  moreover have "default_sessions s1 = rs"
    using default_sessions_upd[of i ?s i tl] i q by (simp add: s1_def default_sessions_def)
  moreover have "running_sessions s1 = running_sessions s"
    using running_upd_default[of i ?s] i running_cong[of s1 "upd_queue i tl ?s"] running_cong[of ?s s] by (simp add: s1_def)
  moreover have "rm_events s1 = rm_events s @ [sys_event rm_request_cb r]"
    using inv by (simp add: s1_def scd_inv_def new_rm_events del: One_nat_def)
  ultimately show ?thesis using scd_step_first[OF ev, of env s1] run by (intro exI[of _ s1]) (simp add: s1_def)
qed

lemma request_step:
  assumes inv: "scd_inv s" and ev: "rm_events s = sys_event rm_request_cb r # es" "list_all (\<lambda>e. ev_priority e = ORTE_SYS_PRI) es"
    and al: "alloc_at s r = Some al" "k = sint (al_min_nodes al)" "0 < k" "k \<le> int (length (free_nodes s))" "names_ok (picked s k)"
  shows "\<exists>s1 e. scd_step env s s1 \<and> scd_inv s1 \<and> scd_events s1 = scd_events s @ [sys_event fifo_allocated_cb r] \<and>
    rm_events s1 = es \<and> queues s1 = queues s \<and> nodes s1 = nodes s \<and> writes_names e (picked s k) \<and>
    alloc_at s1 r = Some (al\<lparr>al_nodes := Some e\<rparr>) \<and> (\<forall>x. x \<noteq> r \<longrightarrow> alloc_at s1 x = alloc_at s x)"
proof -
  let ?s = "s\<lparr>rm_events := es\<rparr>"
  note pop = popped_rm[OF inv ev(1)]
  obtain e where e: "writes_names e (picked s k)" and run: "scd_base_rm_request r ?s =
      Inr (orcm_scd_base_activate_session_state r ORCM_SESSION_STATE_ALLOCD (upd_alloc r (al_nodes_update (\<lambda>_. Some e)) ?s))"
    (is "_ = Inr ?s1") using request_picks_first[of ?s r al] al scd_inv_named[OF pop(1)] by auto
  have "r < length (sessions ?s)" using al(1) alloc_at_bound[of s r] by simp
  then have "scd_inv ?s1" using handlers.keeps_inv[OF pop(1) _ pop(2), of rm_request_cb env ?s1] run by simp
  moreover have "scd_events ?s1 = scd_events s @ [sys_event fifo_allocated_cb r]"
    using inv by (simp add: scd_inv_def new_fifo_events)
  moreover have "alloc_at ?s1 r = Some (al\<lparr>al_nodes := Some e\<rparr>)" "\<forall>x. x \<noteq> r \<longrightarrow> alloc_at ?s1 x = alloc_at s x"
    using al(1) alloc_at_cong[of ?s1 "upd_alloc r (al_nodes_update (\<lambda>_. Some e)) ?s"] by simp_all
  ultimately show ?thesis using rm_step_first[OF ev, of env ?s1] run e by (intro exI[of _ ?s1] exI[of _ e]) simp
qed


lemma allocated_step:
  assumes inv: "scd_inv s" and ev: "scd_events s = sys_event fifo_allocated_cb r # es" "list_all (\<lambda>e. ev_priority e = ORTE_SYS_PRI) es"
    and al: "alloc_at s r = Some al" "al_nodes al = Some e" "writes_names e ns" "int (length ns) = sint (al_min_nodes al)"
  shows "\<exists>s1. scd_step env s s1 \<and> scd_inv s1 \<and> scd_events s1 = es \<and> rm_events s1 = rm_events s @ [sys_event rm_active_cb r] \<and>
    running_sessions s1 = running_sessions s @ [r] \<and> alloc_at s1 r = Some (al\<lparr>al_queues := Some ''running''\<rparr>) \<and>
    (\<forall>x. x \<noteq> r \<longrightarrow> alloc_at s1 x = alloc_at s x) \<and>
    live_nodes s1 = map (\<lambda>n. if hostname n \<in> Some ` set ns then n\<lparr>scd_state := ORCM_SCD_NODE_STATE_ALLOC\<rparr> else n) (live_nodes s)"
proof -
  let ?s = "s\<lparr>scd_events := es\<rparr>"
  note pop = popped_scd[OF inv ev(1)]
  have r: "r \<notin> set (queued ?s)" using pop(2) by (simp add: hands_on_def places_def)
  obtain i where i: "queue_index ''running'' (queues ?s) = Some i" "i < length (queues ?s)" using running_index[OF pop(1)] .
  let ?t = "upd_queue i (\<lambda>rs. rs @ [r]) (upd_alloc r (al_queues_update (\<lambda>_. Some ''running'')) ?s)"
  obtain names where n: "set names = set ns" and run: "fifo_allocated r ?s = Inr (set_all_named ORCM_SCD_NODE_STATE_ALLOC names
      (orcm_scd_base_rm_activate_session_state r ORCM_SESSION_STATE_ACTIVE ?t))" (is "_ = Inr ?s1")
    using allocated_marks[OF pop(1), of r al e ns i] al r i(1) by auto
  have "r < length (sessions ?s)" using al(1) alloc_at_bound[of s r] by simp
  then have "scd_inv ?s1" using handlers.keeps_inv[OF pop(1) _ pop(2), of fifo_allocated_cb env ?s1] run by simp
  moreover have "rm_events ?s1 = rm_events s @ [sys_event rm_active_cb r]" using inv by (simp add: scd_inv_def new_rm_events)
  moreover have "running_sessions ?s1 = running_sessions s @ [r]"
    using running_upd[of i "upd_alloc r (al_queues_update (\<lambda>_. Some ''running'')) ?s"] i running_cong[of ?s1 ?t]
      running_cong[of "upd_alloc r (al_queues_update (\<lambda>_. Some ''running'')) ?s" s] by simp
  moreover have "alloc_at ?s1 r = Some (al\<lparr>al_queues := Some ''running''\<rparr>)" "\<forall>x. x \<noteq> r \<longrightarrow> alloc_at ?s1 x = alloc_at s x"
    using al(1) alloc_at_cong[of ?s1 "upd_alloc r (al_queues_update (\<lambda>_. Some ''running'')) ?s"] by simp_all
  moreover have "live_nodes ?s1 = map (\<lambda>n. if hostname n \<in> Some ` set ns then n\<lparr>scd_state := ORCM_SCD_NODE_STATE_ALLOC\<rparr> else n) (live_nodes s)"
  proof -
    have "nodes ?s1 = nodes (set_all_named ORCM_SCD_NODE_STATE_ALLOC names s)" by (rule nodes_set_all_named) simp
    from live_nodes_cong[OF this] show ?thesis using inv by (simp add: live_set_all_named scd_inv_def n)
  qed
  ultimately show ?thesis using scd_step_first[OF ev, of env ?s1] run by (intro exI[of _ ?s1]) simp
qed


text \<open>
  C3: A session that fits the free nodes gets to run.  In any environment, if a new session is waiting to be
  queued, nothing else is pending, the default queue is empty and enough nodes are free, then
  the scheduler by its own events reaches a state in which the session is the last of the running
  queue, exactly the first so many free nodes are marked as allocated, and the only pending event is the
  launch of the session.
\<close>

theorem session_runs:
  assumes "scd_inv s" "one_queue ''default'' s" "default_sessions s = []"
    "scd_events s = [sys_event fifo_find_queue_cb r]" "rm_events s = []"
    "alloc_at s r = Some al" "k = sint (al_min_nodes al)" "0 < k" "k \<le> int (length (free_nodes s))" "names_ok (picked s k)"
    "distinct (map hostname (live_nodes s))"
  shows "\<exists>s'. (scd_step env)\<^sup>*\<^sup>* s s' \<and> scd_events s' = [] \<and> rm_events s' = [sys_event rm_active_cb r] \<and>
    running_sessions s' = running_sessions s @ [r] \<and>
    live_nodes s' = map (\<lambda>n. if n \<in> set (take (nat k) (free_nodes s)) then n\<lparr>scd_state := ORCM_SCD_NODE_STATE_ALLOC\<rparr> else n)
                      (live_nodes s)"
proof -
  have "length (free_nodes s) \<le> length (live_nodes s)" by (simp add: free_nodes_def)
  then obtain s1 where s1: "scd_step env s s1" "scd_inv s1" "one_queue ''default'' s1" "scd_events s1 = [sys_event fifo_schedule_cb r]"
    "rm_events s1 = []" "default_sessions s1 = [r]" "nodes s1 = nodes s" "alloc_at s1 r = Some (al\<lparr>al_queues := Some ''default''\<rparr>)"
    "running_sessions s1 = running_sessions s"
    using arrive_step[OF assms(1,2,4,6), of env] assms(3,5,7,9) by auto
  have same: "live_nodes t = live_nodes s" "free_nodes t = free_nodes s" "picked t k = picked s k" if "nodes t = nodes s" for t
    using live_nodes_cong[OF that] by (simp_all add: free_nodes_def picked_def)
  obtain s2 where s2: "scd_step env s1 s2" "scd_inv s2" "scd_events s2 = []" "rm_events s2 = [sys_event rm_request_cb r]"
    "nodes s2 = nodes s" "sessions s2 = sessions s1" "running_sessions s2 = running_sessions s"
    using pass_step[OF s1(2-4), of r "[]" _ env] s1(5-9) same(2)[OF s1(7)] assms(7,9) by auto
  have al2: "alloc_at s2 r = Some (al\<lparr>al_queues := Some ''default''\<rparr>)" using alloc_at_cong[OF s2(6)] s1(8) by simp
  obtain s3 e where s3: "scd_step env s2 s3" "scd_inv s3" "scd_events s3 = [sys_event fifo_allocated_cb r]" "rm_events s3 = []"
    "queues s3 = queues s2" "nodes s3 = nodes s" "writes_names e (picked s k)"
    "alloc_at s3 r = Some (al\<lparr>al_queues := Some ''default'', al_nodes := Some e\<rparr>)"
    using request_step[OF s2(2,4) _ al2, of k env] s2(3,5) same[OF s2(5)] assms(7-10) by auto
  have len: "int (length (picked s k)) = k" using assms(8,9) by (simp add: picked_def)
  obtain s4 where s4: "scd_step env s3 s4" "scd_events s4 = []" "rm_events s4 = [sys_event rm_active_cb r]"
    "running_sessions s4 = running_sessions s3 @ [r]"
    "live_nodes s4 = map (\<lambda>n. if hostname n \<in> Some ` set (picked s k) then n\<lparr>scd_state := ORCM_SCD_NODE_STATE_ALLOC\<rparr> else n) (live_nodes s3)"
    using allocated_step[OF s3(2,3) _ s3(8) _ s3(7), of env] len assms(7) s3(4) by auto
  have "(scd_step env)\<^sup>*\<^sup>* s s4" using s1(1) s2(1) s3(1) s4(1) by (meson r_into_rtranclp rtranclp_trans)
  moreover have "running_sessions s3 = running_sessions s" using running_cong[OF s3(5)] s2(7) by simp
  ultimately show ?thesis using s4 same(1)[OF s3(6)] picked_hosts[OF assms(1,11)] by (auto cong: map_cong)
qed

text \<open>The example with its first session waiting to be queued.\<close>

definition example_new :: "u32 list \<Rightarrow> orcm_scd_base" where
  "example_new wants = (example_scd wants)\<lparr>scd_events := [sys_event fifo_find_queue_cb 0]\<rparr>"

lemma example_new_inv: "scd_inv (example_new (k # wants))"
proof -
  have "events (example_new (k # wants)) = [sys_event fifo_find_queue_cb 0]" by (simp add: example_new_def events_def example_scd_def)
  moreover have "queued (example_new (k # wants)) = []" by (simp add: example_new_def queued_def example_scd_def)
  moreover have "scd_inv (example_scd (k # wants))" by simp
  moreover have "sessions (example_scd (k # wants)) \<noteq> []" by (simp add: example_scd_def)
  ultimately show ?thesis
    by (simp add: scd_inv_def places_def hands_on_def good_event_def) (simp add: example_new_def)
qed

theorem session_runs_witness:
  "\<exists>s'. (scd_step example_scd_env)\<^sup>*\<^sup>* (example_new [2]) s' \<and> running_sessions s' = [0] \<and> map scd_state (live_nodes s') = [3, 3]"
proof -
  have "scd_events (example_new [2]) = [sys_event fifo_find_queue_cb 0]" "rm_events (example_new [2]) = []"
    "running_sessions (example_new [2]) = []"
    by (simp_all add: example_new_def running_sessions_def example_scd_def)
  moreover have "default_sessions (example_new [2]) = []" by (simp add: example_new_def) (simp add: example_scd_def default_sessions_def)
  moreover have "one_queue ''default'' (example_new [2])" "free_nodes (example_new [2]) = example_nodes"
    "live_nodes (example_new [2]) = example_nodes" "picked (example_new [2]) 2 = [''n1'', ''n2'']"
    "alloc_at (example_new [2]) 0 = Some (orcm_alloc_con\<lparr>al_id := 1, al_min_nodes := 2\<rparr>)"
    by (simp_all add: example_new_def)
  ultimately show ?thesis
    using session_runs[of "example_new [2]" 0 _ 2 example_scd_env] example_new_inv
    by (auto simp: example_nodes_def example_node_def)
qed

section \<open>Two sessions on the same nodes\<close>

text \<open>
  C19: Two passes of the scheduler in a row allocate the same nodes twice.  The nodes are marked only
  when the allocation comes back, so if two passes run before that, and each of the first two sessions
  of the default queue fits the free nodes, both get the first free nodes: the scheduler by its
  own events reaches a state in which both are on the running queue about to be launched, with
  expressions that expand to the first so many free nodes each.
\<close>

theorem double_allocation:
  assumes "scd_inv s" "one_queue ''default'' s" "default_sessions s = r1 # r2 # rs" "r1 \<noteq> r2"
    "scd_events s = [sys_event fifo_schedule_cb x, sys_event fifo_schedule_cb y]" "rm_events s = []"
    "alloc_at s r1 = Some al1" "k1 = sint (al_min_nodes al1)" "0 < k1" "k1 \<le> int (length (free_nodes s))" "names_ok (picked s k1)"
    "alloc_at s r2 = Some al2" "k2 = sint (al_min_nodes al2)" "0 < k2" "k2 \<le> int (length (free_nodes s))" "names_ok (picked s k2)"
  shows "\<exists>s' e1 e2. (scd_step env)\<^sup>*\<^sup>* s s' \<and> running_sessions s' = running_sessions s @ [r1, r2] \<and>
    rm_events s' = [sys_event rm_active_cb r1, sys_event rm_active_cb r2] \<and>
    map_option al_nodes (alloc_at s' r1) = Some (Some e1) \<and> writes_names e1 (picked s k1) \<and>
    map_option al_nodes (alloc_at s' r2) = Some (Some e2) \<and> writes_names e2 (picked s k2)"
proof -
  have same: "free_nodes t = free_nodes s" "picked t k = picked s k" if "nodes t = nodes s" for t k
    using live_nodes_cong[OF that] by (simp_all add: free_nodes_def picked_def)
  obtain s1 where s1: "scd_step env s s1" "scd_inv s1" "one_queue ''default'' s1" "scd_events s1 = [sys_event fifo_schedule_cb y]"
    "rm_events s1 = [sys_event rm_request_cb r1]" "default_sessions s1 = r2 # rs" "nodes s1 = nodes s" "sessions s1 = sessions s"
    "running_sessions s1 = running_sessions s"
    using pass_step[OF assms(1,2,5) _ assms(3,7), of env] assms(6,8,10) by auto
  have al2: "alloc_at s1 r2 = Some al2" using alloc_at_cong[OF s1(8)] assms(12) by simp
  obtain s2 where s2: "scd_step env s1 s2" "scd_inv s2" "scd_events s2 = []"
    "rm_events s2 = [sys_event rm_request_cb r1, sys_event rm_request_cb r2]" "nodes s2 = nodes s" "sessions s2 = sessions s"
    "running_sessions s2 = running_sessions s"
    using pass_step[OF s1(2-4) _ s1(6) al2, of env] s1(5,7,8,9) same(1)[OF s1(7)] assms(13,15) by auto
  have a2: "alloc_at s2 x = alloc_at s x" for x using alloc_at_cong[OF s2(6)] .
  obtain s3 e1 where s3: "scd_step env s2 s3" "scd_inv s3" "scd_events s3 = [sys_event fifo_allocated_cb r1]"
    "rm_events s3 = [sys_event rm_request_cb r2]" "queues s3 = queues s2" "nodes s3 = nodes s" "writes_names e1 (picked s k1)"
    "alloc_at s3 r1 = Some (al1\<lparr>al_nodes := Some e1\<rparr>)" "\<forall>x. x \<noteq> r1 \<longrightarrow> alloc_at s3 x = alloc_at s x"
    using request_step[OF s2(2,4), of al1 k1 env] a2 s2(3,5) same[OF s2(5)] assms(7-11) by auto
  obtain s4 e2 where s4: "scd_step env s3 s4" "scd_inv s4"
    "scd_events s4 = [sys_event fifo_allocated_cb r1, sys_event fifo_allocated_cb r2]"
    "rm_events s4 = []" "queues s4 = queues s2" "writes_names e2 (picked s k2)"
    "alloc_at s4 r2 = Some (al2\<lparr>al_nodes := Some e2\<rparr>)" "alloc_at s4 r1 = Some (al1\<lparr>al_nodes := Some e1\<rparr>)"
    using request_step[OF s3(2,4), of al2 k2 env] s3(3,5,6,8,9) same[OF s3(6)] assms(4,12-16) by auto
  have len: "int (length (picked s k1)) = k1" "int (length (picked s k2)) = k2" using assms by (simp_all add: picked_def)
  obtain s5 where s5: "scd_step env s4 s5" "scd_inv s5" "scd_events s5 = [sys_event fifo_allocated_cb r2]"
    "rm_events s5 = [sys_event rm_active_cb r1]" "running_sessions s5 = running_sessions s4 @ [r1]"
    "alloc_at s5 r1 = Some (al1\<lparr>al_nodes := Some e1, al_queues := Some ''running''\<rparr>)" "alloc_at s5 r2 = Some (al2\<lparr>al_nodes := Some e2\<rparr>)"
    using allocated_step[OF s4(2,3) _ s4(8) _ s3(7), of env] len(1) s4(4,7) assms(4,8) by auto
  obtain s6 where s6: "scd_step env s5 s6" "rm_events s6 = [sys_event rm_active_cb r1, sys_event rm_active_cb r2]"
    "running_sessions s6 = running_sessions s5 @ [r2]" "alloc_at s6 r2 = Some (al2\<lparr>al_nodes := Some e2, al_queues := Some ''running''\<rparr>)"
    "alloc_at s6 r1 = Some (al1\<lparr>al_nodes := Some e1, al_queues := Some ''running''\<rparr>)"
    using allocated_step[OF s5(2,3) _ s5(7) _ s4(6), of env] len(2) s5(4,6) assms(4,13) by auto
  have "(scd_step env)\<^sup>*\<^sup>* s s6" using s1(1) s2(1) s3(1) s4(1) s5(1) s6(1) by (meson r_into_rtranclp rtranclp_trans)
  moreover have "running_sessions s6 = running_sessions s @ [r1, r2]" using s6(3) s5(5) running_cong[OF s4(5)] s2(7) by simp
  ultimately show ?thesis using s6 s3(7) s4(6) by (intro exI[of _ s6] exI[of _ e1] exI[of _ e2]) simp
qed

text \<open>Two sessions that want both nodes each have queued up, and their passes are pending.\<close>

definition example_queued :: orcm_scd_base where
  "example_queued = (example_scd [2, 2])\<lparr>
     queues := [\<lparr>q_name = ''running'', q_priority = 0, q_sessions = []\<rparr>, \<lparr>q_name = ''hold'', q_priority = 0, q_sessions = []\<rparr>,
                \<lparr>q_name = ''default'', q_priority = 0, q_sessions = [0, 1]\<rparr>],
     scd_events := [sys_event fifo_schedule_cb 0, sys_event fifo_schedule_cb 1]\<rparr>"

lemma example_queued_same [simp]:
  "live_nodes example_queued = example_nodes" "free_nodes example_queued = example_nodes"
  "alloc_at example_queued r = alloc_at (example_scd [2, 2]) r"
proof -
  show live: "live_nodes example_queued = example_nodes"
    using live_nodes_cong[of example_queued "example_scd [2, 2]"] by (simp add: example_queued_def)
  show "free_nodes example_queued = example_nodes"
    unfolding free_nodes_def live by (simp add: example_nodes_def example_node_def free_node_def)
  show "alloc_at example_queued r = alloc_at (example_scd [2, 2]) r" by (rule alloc_at_cong) (simp add: example_queued_def)
qed

lemma example_queued_inv: "scd_inv example_queued"
proof -
  have q: "queued example_queued = [0, 1]" "events example_queued = [sys_event fifo_schedule_cb 0, sys_event fifo_schedule_cb 1]"
    by (simp_all add: example_queued_def queued_def events_def example_scd_def)
  have "scd_inv (example_scd [2, 2])" by simp
  then have "states example_queued = table_of fifo_states" "rmstates example_queued = table_of rm_states"
    "pa_inv (nodes example_queued)" by (simp_all add: scd_inv_def example_queued_def)
  moreover have "length (sessions example_queued) = 2" by (simp add: example_queued_def example_scd_def)
  moreover have "{''running'', ''hold'', ''default''} \<subseteq> q_name ` set (queues example_queued)" by (simp add: example_queued_def)
  ultimately show ?thesis
    by (simp add: scd_inv_def places_def hands_on_def reads_alloc_def good_event_def q example_nodes_def example_node_def)
qed

theorem double_allocation_witness:
  "\<exists>s' e1 e2. (scd_step example_scd_env)\<^sup>*\<^sup>* example_queued s' \<and> running_sessions s' = [0, 1] \<and>
     map_option al_nodes (alloc_at s' 0) = Some (Some e1) \<and> writes_names e1 [''n1'', ''n2''] \<and>
     map_option al_nodes (alloc_at s' 1) = Some (Some e2) \<and> writes_names e2 [''n1'', ''n2'']"
proof -
  have p: "picked example_queued 2 = [''n1'', ''n2'']" by (simp add: picked_def example_nodes_def example_node_def)
  have q: "one_queue ''default'' example_queued" "default_sessions example_queued = [0, 1]" "running_sessions example_queued = []"
    "scd_events example_queued = [sys_event fifo_schedule_cb 0, sys_event fifo_schedule_cb 1]" "rm_events example_queued = []"
    by (simp_all add: example_queued_def one_queue_def default_sessions_def running_sessions_def example_scd_def)
  have a: "alloc_at example_queued 0 = Some (orcm_alloc_con\<lparr>al_id := 1, al_min_nodes := 2\<rparr>)"
    "alloc_at example_queued 1 = Some (orcm_alloc_con\<lparr>al_id := 2, al_min_nodes := 2\<rparr>)" by simp_all
  have f: "length (free_nodes example_queued) = 2" by (simp add: example_nodes_def)
  have "\<exists>s' e1 e2. (scd_step example_scd_env)\<^sup>*\<^sup>* example_queued s' \<and>
      running_sessions s' = running_sessions example_queued @ [0, 1] \<and>
      rm_events s' = [sys_event rm_active_cb 0, sys_event rm_active_cb 1] \<and>
      map_option al_nodes (alloc_at s' 0) = Some (Some e1) \<and> writes_names e1 (picked example_queued 2) \<and>
      map_option al_nodes (alloc_at s' 1) = Some (Some e2) \<and> writes_names e2 (picked example_queued 2)"
    by (rule double_allocation[OF example_queued_inv q(1,2) _ q(4,5) a(1) _ _ _ _ a(2)])
      (simp_all only: p f example_picked, simp_all)
  then show ?thesis unfolding p q by auto
qed

end
