(* ===== verification/Scd_Wire.thy ===== *)
theory Scd_Wire
  imports Scd_Recv
begin

text \<open>
  The messages of the scheduler as its peers read them: what is packed into an answer or a
  command can be unpacked again, and packing succeeds where memory does.
\<close>

section \<open>Messages\<close>

lemma wire_message:
  assumes "orcm_dss_types (env_dss env) ty = Some info"
    "transfers (env_dss env) True t (odti_pack_fn info d 1) (odti_unpack_fn info 1) d'" "get d' = dss_return x"
  shows "transfers (env_dss env) False t (pack1 env ty d) (unpack1 env ty get) x"
proof -
  have "transfers (env_dss env) True t (opal_dss_pack_buffer (orcm_dss_types (env_dss env)) d 1 ty)
      (opal_dss_unpack_buffer (orcm_dss_types (env_dss env)) 1 ty) d'"
    using assms(1,2) by (intro transfers_buffer_as) simp_all
  then have "transfers (env_dss env) False t (pack1 env ty d) (opal_dss_unpack (orcm_dss_types (env_dss env)) 1 ty) (1, d')"
    unfolding pack1_def by (intro transfers_message) simp_all
  then show ?thesis unfolding unpack1_def by (rule transfers_map) (simp only: prod.case assms(3))
qed

lemma wire_scalar:
  assumes "dss_ok (env_dss env) ty d" "dss_length d = 1" "ty < ORTE_ATTRIBUTE" "get d = dss_return x"
  shows "transfers (env_dss env) False t (pack1 env ty d) (unpack1 env ty get) x"
proof -
  obtain info where "opal_dss_types (env_dss env) ty = Some info"
    "transfers (env_dss env) True t (odti_pack_fn info d 1) (odti_unpack_fn info 1) d"
    using dss_types_carry[OF assms(1), of t] assms(2) by (auto simp: table_carries_def)
  then show ?thesis using assms(3,4) by (intro wire_message[where info = info and d' = d]) (simp_all only: cfgi_intrinsic)
qed

lemma wire_alloc:
  assumes "alloc_ok (env_dss env) al"
  shows "transfers (env_dss env) False t (pack1 env ORCM_ALLOC (DAlloc [al])) (unpack1 env ORCM_ALLOC getalloc) (sent_alloc al)"
proof (rule wire_message)
  show "orcm_dss_types (env_dss env) ORCM_ALLOC = Some \<lparr>odti_pack_fn = orcm_pack_alloc (orte_dss_types (env_dss env)),
      odti_unpack_fn = orcm_unpack_alloc (env_dss env) (orte_dss_types (env_dss env))\<rparr>"
    by (simp add: cfgi_tables)
  show "transfers (env_dss env) True t (odti_pack_fn \<lparr>odti_pack_fn = orcm_pack_alloc (orte_dss_types (env_dss env)),
      odti_unpack_fn = orcm_unpack_alloc (env_dss env) (orte_dss_types (env_dss env))\<rparr> (DAlloc [al]) 1)
      (odti_unpack_fn \<lparr>odti_pack_fn = orcm_pack_alloc (orte_dss_types (env_dss env)),
      odti_unpack_fn = orcm_unpack_alloc (env_dss env) (orte_dss_types (env_dss env))\<rparr> 1) (DAlloc [sent_alloc al])"
    using allocs_carried[of "[al]" "env_dss env" t] assms by simp
qed (simp add: getalloc_def)


section \<open>Room\<close>

text \<open>Packing that needs at most so many bytes.\<close>

definition packs_upto :: "dss_env \<Rightarrow> bool \<Rightarrow> buffer_type \<Rightarrow> unit dss \<Rightarrow> nat \<Rightarrow> bool" where
  "packs_upto env nn t p n \<longleftrightarrow> (\<exists>bs. packs env nn t p bs \<and> length bs \<le> n)"

named_theorems upto_rules

lemma upto_bind [upto_rules]:
  "packs_upto env nn t p m \<Longrightarrow> packs_upto env True t (q ()) n \<Longrightarrow> packs_upto env nn t (dss_bind p q) (m + n)"
  unfolding packs_upto_def by (fastforce dest: packs_bind)

lemma upto_more: "packs_upto env nn t p m \<Longrightarrow> m \<le> n \<Longrightarrow> packs_upto env nn t p n"
  by (auto simp: packs_upto_def)

lemma upto_weaken: "packs_upto env False t p n \<Longrightarrow> packs_upto env nn t p n"
  by (auto simp: packs_upto_def intro: packs_weaken)

lemma upto_return: "packs_upto env True t (dss_return ()) 0"
  by (auto simp: packs_upto_def intro: packs_return)

lemma upto_seq: "\<forall>p \<in> set ps. packs_upto env True t p n \<Longrightarrow> packs_upto env True t (dss_seq ps) (length ps * n)"
  by (induction ps) (auto intro: upto_return upto_bind)

lemma upto_one:
  "packs_upto env nn t (opal_dss_pack_byte env (D8 [x]) 1) 8"
  "packs_upto env nn t (opal_dss_pack_int32 env (D32 [y]) 1) 8"
  "packs_upto env nn t (opal_dss_pack_int64 env (D64 [z]) 1) 8"
  using packs_one(1)[of env nn t x] packs_one(2)[of env nn t y] packs_one(3)[of env nn t z]
  by (fastforce simp: packs_upto_def simp del: be_bytes.simps)+

lemma upto_tag: "tbl_ok env tbl \<Longrightarrow> packs_upto env nn t (opal_dss_store_data_type tbl ty) 8"
  using packs_tag[of env tbl nn t ty] by (fastforce simp: packs_upto_def)

lemma upto_if_tag:
  assumes "tbl_ok env tbl"
  shows "packs_upto env True t (if_described (opal_dss_store_data_type tbl ty)) 8"
    "packs_upto env True t (if_undescribed (opal_dss_store_data_type tbl ty)) 8"
proof -
  have "if_described m b = (if t = OPAL_DSS_BUFFER_FULLY_DESC then m b else dss_return () b)"
    "if_undescribed m b = (if t \<noteq> OPAL_DSS_BUFFER_FULLY_DESC then m b else dss_return () b)" if "buf_type b = t" for m b
    using that by (simp_all add: if_described_def if_undescribed_def dss_return_def)
  then have c: "packs env True t (if_described m) bs =
        packs env True t (if t = OPAL_DSS_BUFFER_FULLY_DESC then m else dss_return ()) bs"
      "packs env True t (if_undescribed m) bs =
        packs env True t (if t \<noteq> OPAL_DSS_BUFFER_FULLY_DESC then m else dss_return ()) bs" for m bs
    by (intro packs_cong; simp)+
  have "packs_upto env True t (dss_return ()) 8" using upto_return by (rule upto_more) simp
  then show "packs_upto env True t (if_described (opal_dss_store_data_type tbl ty)) 8"
    "packs_upto env True t (if_undescribed (opal_dss_store_data_type tbl ty)) 8"
    using upto_tag[OF assms, of True t ty] unfolding packs_upto_def c by (auto split: if_split)
qed

lemma upto_buffer:
  assumes "tbl_ok env tbl" "tbl ty = Some info" "packs_upto env True t (odti_pack_fn info d n) m"
  shows "packs_upto env True t (opal_dss_pack_buffer tbl d n ty) (8 + m)"
  unfolding opal_dss_pack_buffer_def using assms by (intro upto_bind upto_if_tag) simp_all

lemma upto_string: "wf_string so \<Longrightarrow> packs_upto env nn t (pack_one_string env so) (2 ^ 31 + 8)"
  using packs_one_string[of so env nn t] by (fastforce simp: packs_upto_def string_enc_def wf_string_def string_bytes_def split: option.splits simp del: be_bytes.simps)


lemma upto_generic:
  assumes "tbl_ok env tbl" "tbl rep = Some info" "packs_upto env True t (odti_pack_fn info d n) m"
  shows "packs_upto env True t (pack_generic tbl rep d n) (16 + m)"
proof -
  have "packs_upto env True t (pack_generic tbl rep d n) (8 + (8 + m))"
    unfolding pack_generic_def using assms by (intro upto_bind upto_if_tag upto_buffer) simp_all
  then show ?thesis by (rule upto_more) simp
qed

lemma upto_alloc:
  assumes "n < 2 ^ 63" "packs_upto env nn t p m"
  shows "packs_upto env nn t (if \<not> c_alloc_ok env n then dss_fail e else p) m"
proof (cases "c_alloc_ok env n")
  case False
  then have "\<not> env_ok env" using env_ok_alloc assms(1) by blast
  then have "packs env nn t (dss_fail e) []" by (simp add: packs_def roomy_def dss_fail_def)
  then show ?thesis using False by (auto simp: packs_upto_def)
qed (use assms in simp)

text \<open>One value of a type that the scheduler's messages use.\<close>

definition plain_data :: "dss_env \<Rightarrow> opal_data_type \<Rightarrow> dss_data \<Rightarrow> bool" where
  "plain_data env ty d =
     (case d of
        D8 [x] \<Rightarrow> ty \<in> {OPAL_INT8, OPAL_UINT8, OPAL_BOOL}
      | D32 [x] \<Rightarrow> ty \<in> {OPAL_INT32, OPAL_UINT32, OPAL_INT} \<or> ty = OPAL_FLOAT \<and> float_ok env x
      | D64 [x] \<Rightarrow> ty \<in> {OPAL_INT64, OPAL_TIME}
      | DString [x] \<Rightarrow> ty = OPAL_STRING \<and> wf_string x
      | DName [x] \<Rightarrow> ty = OPAL_NAME
      | _ \<Rightarrow> False)"

lemma upto_plain:
  assumes "plain_data env ty d"
  shows "\<exists>info. opal_dss_types env ty = Some info \<and> packs_upto env True t (odti_pack_fn info d 1) (2 ^ 32)"
proof -
  have g: "packs_upto env True t (pack_generic (intrinsic_types env) OPAL_UINT8 (D8 [x]) 1) (2 ^ 32)"
    "packs_upto env True t (pack_generic (intrinsic_types env) OPAL_INT32 (D32 [y]) 1) (2 ^ 32)" for x y
    using upto_one[of env True t]
    by (auto intro!: upto_more[OF upto_generic[where m = 8]] simp: intrinsic_types_def)
  have o: "packs_upto env True t (opal_dss_pack_byte env (D8 [x]) 1) (2 ^ 32)"
    "packs_upto env True t (opal_dss_pack_int32 env (D32 [y]) 1) (2 ^ 32)"
    "packs_upto env True t (opal_dss_pack_int64 env (D64 [z]) 1) (2 ^ 32)" for x y z
    by (auto intro!: upto_more[OF upto_one(1)] upto_more[OF upto_one(2)] upto_more[OF upto_one(3)])
  have st: "packs_upto env True t (opal_dss_pack_string env (DString [so]) 1) (2 ^ 31 + 8)" if "wf_string so" for so
    using upto_seq[of "[pack_one_string env so]"] upto_string[OF that] by (simp add: opal_dss_pack_string_def pack_each_def)
  have fl: "packs_upto env True t (opal_dss_pack_float env (D32 [x]) 1) (2 ^ 32)" if "float_ok env x" for x
    using upto_more[OF upto_seq[of "[opal_dss_pack_string env (DString [Some (fmt_float env x)]) 1]" env t "2 ^ 31 + 8"]] st that
    by (simp add: opal_dss_pack_float_def pack_each_def float_ok_def)
  have nm: "packs_upto env True t (opal_dss_pack_name env (intrinsic_types env) (DName [x]) 1) (2 ^ 32)" for x
  proof -
    have "packs_upto env True t (dss_bind (opal_dss_pack_jobid (intrinsic_types env) (D32 [jobid x]) 1)
        (\<lambda>_. opal_dss_pack_vpid (intrinsic_types env) (D32 [vpid x]) 1)) ((8 + 8) + (8 + 8))"
      unfolding opal_dss_pack_jobid_def opal_dss_pack_vpid_def
      by (intro upto_bind upto_buffer[where m = 8 and
            info = "\<lparr>odti_pack_fn = opal_dss_pack_int32 env, odti_unpack_fn = opal_dss_unpack_int32\<rparr>"])
        (simp_all add: intrinsic_types_def upto_one)
    then have "packs_upto env True t (opal_dss_pack_name env (intrinsic_types env) (DName [x]) 1) ((8 + 8) + (8 + 8))"
      using upto_alloc[of 4 env True t] by (simp add: opal_dss_pack_name_def sz_mul_def to_size_t_def)
    then show ?thesis by (rule upto_more) simp
  qed
  consider x where "d = D8 [x]" | x where "d = D32 [x]" | x where "d = D64 [x]" | x where "d = DString [x]" | x where "d = DName [x]"
    using assms by (auto simp: plain_data_def split: dss_data.splits list.splits)
  then show ?thesis
    using assms g o upto_more[OF st] fl nm
    by cases (auto simp: plain_data_def table_defs opal_dss_pack_time_def pack_each_def
        intro!: upto_more[OF upto_seq[where n = 8]] upto_one)
qed


lemma upto_described:
  assumes "tbl_ok env tbl" "packs_upto env True t (q ()) m" "t = OPAL_DSS_BUFFER_NON_DESC \<Longrightarrow> packs_upto env nn t (q ()) m"
  shows "packs_upto env nn t (dss_bind (if_described (opal_dss_store_data_type tbl ty)) q) (8 + m)"
proof (cases t)
  case OPAL_DSS_BUFFER_NON_DESC
  then have "packs env nn t (dss_bind (if_described (opal_dss_store_data_type tbl ty)) q) bs = packs env nn t (q ()) bs" for bs
    by (intro packs_cong) (simp add: if_described_def dss_bind_def)
  moreover have "packs_upto env nn t (q ()) (8 + m)" using assms(3)[OF OPAL_DSS_BUFFER_NON_DESC] by (rule upto_more) simp
  ultimately show ?thesis by (simp add: packs_upto_def)
next
  case OPAL_DSS_BUFFER_FULLY_DESC
  then have "packs env nn t (dss_bind (if_described (opal_dss_store_data_type tbl ty)) q) bs =
      packs env nn t (dss_bind (opal_dss_store_data_type tbl ty) q) bs" for bs
    by (intro packs_cong) (simp add: if_described_full)
  then show ?thesis using upto_bind[where q = q, OF upto_tag[OF assms(1)] assms(2)] by (simp add: packs_upto_def)
qed

lemma upto_message:
  assumes "packs_upto (env_dss env) True t (opal_dss_pack_buffer (orcm_dss_types (env_dss env)) d 1 ty) m"
  shows "packs_upto (env_dss env) False t (pack1 env ty d) (16 + m)"
proof -
  have "packs_upto (env_dss env) nn t (dss_bind (opal_dss_pack_int32 (env_dss env) (D32 [word_of_int 1]) 1) (\<lambda>_.
      opal_dss_pack_buffer (orcm_dss_types (env_dss env)) d 1 ty)) (8 + m)" for nn
    using assms by (intro upto_bind upto_one) simp_all
  then have "packs_upto (env_dss env) False t (pack1 env ty d) (8 + (8 + m))"
    unfolding pack1_def opal_dss_pack_def by (intro upto_described) simp_all
  then show ?thesis by (rule upto_more) simp
qed

lemma upto_plain_message:
  assumes "plain_data (env_dss env) ty d"
  shows "packs_upto (env_dss env) nn t (pack1 env ty d) (2 ^ 33)"
proof -
  obtain info where "opal_dss_types (env_dss env) ty = Some info"
    "packs_upto (env_dss env) True t (odti_pack_fn info d 1) (2 ^ 32)" using upto_plain[OF assms] by blast
  moreover have "ty < ORTE_ATTRIBUTE" using assms by (auto simp: plain_data_def split: dss_data.splits list.splits)
  ultimately have "packs_upto (env_dss env) True t (opal_dss_pack_buffer (orcm_dss_types (env_dss env)) d 1 ty) (8 + 2 ^ 32)"
    by (intro upto_buffer) (simp_all add: cfgi_intrinsic)
  from upto_weaken[OF upto_message[OF this], of nn] show ?thesis by (rule upto_more) simp
qed

lemma upto_alloc_message:
  assumes "alloc_ok (env_dss env) al" "al_constraints al = []"
  shows "packs_upto (env_dss env) nn t (pack1 env ORCM_ALLOC (DAlloc [al])) (2 ^ 40)"
proof -
  let ?e = "env_dss env" and ?tbl = "orte_dss_types (env_dss env)"
  have f: "packs_upto ?e True t (opal_dss_pack_buffer ?tbl d 1 ty) (2 ^ 33)" if pd: "plain_data ?e ty d" for ty d
  proof -
    obtain info where "opal_dss_types ?e ty = Some info" "packs_upto ?e True t (odti_pack_fn info d 1) (2 ^ 32)"
      using upto_plain[OF pd] by blast
    moreover have ne: "ty \<noteq> ORTE_ATTRIBUTE" using pd by (auto simp: plain_data_def split: dss_data.splits list.splits)
    ultimately have "packs_upto ?e True t (opal_dss_pack_buffer ?tbl d 1 ty) (8 + 2 ^ 32)"
      by (intro upto_buffer[where info = info]) (simp_all add: orte_dss_types_def ne)
    then show ?thesis by (rule upto_more) simp
  qed
  have "\<forall>p \<in> set (pack_alloc_fields ?tbl al). packs_upto ?e True t p (2 ^ 33)"
    unfolding pack_alloc_fields_def list_all_iff[symmetric] list.pred_inject simp_thms
    using assms(1) by (intro conjI f) (simp_all add: plain_data_def alloc_ok_def)
  then have "packs_upto ?e True t (dss_seq (pack_alloc_fields ?tbl al)) (length (pack_alloc_fields ?tbl al) * 2 ^ 33)" by (rule upto_seq)
  then have "packs_upto ?e True t (pack_one_alloc ?tbl al) (26 * 2 ^ 33 + (2 ^ 33 + 0))"
    unfolding pack_one_alloc_def Let_def using assms(2)
    by (intro upto_bind f) (auto simp: plain_data_def pack_alloc_fields_def upto_return)
  then have "packs_upto ?e True t (orcm_pack_alloc ?tbl (DAlloc [al]) 1) (1 * (27 * 2 ^ 33))"
    using upto_seq[of "[pack_one_alloc ?tbl al]"] by (simp add: orcm_pack_alloc_def pack_each_def)
  then have "packs_upto ?e True t (opal_dss_pack_buffer (orcm_dss_types ?e) (DAlloc [al]) 1 ORCM_ALLOC) (8 + 27 * 2 ^ 33)"
    by (intro upto_buffer[where info = "\<lparr>odti_pack_fn = orcm_pack_alloc ?tbl, odti_unpack_fn = orcm_unpack_alloc ?e ?tbl\<rparr>"])
      (simp_all add: cfgi_tables)
  from upto_weaken[OF upto_message[OF this], of nn] show ?thesis by (rule upto_more) simp
qed

section \<open>Sending and receiving\<close>

lemma sent:
  assumes "packs_upto env False (default_buf_type env) p n" "n < 2 ^ 62" "env_ok env"
  shows "\<exists>b. p (opal_buffer_construct env) = (Inr (), b)"
proof -
  obtain bs where bs: "packs env False (default_buf_type env) p bs" "length bs \<le> n" using assms(1) by (auto simp: packs_upto_def)
  have "roomy env (opal_buffer_construct env) (length bs)" using bs(2) assms(2,3) by (simp add: roomy_def opal_buffer_construct_def)
  from packs_total[OF bs(1) buf_inv_construct _ _ this] show ?thesis by auto
qed

lemma received:
  assumes "transfers env False (default_buf_type env) p u x" "env_ok env" "p (opal_buffer_construct env) = (Inr (), b)"
  shows "\<exists>b'. u b = (Inr x, b')"
proof -
  obtain bs where bs: "packs env False (default_buf_type env) p bs" "reads env (default_buf_type env) u x bs"
    using assms(1) by (auto simp: transfers_def)
  have "appended (opal_buffer_construct env) b bs" using packsD(1)[OF bs(1) buf_inv_construct _ _ assms(3)] by simp
  then have "unread b = bs @ []" "buf_inv b" "buf_type b = default_buf_type env"
    by (simp_all add: appended_def unread_def opal_buffer_construct_def contents_def)
  then show ?thesis using bs(2) assms(2) by (auto simp: reads_def)
qed

section \<open>Commands\<close>

text \<open>What a daemon reads: the command and the allocation.\<close>

definition commands :: "scd_env \<Rightarrow> u8 \<Rightarrow> orcm_alloc \<Rightarrow> opal_buffer \<Rightarrow> bool" where
  "commands env command al buffer \<longleftrightarrow>
     (\<exists>b b'. unpack1 env ORCM_RM_CMD_T get8 buffer = (Inr command, b) \<and>
        unpack1 env ORCM_ALLOC getalloc b = (Inr al, b'))"

lemma unpack_pair:
  "dss_bind u (\<lambda>x. dss_bind v (\<lambda>y. dss_return (x, y))) b = (Inr (x, y), b'') \<longleftrightarrow> (\<exists>b'. u b = (Inr x, b') \<and> v b' = (Inr y, b''))"
  by (auto simp: dss_bind_def dss_return_def split: prod.splits sum.splits)

lemma wire_command:
  assumes "alloc_ok (env_dss env) al"
  shows "transfers (env_dss env) False t
     (dss_bind (pack1 env ORCM_RM_CMD_T (D8 [c])) (\<lambda>_. pack1 env ORCM_ALLOC (DAlloc [al])))
     (dss_bind (unpack1 env ORCM_RM_CMD_T get8) (\<lambda>x. dss_bind (unpack1 env ORCM_ALLOC getalloc) (\<lambda>y. dss_return (x, y)))) (c, sent_alloc al)"
proof -
  have "transfers (env_dss env) False t (pack1 env ORCM_RM_CMD_T (D8 [c])) (unpack1 env ORCM_RM_CMD_T get8) c"
    by (rule wire_scalar) (simp_all add: dss_ok_def get8_def)
  moreover have "transfers (env_dss env) True t (pack1 env ORCM_ALLOC (DAlloc [al]))
      (dss_bind (unpack1 env ORCM_ALLOC getalloc) (\<lambda>y. dss_return (c, y))) (c, sent_alloc al)"
    by (rule transfers_map[OF transfers_weaken[OF wire_alloc[OF assms]]]) simp
  ultimately show ?thesis by (rule transfers_bind)
qed

lemma command_buffer_pack:
  "command_buffer env c al =
     (case dss_bind (pack1 env ORCM_RM_CMD_T (D8 [c])) (\<lambda>_. pack1 env ORCM_ALLOC (DAlloc [al])) (opal_buffer_construct (env_dss env)) of
        (Inl e, _) \<Rightarrow> Inl e | (Inr _, buf) \<Rightarrow> Inr buf)"
  by (simp add: command_buffer_def pack1_def Let_def)

lemma command_buffer_read:
  assumes "env_ok (env_dss env)" "alloc_ok (env_dss env) al" "command_buffer env c al = Inr buf"
  shows "commands env c (sent_alloc al) buf"
  using received[OF wire_command[OF assms(2)] assms(1)] assms(3)
  by (fastforce simp: command_buffer_pack commands_def unpack_pair split: prod.splits sum.splits)

lemma command_buffer_plain:
  assumes "env_ok (env_dss env)" "alloc_ok (env_dss env) al" "al_constraints al = []"
  shows "\<exists>buf. command_buffer env c al = Inr buf"
proof -
  have "packs_upto (env_dss env) False t (dss_bind (pack1 env ORCM_RM_CMD_T (D8 [c])) (\<lambda>_. pack1 env ORCM_ALLOC (DAlloc [al])))
      (2 ^ 33 + 2 ^ 40)" for t
    by (intro upto_bind upto_plain_message upto_alloc_message assms) (simp add: plain_data_def)
  from sent[OF this _ assms(1)] show ?thesis by (auto simp: command_buffer_pack)
qed

end
