(* ===== verification/Scd_Outcome.thy ===== *)
theory Scd_Outcome
  imports Scd_Run Scd_Wire
begin

text \<open>
  Further outcomes of the handlers: failing requests, the completion of sessions as the nodes
  report it, session ids, power budgets and the order of the queues.
\<close>

section \<open>Requests that fail\<close>

text \<open>
  C20: A request for more nodes than are free goes through without nodes.  The resource manager
  reports the allocation all the same, with the list of nodes still null, and the
  handler of the allocated state then compares a null string.
\<close>

theorem request_too_few:
  assumes "scd_inv s" "alloc_at s r = Some al" "int (length (free_nodes s)) < sint (al_min_nodes al)" "al_nodes al = None"
  shows "scd_base_rm_request r s = Inr (orcm_scd_base_activate_session_state r ORCM_SESSION_STATE_ALLOCD s) \<and>
    fifo_allocated r (orcm_scd_base_activate_session_state r ORCM_SESSION_STATE_ALLOCD s) = Inl C_UNDEFINED"
proof
  let ?k = "sint (al_min_nodes al)"
  have k: "0 < ?k" using assms(3) by linarith
  have "pick_nodes (live_nodes s) ?k None = Inr (name_list (picked s ?k), ?k - min ?k (int (length (free_nodes s))))"
    by (rule rm_request_cases[OF scd_inv_named[OF assms(1)] assms(2) k])
  then show "scd_base_rm_request r s = Inr (orcm_scd_base_activate_session_state r ORCM_SESSION_STATE_ALLOCD s)"
    using assms(2,3) k by (simp add: scd_base_rm_request_def)
  have "alloc_at (orcm_scd_base_activate_session_state r ORCM_SESSION_STATE_ALLOCD s) r = Some al"
    using assms(2) alloc_at_cong[of "orcm_scd_base_activate_session_state r ORCM_SESSION_STATE_ALLOCD s" s] by simp
  then show "fifo_allocated r (orcm_scd_base_activate_session_state r ORCM_SESSION_STATE_ALLOCD s) = Inl C_UNDEFINED"
    using assms(4) by (auto simp: fifo_allocated_def opal_list_append_session_def split: option.split)
qed

theorem request_too_few_witness:
  "fifo_allocated 0 (orcm_scd_base_activate_session_state 0 ORCM_SESSION_STATE_ALLOCD (example_scd [3])) = Inl C_UNDEFINED"
  using request_too_few[of "example_scd [3]" 0] by (simp add: example_nodes_def orcm_alloc_con_def)

lemma default_index:
  assumes "scd_inv s"
  obtains i where "queue_index ''default'' (queues s) = Some i" "i < length (queues s)"
  using assms queue_index_None[of "''default''" "queues s"] queue_index_bound[of "''default''" "queues s"]
  by (auto simp: scd_inv_def)



section \<open>Completion\<close>

definition rm_receive :: "scd_env \<Rightarrow> opal_process_name \<times> opal_buffer \<Rightarrow> orcm_scd_base \<Rightarrow> opal_err + orcm_scd_base" where
  "rm_receive env m s = orcm_scd_base_rm_recv env (fst m) (snd m) s"

lemma rm_receive_completes: "commands env ORCM_STEPD_COMPLETE_COMMAND al (snd m) \<Longrightarrow> rm_receive env m s = check_in env al [] (tracking s) s"
  by (auto simp: commands_def rm_receive_def orcm_scd_base_rm_recv_def rm_recv_complete_def unpacked_def)

lemma check_in_skip:
  "list_all (\<lambda>trk. trk_alloc_id trk \<noteq> sint (al_id al)) pre \<Longrightarrow> check_in env al done (pre @ trks) s = check_in env al (done @ pre) trks s"
  by (induction pre arbitrary: "done") auto

text \<open>One more node has checked in.\<close>

lemma check_in_counts:
  assumes "tracking s = pre @ \<lparr>trk_alloc_id = sint (al_id al), trk_count_checked_in = int n\<rparr> # post"
    "list_all (\<lambda>trk. trk_alloc_id trk \<noteq> sint (al_id al)) pre" "int n < sint (al_min_nodes al)"
  shows "check_in env al [] (tracking s) s =
    (if int (Suc n) = sint (al_min_nodes al)
     then let (r, s) = new_session \<lparr>ses_id = ucast (al_id al), ses_uid = uninit_uid env, ses_alloc = Some al\<rparr> s
          in Inr ((orcm_scd_base_activate_session_state r ORCM_SESSION_STATE_TERMINATED s)\<lparr>tracking := pre @ post\<rparr>)
     else Inr (s\<lparr>tracking := pre @ \<lparr>trk_alloc_id = sint (al_id al), trk_count_checked_in = int (Suc n)\<rparr> # post\<rparr>))"
proof -
  have "sint (al_min_nodes al) \<le> INT_MAX" using sint_lt[of "al_min_nodes al"] by (simp add: INT_MAX_def)
  then show ?thesis using assms by (auto simp: check_in_skip Let_def add.commute split: prod.split)
qed

lemma completions_counted:
  assumes "tracking s = pre @ \<lparr>trk_alloc_id = sint (al_id al), trk_count_checked_in = int n\<rparr> # post"
    "list_all (\<lambda>trk. trk_alloc_id trk \<noteq> sint (al_id al)) pre" "list_all (\<lambda>m. commands env ORCM_STEPD_COMPLETE_COMMAND al (snd m)) ms"
    "int n + int (length ms) < sint (al_min_nodes al)"
  shows "run_ops (rm_receive env) ms s =
    Inr (s\<lparr>tracking := pre @ \<lparr>trk_alloc_id = sint (al_id al), trk_count_checked_in = int n + int (length ms)\<rparr> # post\<rparr>)"
  using assms
proof (induction ms arbitrary: s n)
  case Nil
  then have "s\<lparr>tracking := tracking s\<rparr> = s" by simp
  then show ?case using Nil by simp
next
  case (Cons m ms)
  let ?s = "s\<lparr>tracking := pre @ \<lparr>trk_alloc_id = sint (al_id al), trk_count_checked_in = int (Suc n)\<rparr> # post\<rparr>"
  have "rm_receive env m s = Inr ?s"
    using check_in_counts[OF Cons.prems(1,2)] rm_receive_completes[of env al m s] Cons.prems(3,4) by simp
  moreover have "run_ops (rm_receive env) ms ?s =
      Inr (?s\<lparr>tracking := pre @ \<lparr>trk_alloc_id = sint (al_id al), trk_count_checked_in = int (Suc n) + int (length ms)\<rparr> # post\<rparr>)"
    using Cons.prems by (intro Cons.IH) simp_all
  ultimately show ?case by (simp add: err_bind_simps)
qed

lemma run_ops_append: "run_ops run (xs @ ys) s = err_bind (run_ops run xs s) (run_ops run ys)"
  by (induction xs arbitrary: s) (auto simp: err_bind_def split: sum.split)

end
