(* ===== verification/Scd_Launch.thy ===== *)
theory Scd_Launch
  imports Scd_Outcome
begin

text \<open>
  The messages to the step daemons: a session that becomes active launches one daemon on each of
  its nodes, and a session that is cancelled stops each of them.
\<close>

section \<open>One node after the other\<close>

lemma notify_others:
  "list_all (\<lambda>n. hostname n \<noteq> None) ns \<Longrightarrow> Some name \<notin> hostname ` set ns \<Longrightarrow> notify_named env c h name r ns s = (None, s)"
  by (induction ns) auto

definition command_to :: "opal_buffer \<Rightarrow> orcm_node \<Rightarrow> Scd_Base.message" where
  "command_to buf n = \<lparr>msg_peer = daemon n, msg_tag = ORCM_RML_TAG_RM, msg_buffer = buf\<rparr>"

lemma notify_one:
  assumes "n \<in> set ns" "hostname n = Some name" "list_all (\<lambda>n. hostname n \<noteq> None) ns" "distinct (map hostname ns)"
    "t = (if h then upd_alloc r (al_hnp_update (\<lambda>_. daemon n)) s else s)" "alloc_at t r = Some al"
    "command_buffer env c al = Inr buf" "\<And>p. send_buffer_nb env p buf ORCM_RML_TAG_RM = None"
  shows "notify_named env c h name r ns s = (None, t\<lparr>outbox := outbox t @ [command_to buf n]\<rparr>)"
  using assms(1-4)
proof (induction ns)
  case (Cons m ns)
  show ?case
  proof (cases "m = n")
    case True
    then have "Some name \<notin> hostname ` set ns" using Cons.prems by auto
    then have "notify_named env c h name r ns u = (None, u)" for u using Cons.prems(3) by (intro notify_others) simp_all
    then show ?thesis using True Cons.prems(2) assms(5-) by (auto simp: send_command_def command_to_def)
  next
    case False
    then have "hostname m \<noteq> Some name" using Cons.prems by force
    then show ?thesis using Cons False by simp
  qed
qed simp

lemma notify_rest:
  assumes "list_all (\<lambda>n. hostname n \<noteq> None) (live_nodes s)" "distinct (map hostname (live_nodes s))"
    "set ns \<subseteq> set (live_nodes s)" "map hostname ns = map Some (drop i names)" "launch \<Longrightarrow> 0 < i"
    "alloc_at s r = Some al" "command_buffer env c al = Inr buf" "\<And>p. send_buffer_nb env p buf ORCM_RML_TAG_RM = None"
  shows "notify_nodes env c launch names i (length ns) r s = (None, s\<lparr>outbox := outbox s @ map (command_to buf) ns\<rparr>)"
  using assms(1-6)
proof (induction ns arbitrary: i s)
  case (Cons n ns)
  let ?s = "s\<lparr>outbox := outbox s @ [command_to buf n]\<rparr>"
  have il: "i < length names" using Cons.prems(4) by (cases "i < length names") simp_all
  have i: "hostname n = Some (names ! i)" "map hostname ns = map Some (drop (Suc i) names)"
    using Cons.prems(4) Cons_nth_drop_Suc[OF il, symmetric] by simp_all
  have l: "live_nodes ?s = live_nodes s" by (rule live_nodes_cong) simp
  have "notify_named env c (launch \<and> i = 0) (names ! i) r (live_nodes s) s = (None, ?s)"
    using Cons.prems i by (subst notify_one[of n _ _ s _ r s al env c buf]) (auto simp: assms(7,8))
  moreover have "notify_nodes env c launch names (Suc i) (length ns) r ?s = (None, ?s\<lparr>outbox := outbox ?s @ map (command_to buf) ns\<rparr>)"
    using Cons.prems i l alloc_at_cong[of ?s s] by (intro Cons.IH) auto
  ultimately show ?case using il by simp
qed simp


section \<open>All nodes of a session\<close>

text \<open>The names of an expression, and the nodes that have them in the order of the names.\<close>

definition nodes_named :: "orcm_scd_base \<Rightarrow> string list \<Rightarrow> orcm_node list \<Rightarrow> bool" where
  "nodes_named s names ns \<longleftrightarrow> set ns \<subseteq> set (live_nodes s) \<and> map hostname ns = map Some names"

lemma active_launches:
  assumes "scd_inv s" "distinct (map hostname (live_nodes s))" "alloc_at s r = Some al" "id_at s r = Some sid"
    "orte_regex_extract_node_names (al_nodes al) None = (None, Some (nm # names))" "nodes_named s (nm # names) (n # ns)"
    "sint (al_min_nodes al) = int (length (n # ns))"
    "al' = al\<lparr>al_hnpname := Some nm, al_hnp := daemon n\<rparr>"
    "command_buffer env ORCM_LAUNCH_STEPD_COMMAND al' = Inr buf"
    "\<And>p. send_buffer_nb env p buf ORCM_RML_TAG_RM = None"
  shows "\<exists>s'. scd_base_rm_active env r s = Inr s' \<and> outbox s' = outbox s @ map (command_to buf) (n # ns) \<and>
     tracking s' = tracking s @ [\<lparr>trk_alloc_id = sint sid, trk_count_checked_in = 0\<rparr>] \<and> alloc_at s' r = Some al' \<and>
     (\<forall>x. x \<noteq> r \<longrightarrow> session_at s' x = session_at s x) \<and> queues s' = queues s \<and> nodes s' = nodes s"
proof -
  let ?s1 = "upd_alloc r (al_hnpname_update (\<lambda>_. Some nm)) s"
  let ?s2 = "?s1\<lparr>tracking := tracking ?s1 @ [\<lparr>trk_alloc_id = sint sid, trk_count_checked_in = 0\<rparr>]\<rparr>"
  let ?s3 = "upd_alloc r (al_hnp_update (\<lambda>_. daemon n)) ?s2"
  let ?s4 = "?s3\<lparr>outbox := outbox ?s3 @ [command_to buf n]\<rparr>"
  have live: "live_nodes ?s2 = live_nodes s" "live_nodes ?s4 = live_nodes s" by (auto intro: live_nodes_cong)
  have al: "alloc_at ?s2 r = Some (al\<lparr>al_hnpname := Some nm\<rparr>)" "alloc_at ?s3 r = Some al'" "alloc_at ?s4 r = Some al'"
    using assms(3,8) alloc_at_cong[of ?s2 ?s1] alloc_at_cong[of ?s4 ?s3] by simp_all
  have k: "nat (sint (al_min_nodes al)) = Suc (length ns)" using assms(7) by simp
  have n: "n \<in> set (live_nodes s)" "hostname n = Some nm" "set ns \<subseteq> set (live_nodes s)" "map hostname ns = map Some names"
    using assms(6) by (auto simp: nodes_named_def)
  note named = scd_inv_named[OF assms(1)]
  have first: "notify_named env ORCM_LAUNCH_STEPD_COMMAND True nm r (live_nodes ?s2) ?s2 = (None, ?s4)"
    unfolding live(1) by (rule notify_one[OF n(1,2) named assms(2) _ al(2) assms(9,10)]) simp
  have "notify_nodes env ORCM_LAUNCH_STEPD_COMMAND True (nm # names) (Suc 0) (length ns) r ?s4 =
      (None, ?s4\<lparr>outbox := outbox ?s4 @ map (command_to buf) ns\<rparr>)"
    using n named assms(2) live(2) by (intro notify_rest[where al = al'] al(3) assms(9,10)) simp_all
  then have "notify_nodes env ORCM_LAUNCH_STEPD_COMMAND True (nm # names) 0 (nat (sint (al_min_nodes al))) r ?s2 =
      (None, ?s4\<lparr>outbox := outbox ?s4 @ map (command_to buf) ns\<rparr>)"
    unfolding k using first by simp
  then have "scd_base_rm_active env r s = Inr (?s4\<lparr>outbox := outbox ?s4 @ map (command_to buf) ns\<rparr>)"
    using assms(3-5) unfolding scd_base_rm_active_def by (simp add: Let_def after_return_def)
  moreover have "\<forall>x. x \<noteq> r \<longrightarrow> session_at ?s3 x = session_at s x" by (simp add: session_at_def upd_alloc_def)
  ultimately show ?thesis using al(2) alloc_at_cong[of "?s4\<lparr>outbox := outbox ?s4 @ map (command_to buf) ns\<rparr>" ?s3] 
    by (auto simp: session_at_def)
qed

text \<open>
  C9: An activated session is launched on its nodes.  If the expression of the allocation names
  nodes of the table, the handler of the active state appends to what is sent exactly one message
  per node, in the order of the names and to the daemon of the node; each reads back as the
  launch command with the allocation, in which the first node has become the head node; and the
  session is tracked with no node having checked in.
\<close>

theorem launch_messages:
  assumes "env_ok (env_dss env)" "scd_inv s" "distinct (map hostname (live_nodes s))" "alloc_at s r = Some al" "id_at s r = Some sid"
    "orte_regex_extract_node_names (al_nodes al) None = (None, Some names)" "nodes_named s names (n # ns)"
    "sint (al_min_nodes al) = int (length (n # ns))"
    "al' = al\<lparr>al_hnpname := hostname n, al_hnp := daemon n\<rparr>" "alloc_ok (env_dss env) al'"
    "command_buffer env ORCM_LAUNCH_STEPD_COMMAND al' = Inr buf" "\<forall>p. send_buffer_nb env p buf ORCM_RML_TAG_RM = None"
  shows "\<exists>s'. scd_base_rm_active env r s = Inr s' \<and>
     outbox s' = outbox s @ map (\<lambda>m. \<lparr>msg_peer = daemon m, msg_tag = ORCM_RML_TAG_RM, msg_buffer = buf\<rparr>) (n # ns) \<and>
     commands env ORCM_LAUNCH_STEPD_COMMAND (sent_alloc al') buf \<and>
     tracking s' = tracking s @ [\<lparr>trk_alloc_id = sint sid, trk_count_checked_in = 0\<rparr>] \<and> alloc_at s' r = Some al'"
proof -
  obtain nm nms where nm: "names = nm # nms" "hostname n = Some nm" using assms(7) by (auto simp: nodes_named_def map_eq_Cons_conv)
  have "\<exists>s'. scd_base_rm_active env r s = Inr s' \<and> outbox s' = outbox s @ map (command_to buf) (n # ns) \<and>
     tracking s' = tracking s @ [\<lparr>trk_alloc_id = sint sid, trk_count_checked_in = 0\<rparr>] \<and> alloc_at s' r = Some al' \<and>
     (\<forall>x. x \<noteq> r \<longrightarrow> session_at s' x = session_at s x) \<and> queues s' = queues s \<and> nodes s' = nodes s"
    using assms(12) by (intro active_launches[OF assms(2-5) assms(6)[unfolded nm(1)] assms(7)[unfolded nm(1)] assms(8) assms(9)[unfolded nm(2)] assms(11)]) simp
  moreover have "command_to buf = (\<lambda>m. \<lparr>msg_peer = daemon m, msg_tag = ORCM_RML_TAG_RM, msg_buffer = buf\<rparr>)" by (simp add: fun_eq_iff command_to_def)
  ultimately show ?thesis using command_buffer_read[OF assms(1,10,11)] by auto
qed

theorem launch_messages_witness:
  "\<exists>buf s'. scd_base_rm_active example_scd_env 0 example_chosen = Inr s' \<and>
     outbox s' = [\<lparr>msg_peer = \<lparr>jobid = 0, vpid = 4\<rparr>, msg_tag = ORCM_RML_TAG_RM, msg_buffer = buf\<rparr>,
                  \<lparr>msg_peer = \<lparr>jobid = 0, vpid = 5\<rparr>, msg_tag = ORCM_RML_TAG_RM, msg_buffer = buf\<rparr>] \<and>
     tracking s' = [\<lparr>trk_alloc_id = 1, trk_count_checked_in = 0\<rparr>]"
proof -
  let ?al = "orcm_alloc_con\<lparr>al_id := 1, al_min_nodes := 2, al_nodes := Some ''n[1:1-2]''\<rparr>"
  let ?al' = "?al\<lparr>al_hnpname := hostname (example_nodes ! 0), al_hnp := daemon (example_nodes ! 0)\<rparr>"
  have ok: "env_ok (env_dss example_scd_env)" "alloc_ok (env_dss example_scd_env) ?al'" "al_constraints ?al' = []"
    by (simp_all add: example_scd_env_def example_nodes_def example_node_def alloc_ok_def orcm_alloc_con_def wf_string_def)
  obtain buf where buf: "command_buffer example_scd_env ORCM_LAUNCH_STEPD_COMMAND ?al' = Inr buf" using command_buffer_plain[OF ok] by blast
  have named: "nodes_named example_chosen [''n1'', ''n2''] (example_nodes ! 0 # [example_nodes ! 1])" "distinct (map hostname (live_nodes example_chosen))"
    by (simp_all add: nodes_named_def example_chosen_inv example_nodes_def example_node_def)
  have st: "id_at example_chosen 0 = Some 1" "outbox example_chosen = []" "tracking example_chosen = []" "al_nodes ?al = Some ''n[1:1-2]''"
    by (simp_all add: id_at_def session_at_def example_chosen_def upd_alloc_def example_scd_def example_session_def)
  have dm: "daemon (example_nodes ! 0) = \<lparr>jobid = 0, vpid = 4\<rparr>" "daemon (example_nodes ! 1) = \<lparr>jobid = 0, vpid = 5\<rparr>"
    by (simp_all add: example_nodes_def example_node_def)
  have "\<forall>p. send_buffer_nb example_scd_env p buf ORCM_RML_TAG_RM = None" by (simp add: example_scd_env_def)
  from launch_messages[OF ok(1) example_chosen_inv(1) named(2) example_chosen_inv(4) st(1) _ named(1) _ refl ok(2) buf this]
  show ?thesis unfolding st(2-) dm using example_expression by (auto simp: dm dm(2)[simplified])
qed

section \<open>Completion\<close>

text \<open>
  C8: A session ends when all its nodes have reported, and not before.  While the scheduler tracks
  an allocation none of whose nodes has checked in, each completion message for it only counts up
  its tracker; the message that completes the wanted number of nodes drops the tracker and
  activates the terminated state for a session made from the allocation in the message.
\<close>

theorem completion_counted:
  assumes "tracking s = pre @ \<lparr>trk_alloc_id = sint (al_id al), trk_count_checked_in = 0\<rparr> # post"
    "list_all (\<lambda>trk. trk_alloc_id trk \<noteq> sint (al_id al)) pre"
    "list_all (\<lambda>m. commands env ORCM_STEPD_COMPLETE_COMMAND al (snd m)) ms" "0 < length ms" "sint (al_min_nodes al) = int (length ms)"
  shows "(\<forall>j < length ms. run_ops (rm_receive env) (take j ms) s =
            Inr (s\<lparr>tracking := pre @ \<lparr>trk_alloc_id = sint (al_id al), trk_count_checked_in = int j\<rparr> # post\<rparr>)) \<and>
    run_ops (rm_receive env) ms s =
      (let (r, s') = new_session \<lparr>ses_id = ucast (al_id al), ses_uid = uninit_uid env, ses_alloc = Some al\<rparr> s
       in Inr ((orcm_scd_base_activate_session_state r ORCM_SESSION_STATE_TERMINATED s')\<lparr>tracking := pre @ post\<rparr>))"
proof -
  have count: "run_ops (rm_receive env) (take j ms) s =
      Inr (s\<lparr>tracking := pre @ \<lparr>trk_alloc_id = sint (al_id al), trk_count_checked_in = int j\<rparr> # post\<rparr>)" if "j < length ms" for j
    using completions_counted[of s pre al 0 post env "take j ms"] assms that by (auto simp: list_all_iff dest: in_set_takeD)
  obtain m ms' where ms: "ms = ms' @ [m]" using assms(4) by (cases ms rule: rev_cases) auto
  let ?s = "s\<lparr>tracking := pre @ \<lparr>trk_alloc_id = sint (al_id al), trk_count_checked_in = int (length ms')\<rparr> # post\<rparr>"
  have "rm_receive env m ?s =
      (let (r, s') = new_session \<lparr>ses_id = ucast (al_id al), ses_uid = uninit_uid env, ses_alloc = Some al\<rparr> s
       in Inr ((orcm_scd_base_activate_session_state r ORCM_SESSION_STATE_TERMINATED s')\<lparr>tracking := pre @ post\<rparr>))"
    using rm_receive_completes[of env al m ?s] check_in_counts[of ?s pre al "length ms'" post env] assms ms
    by (simp add: new_session_def orcm_scd_base_activate_session_state_def)
  moreover have "run_ops (rm_receive env) ms' s = Inr ?s" using count[of "length ms'"] ms by simp
  ultimately show ?thesis using count by (auto simp: ms run_ops_append err_bind_simps new_session_def)
qed


text \<open>A completion message for an allocation of two nodes.\<close>

definition example_done :: "u64 \<Rightarrow> orcm_alloc" where
  "example_done i = orcm_alloc_con\<lparr>al_id := i, al_min_nodes := 2\<rparr>"

lemma example_completes: "\<exists>buf. commands example_scd_env ORCM_STEPD_COMPLETE_COMMAND (example_done i) buf"
proof -
  let ?al = "example_done i"
  have ok: "env_ok (env_dss example_scd_env)" "alloc_ok (env_dss example_scd_env) ?al" "al_constraints ?al = []" "sent_alloc ?al = ?al"
    by (simp_all add: example_scd_env_def example_done_def alloc_ok_def orcm_alloc_con_def wf_string_def sent_alloc_def)
  then show ?thesis using command_buffer_plain[OF ok(1-3)] command_buffer_read[OF ok(1,2)] by metis
qed

theorem completion_counted_witness:
  "\<exists>buf s'. run_ops (rm_receive example_scd_env) [(\<lparr>jobid = 0, vpid = 4\<rparr>, buf), (\<lparr>jobid = 0, vpid = 5\<rparr>, buf)]
       ((example_scd [2])\<lparr>tracking := [\<lparr>trk_alloc_id = 1, trk_count_checked_in = 0\<rparr>]\<rparr>) = Inr s' \<and>
     tracking s' = [] \<and> scd_events s' = [sys_event fifo_terminated_cb 1]"
proof -
  obtain buf where buf: "commands example_scd_env ORCM_STEPD_COMPLETE_COMMAND (example_done 1) buf"
    using example_completes[of 1] by blast
  have id: "sint (al_id (example_done 1)) = 1" "sint (al_min_nodes (example_done 1)) = 2" by (simp_all add: example_done_def)
  let ?s = "(example_scd [2])\<lparr>tracking := [\<lparr>trk_alloc_id = 1, trk_count_checked_in = 0\<rparr>]\<rparr>"
  have "run_ops (rm_receive example_scd_env) [(\<lparr>jobid = 0, vpid = 4\<rparr>, buf), (\<lparr>jobid = 0, vpid = 5\<rparr>, buf)] ?s =
      (let (r, s') = new_session \<lparr>ses_id = ucast (al_id (example_done 1)), ses_uid = uninit_uid example_scd_env, ses_alloc = Some (example_done 1)\<rparr> ?s
       in Inr ((orcm_scd_base_activate_session_state r ORCM_SESSION_STATE_TERMINATED s')\<lparr>tracking := [] @ []\<rparr>))"
    by (rule conjunct2[OF completion_counted]) (simp_all add: buf id)
  then show ?thesis
    by (intro exI[of _ buf]) (simp add: new_session_def orcm_scd_base_activate_session_state_def example_scd_def new_fifo_events)
qed

section \<open>Session ids\<close>

lemma sint_ucast_id: "sint w = sint (ucast w :: u64) \<longleftrightarrow> unat w < 2 ^ 31" for w :: u32
proof -
  define n where "n = unat w"
  have u: "uint w = int n" "n < 2 ^ 32" using unsigned_less[of w, where ?'a = nat] by (simp_all add: n_def)
  have "signed_take_bit 63 (int n) = int n" using u(2) by (simp add: signed_take_bit_int_eq_self_iff)
  moreover have "take_bit 64 (int n) = int n" using u(2) by (simp add: take_bit_int_eq_self_iff)
  ultimately have 1: "sint (ucast w :: u64) = int n" by (simp add: sint_uint unsigned_ucast_eq u(1))
  have "signed_take_bit 31 (int n) = int n \<longleftrightarrow> n < 2 ^ 31" by (simp add: signed_take_bit_int_eq_self_iff)
  then have 2: "sint w = int n \<longleftrightarrow> n < 2 ^ 31" by (simp add: sint_uint u(1))
  show ?thesis using 1 2 by (simp add: n_def)
qed


text \<open>
  C22: The tracker compares a signed 32 bit copy of the session id with the 64 bit id of the
  allocation, so the completion messages of a session are counted exactly if its id is below
  \<^verbatim>\<open>2 ^ 31\<close>.  From there on every message is ignored, and the session never ends.
\<close>

theorem completion_id_bound:
  assumes "tracking s = [\<lparr>trk_alloc_id = sint (sid :: u32), trk_count_checked_in = 0\<rparr>]" "al_id al = ucast sid"
    "commands env ORCM_STEPD_COMPLETE_COMMAND al buf" "0 < sint (al_min_nodes al)"
  shows "orcm_scd_base_rm_recv env sender buf s = Inr s \<longleftrightarrow> 2 ^ 31 \<le> unat sid"
proof -
  have "orcm_scd_base_rm_recv env sender buf s = check_in env al [] (tracking s) s"
    using rm_receive_completes[of env al "(sender, buf)" s] assms(3) by (simp add: rm_receive_def)
  moreover have "sint sid = sint (ucast sid :: u64) \<longleftrightarrow> unat sid < 2 ^ 31" by (rule sint_ucast_id)
  moreover have "check_in env al [] (tracking s) s \<noteq> Inr s" if "sint sid = sint (al_id al)"
    using check_in_counts[of s "[]" al 0 "[]" env] that assms(1,4) by (auto simp: new_session_def dest: arg_cong[where f = tracking])
  moreover have "check_in env al [] (tracking s) s = Inr s" if "sint sid \<noteq> sint (al_id al)" using assms(1) that by simp
  ultimately show ?thesis using assms(2) by (metis linorder_not_less)
qed

theorem completion_id_bound_witness:
  "\<exists>buf. orcm_scd_base_rm_recv example_scd_env \<lparr>jobid = 0, vpid = 4\<rparr> buf
       ((example_scd [2])\<lparr>tracking := [\<lparr>trk_alloc_id = sint (0x80000000 :: u32), trk_count_checked_in = 0\<rparr>]\<rparr>) =
     Inr ((example_scd [2])\<lparr>tracking := [\<lparr>trk_alloc_id = sint (0x80000000 :: u32), trk_count_checked_in = 0\<rparr>]\<rparr>)"
proof -
  obtain buf where buf: "commands example_scd_env ORCM_STEPD_COMPLETE_COMMAND (example_done 0x80000000) buf" using example_completes by blast
  have "al_id (example_done 0x80000000) = ucast (0x80000000 :: u32)" "0 < sint (al_min_nodes (example_done 0x80000000))"
    by (simp_all add: example_done_def)
  from completion_id_bound[OF _ this(1) buf this(2)] show ?thesis by (intro exI[of _ buf]) simp
qed

end
