(* ===== verification/Dss_Typing.thy ===== *)
theory Dss_Typing
  imports Dss
begin

text \<open>
  What unpacking hands back whatever bytes arrive: data of the type that was asked for, never
  more than the caller has room for, and a buffer in order, also when it fails.
\<close>

section \<open>Results of a computation\<close>

definition gives :: "('a \<Rightarrow> bool) \<Rightarrow> 'a dss \<Rightarrow> bool" where
  "gives P u \<longleftrightarrow> (\<forall>b r b'. buf_inv b \<longrightarrow> u b = (r, b') \<longrightarrow> buf_inv b' \<and> contents b' = contents b \<and> (\<forall>x. r = Inr x \<longrightarrow> P x))"

named_theorems gives_rules

lemma gives_mono: "gives P u \<Longrightarrow> (\<And>x. P x \<Longrightarrow> Q x) \<Longrightarrow> gives Q u"
  unfolding gives_def by blast

lemma gives_return [gives_rules]: "P x \<Longrightarrow> gives P (dss_return x)"
  by (simp add: gives_def dss_return_def)

lemma gives_fail [gives_rules]: "gives P (dss_fail e)"
  by (simp add: gives_def dss_fail_def)

lemma gives_bind:
  assumes "gives P u" "\<And>x. P x \<Longrightarrow> gives Q (f x)"
  shows "gives Q (dss_bind u f)"
  unfolding gives_def
proof (intro allI impI)
  fix b r b' assume b: "buf_inv b" "dss_bind u f b = (r, b')"
  obtain r1 b1 where 1: "u b = (r1, b1)" by fastforce
  then have i: "buf_inv b1" "contents b1 = contents b" "\<And>x. r1 = Inr x \<Longrightarrow> P x" using assms(1) b(1) unfolding gives_def by blast+
  show "buf_inv b' \<and> contents b' = contents b \<and> (\<forall>x. r = Inr x \<longrightarrow> Q x)"
  proof (cases r1)
    case (Inl e)
    then show ?thesis using b(2) 1 i by (auto simp: dss_bind_def)
  next
    case (Inr x)
    then have "f x b1 = (r, b')" using b(2) 1 by (simp add: dss_bind_def)
    then show ?thesis using assms(2)[OF i(3)[OF Inr]] i(1,2) unfolding gives_def by metis
  qed
qed

lemmas gives_any = gives_bind[where P = "\<lambda>_. True"]

lemma gives_repeat [gives_rules]: "gives (\<lambda>_. True) u \<Longrightarrow> gives (\<lambda>xs. length xs = n) (dss_repeat n u)"
proof (induction n)
  case (Suc n)
  then show ?case by (auto intro!: gives_any[of u] gives_bind[of "\<lambda>xs. length xs = n"] gives_return)
qed (simp add: gives_return)

lemma gives_read [gives_rules]: "gives (\<lambda>bs. length bs = n \<and> n < 2 ^ 63) (dss_read n)"
  unfolding gives_def dss_read_def
  by (auto simp: buf_inv_def opal_dss_too_small_def contents_def)

lemma gives_guard [gives_rules]: "gives P u \<Longrightarrow> gives P (dss_guard n u)"
  by (simp add: gives_def dss_guard_def)

lemma gives_described [gives_rules]: "gives (\<lambda>_. True) u \<Longrightarrow> gives (\<lambda>_. True) (if_described u)"
  by (simp add: gives_def if_described_def)

lemma gives_if: "(c \<Longrightarrow> gives P u) \<Longrightarrow> (\<not> c \<Longrightarrow> gives P v) \<Longrightarrow> gives P (if c then u else v)" by simp

section \<open>The types\<close>

text \<open>The array a type is unpacked into.\<close>

definition dss_typed :: "opal_data_type \<Rightarrow> dss_data \<Rightarrow> bool" where
  "dss_typed ty d =
     (case d of
        D8 _ \<Rightarrow> ty \<in> {OPAL_NULL, OPAL_BYTE, OPAL_INT8, OPAL_UINT8, OPAL_BOOL, OPAL_DATA_TYPE}
      | D16 _ \<Rightarrow> ty \<in> {OPAL_INT16, OPAL_UINT16}
      | D32 _ \<Rightarrow> ty \<in> {OPAL_INT32, OPAL_UINT32, OPAL_INT, OPAL_UINT, OPAL_PID, OPAL_JOBID, OPAL_VPID, OPAL_FLOAT}
      | D64 _ \<Rightarrow> ty \<in> {OPAL_INT64, OPAL_UINT64, OPAL_SIZE, OPAL_TIME, OPAL_DOUBLE}
      | DString _ \<Rightarrow> ty = OPAL_STRING
      | DTimeval _ \<Rightarrow> ty = OPAL_TIMEVAL
      | DByteObj _ \<Rightarrow> ty = OPAL_BYTE_OBJECT
      | DName _ \<Rightarrow> ty = OPAL_NAME
      | _ \<Rightarrow> False)"

abbreviation typed_array :: "opal_data_type \<Rightarrow> int \<Rightarrow> dss_data \<Rightarrow> bool" where
  "typed_array ty n d \<equiv> dss_typed ty d \<and> dss_length d = nat n"

lemma chunks_length [simp]: "length (chunks k n xs) = k"
  by (induction k n xs rule: chunks.induct) auto

lemma size_of_count:
  assumes "- (2 ^ 31) \<le> n" "n < 2 ^ 31" "to_size_t n < 2 ^ 63"
  shows "to_size_t n = nat n"
proof -
  have "n mod 2 ^ 64 = n + 2 ^ 64" if "n < 0" using assms(1) that mod_pos_pos_trivial[of "n + 2 ^ 64" "2 ^ 64"] by simp
  then have "0 \<le> n" using assms(1,3) by (cases "0 \<le> n") (auto simp: to_size_t_def)
  then show ?thesis using assms(2) by (simp add: to_size_t_def)
qed


definition int32_count :: "int \<Rightarrow> bool" where
  "int32_count n \<longleftrightarrow> - (2 ^ 31) \<le> n \<and> n < 2 ^ 31"

lemma gives_byte [gives_rules]: "int32_count n \<Longrightarrow> gives (\<lambda>d. \<exists>bs. d = D8 bs \<and> length bs = nat n) (opal_dss_unpack_byte n)"
  "int32_count n \<Longrightarrow> gives (\<lambda>d. \<exists>bs. d = D8 bs \<and> length bs = nat n) (opal_dss_unpack_null n)"
  unfolding opal_dss_unpack_byte_def opal_dss_unpack_null_def
  by (auto intro!: gives_bind[OF gives_read] gives_return simp: int32_count_def size_of_count)

lemma gives_vals: "gives (\<lambda>xs. length xs = nat n) (unpack_vals sz n)"
  unfolding unpack_vals_def by (auto intro!: gives_bind[OF gives_read] gives_return)

lemma gives_ints [gives_rules]:
  "gives (\<lambda>d. \<exists>xs. d = D16 xs \<and> length xs = nat n) (opal_dss_unpack_int16 n)"
  "gives (\<lambda>d. \<exists>xs. d = D32 xs \<and> length xs = nat n) (opal_dss_unpack_int32 n)"
  "gives (\<lambda>d. \<exists>xs. d = D64 xs \<and> length xs = nat n) (opal_dss_unpack_int64 n)"
  unfolding opal_dss_unpack_int16_def opal_dss_unpack_int32_def opal_dss_unpack_int64_def
  by (auto intro!: gives_bind[OF gives_vals] gives_return)

lemma gives_True: "gives P u \<Longrightarrow> gives (\<lambda>_. True) u"
  by (rule gives_mono) auto

lemma gives_get [gives_rules]: "gives (\<lambda>_. True) (get8 d)" "gives (\<lambda>_. True) (get32 d)" "gives (\<lambda>_. True) (get64 d)" "gives (\<lambda>_. True) (getstr d)"
  by (auto simp: get8_def get32_def get64_def getstr_def intro!: gives_rules split: dss_data.split list.split)

lemma sint_count [simp]: "int32_count (sint (x :: u32))"
  using sint_ge[of x] sint_lt[of x] by (simp add: int32_count_def)

lemma int32_count_1 [simp]: "int32_count 1" by (simp add: int32_count_def)

lemma gives_one_string: "gives (\<lambda>_. True) (unpack_one_string env)"
  unfolding unpack_one_string_def
  by (auto intro!: gives_any[OF gives_True[OF gives_ints(2)]] gives_any[OF gives_get(2)] gives_bind[OF gives_byte(1)] gives_rules split: option.split)

lemma gives_string [gives_rules]: "gives (\<lambda>d. \<exists>xs. d = DString xs \<and> length xs = nat n) (opal_dss_unpack_string env n)"
  unfolding opal_dss_unpack_string_def by (auto intro!: gives_bind[OF gives_repeat[OF gives_one_string]] gives_return)

lemma gives_number_text: "gives (\<lambda>_. True) (unpack_number_text env conv)"
  unfolding unpack_number_text_def
  by (auto intro!: gives_any[OF gives_True[OF gives_string]] gives_any[OF gives_get(4)] gives_rules split: option.split)

lemma gives_number [gives_rules]:
  "gives (\<lambda>d. \<exists>xs. d = D32 xs \<and> length xs = nat n) (opal_dss_unpack_float env n)"
  "gives (\<lambda>d. \<exists>xs. d = D64 xs \<and> length xs = nat n) (opal_dss_unpack_double env n)"
  "gives (\<lambda>d. \<exists>xs. d = DTimeval xs \<and> length xs = nat n) (opal_dss_unpack_timeval n)"
  "gives (\<lambda>d. \<exists>xs. d = D64 xs \<and> length xs = nat n) (opal_dss_unpack_time n)"
proof -
  have "gives (\<lambda>_. True) (dss_bind (opal_dss_unpack_int64 2)
      (\<lambda>d. case d of D64 [s, us] \<Rightarrow> dss_return (s, us) | _ \<Rightarrow> dss_fail C_UNDEFINED))"
    by (auto intro!: gives_any[OF gives_True[OF gives_ints(3)]] gives_rules split: dss_data.split list.split)
  moreover have "gives (\<lambda>_. True) (dss_bind (opal_dss_unpack_int64 1) get64)"
    by (auto intro!: gives_any[OF gives_True[OF gives_ints(3)]] gives_rules)
  ultimately show "gives (\<lambda>d. \<exists>xs. d = D32 xs \<and> length xs = nat n) (opal_dss_unpack_float env n)"
    "gives (\<lambda>d. \<exists>xs. d = D64 xs \<and> length xs = nat n) (opal_dss_unpack_double env n)"
    "gives (\<lambda>d. \<exists>xs. d = DTimeval xs \<and> length xs = nat n) (opal_dss_unpack_timeval n)"
    "gives (\<lambda>d. \<exists>xs. d = D64 xs \<and> length xs = nat n) (opal_dss_unpack_time n)"
    unfolding opal_dss_unpack_float_def opal_dss_unpack_double_def opal_dss_unpack_timeval_def opal_dss_unpack_time_def
    by (auto intro!: gives_guard gives_bind[OF gives_repeat] gives_number_text gives_return)
qed

lemma gives_byte_object [gives_rules]: "gives (\<lambda>d. \<exists>xs. d = DByteObj xs \<and> length xs = nat n) (opal_dss_unpack_byte_object env n)"
proof -
  have "gives (\<lambda>_. True) (unpack_bo_bytes env)" unfolding unpack_bo_bytes_def
    by (auto intro!: gives_any[OF gives_True[OF gives_ints(2)]] gives_any[OF gives_get(2)] gives_bind[OF gives_byte(1)] gives_rules)
  then show ?thesis unfolding opal_dss_unpack_byte_object_def
    by (auto intro!: gives_bind[OF gives_repeat] gives_rules)
qed

lemma intrinsic_typed:
  assumes "intrinsic_types env ty = Some info" "int32_count n"
  shows "gives (typed_array ty n) (odti_unpack_fn info n)"
  using assms unfolding intrinsic_types_def
  by (auto split: if_splits intro!: gives_mono[OF gives_byte(1)] gives_mono[OF gives_byte(2)] gives_mono[OF gives_ints(1)]
      gives_mono[OF gives_ints(2)] gives_mono[OF gives_ints(3)] gives_mono[OF gives_string] gives_mono[OF gives_byte_object]
      gives_mono[OF gives_number(1)] gives_mono[OF gives_number(2)] gives_mono[OF gives_number(3)] gives_mono[OF gives_number(4)]
      simp: dss_typed_def)


lemma gives_tag: "gives (\<lambda>_. True) (opal_dss_get_data_type (intrinsic_types env))"
  unfolding opal_dss_get_data_type_def
  by (auto intro!: gives_any gives_rules gives_True[OF intrinsic_typed[where n = 1]] split: option.split)

lemma gives_buffer:
  assumes "gives (\<lambda>_. True) (opal_dss_get_data_type tbl)" "\<And>info. tbl ty = Some info \<Longrightarrow> gives P (odti_unpack_fn info n)"
  shows "gives P (opal_dss_unpack_buffer tbl n ty)"
  unfolding opal_dss_unpack_buffer_def using assms
  by (auto intro!: gives_any gives_described gives_if gives_rules split: option.split)

lemma gives_intrinsic: "int32_count n \<Longrightarrow> gives (typed_array ty n) (opal_dss_unpack_buffer (intrinsic_types env) n ty)"
  by (intro gives_buffer gives_tag intrinsic_typed)

lemma remote_values_length: "remote_width t = Some w \<Longrightarrow> dss_typed t d \<Longrightarrow> length (remote_values t d) = dss_length d"
  by (auto simp: remote_values_def remote_width_def dss_typed_def split: dss_data.splits if_splits)

lemma gives_remote_type: "gives (\<lambda>_. True) (remote_type_of (intrinsic_types env))"
proof -
  have "gives (\<lambda>_. True) (opal_dss_peek_type (intrinsic_types env))" by (simp add: gives_def opal_dss_peek_type_def)
  then show ?thesis using gives_tag[of env] unfolding remote_type_of_def gives_def by metis
qed

lemma gives_generic:
  assumes "int32_count n" "\<And>d. typed_array rep n d \<Longrightarrow> P d" "\<And>is. length is = nat n \<Longrightarrow> P (convert is)"
  shows "gives P (unpack_generic env (intrinsic_types env) rep convert n)"
  unfolding unpack_generic_def unpack_remote_def
  by (auto intro!: gives_any[OF gives_remote_type] gives_bind[OF gives_intrinsic[OF assms(1)]]
      gives_mono[OF gives_intrinsic[OF assms(1)]] gives_rules assms(2,3) simp: remote_values_length split: option.split)

lemma gives_name:
  assumes "int32_count n"
  shows "gives (\<lambda>d. \<exists>xs. d = DName xs \<and> length xs = nat n) (opal_dss_unpack_name env (intrinsic_types env) n)"
  unfolding opal_dss_unpack_name_def opal_dss_unpack_jobid_def opal_dss_unpack_vpid_def
  by (auto intro!: gives_bind[OF gives_intrinsic[OF assms]] gives_rules split: dss_data.split)

lemma opal_typed:
  assumes "opal_dss_types env ty = Some info" "int32_count n"
  shows "gives (typed_array ty n) (odti_unpack_fn info n)"
proof -
  consider "ty = OPAL_NAME" | "ty \<in> {OPAL_BOOL, OPAL_INT, OPAL_UINT, OPAL_SIZE, OPAL_PID}" | "ty \<in> {OPAL_DATA_TYPE, OPAL_JOBID, OPAL_VPID}"
    | "intrinsic_types env ty = Some info"
    using assms(1) by (auto simp: opal_dss_types_def Let_def split: if_splits)
  then show ?thesis
  proof cases
    case 1
    then show ?thesis using assms(1) by (auto simp: opal_dss_types_def Let_def dss_typed_def intro!: gives_mono[OF gives_name[OF assms(2)]])
  next
    case 2
    then show ?thesis using assms(1)
      by (auto simp: opal_dss_types_def Let_def opal_dss_unpack_bool_def opal_dss_unpack_int_def opal_dss_unpack_sizet_def
          opal_dss_unpack_pid_def intro!: gives_generic[OF assms(2)]) (auto simp: dss_typed_def split: dss_data.splits)
  next
    case 3
    then show ?thesis using assms(1)
      by (auto simp: opal_dss_types_def Let_def opal_dss_unpack_data_type_def opal_dss_unpack_jobid_def opal_dss_unpack_vpid_def
          intro!: gives_mono[OF gives_intrinsic[OF assms(2)]]) (auto simp: dss_typed_def split: dss_data.splits)
  next
    case 4
    then show ?thesis by (rule intrinsic_typed[OF _ assms(2)])
  qed
qed



definition example_bytes :: opal_buffer where
  "example_bytes = \<lparr>buf_type = OPAL_DSS_BUFFER_NON_DESC, base_set = True, block = Some [0, 0, 0, 1, 0, 0, 0, 7],
     pack_ptr = 8, unpack_ptr = 0, bytes_allocated = 8, bytes_used = 8\<rparr>"


end
