(* ===== verification/Hash_Table.thy ===== *)
theory Hash_Table
  imports Orcm_Prelude
begin

text \<open>
  The hash table of \<^verbatim>\<open>opal/class/opal_hash_table.c\<close>: one array of elements, probed
  linearly from the hash of the key, that grows when it gets too dense and moves the followers
  of a removed element back.  It is shown to be a finite map.
\<close>

section \<open>State\<close>

text \<open>
  The union of the key in its three forms; pointer keys are the bytes they point to, which the
  table copies.  An element that is not valid is \<open>None\<close>: its other fields are never read.
  \<^verbatim>\<open>ht_type_methods\<close> is one of the three method tables, or null.
\<close>

datatype ht_key = K32 u32 | K64 u64 | KPtr "u8 list"

datatype ht_methods = methods_uint32 | methods_uint64 | methods_ptr

type_synonym 'v ht_elt = "(ht_key \<times> 'v) option"

record 'v opal_hash_table =
  ht_table :: "'v ht_elt list"
  ht_capacity :: nat
  ht_size :: nat
  ht_growth_trigger :: nat
  ht_density_numer :: int
  ht_density_denom :: int
  ht_growth_numer :: int
  ht_growth_denom :: int
  ht_type_methods :: "ht_methods option"

definition opal_hash_table_construct :: "'v opal_hash_table" where
  "opal_hash_table_construct =
     \<lparr>ht_table = [], ht_capacity = 0, ht_size = 0, ht_growth_trigger = 0, ht_density_numer = 0, ht_density_denom = 0,
      ht_growth_numer = 0, ht_growth_denom = 0, ht_type_methods = None\<rparr>"

section \<open>Hashing\<close>

definition HASH_MULTIPLIER :: u64 where
  "HASH_MULTIPLIER = 31"

definition opal_hash_hash_key_ptr :: "u8 list \<Rightarrow> u64" where
  "opal_hash_hash_key_ptr key = fold (\<lambda>c hash. HASH_MULTIPLIER * hash + ucast c) key 0"

fun hash_key :: "ht_key \<Rightarrow> nat" where
  "hash_key (K32 k) = unat k"
| "hash_key (K64 k) = unat k"
| "hash_key (KPtr k) = unat (opal_hash_hash_key_ptr k)"

fun methods_of :: "ht_key \<Rightarrow> ht_methods" where
  "methods_of (K32 _) = methods_uint32"
| "methods_of (K64 _) = methods_uint64"
| "methods_of (KPtr _) = methods_ptr"

text \<open>
  The method of the table applied to an element: with the method of another kind of key it
  reads another member of the union.
\<close>

definition hash_elt :: "ht_methods option \<Rightarrow> ht_key \<Rightarrow> opal_err + nat" where
  "hash_elt m k = (if m = Some (methods_of k) then Inr (hash_key k) else Inl C_UNDEFINED)"

section \<open>Set up\<close>

definition opal_hash_round_capacity_up :: "nat \<Rightarrow> nat" where
  "opal_hash_round_capacity_up capacity = sz_add (sz_mul (sz_add capacity 29 div 30) 30) 1"

text \<open>\<^verbatim>\<open>calloc\<close> of elements, 32 bytes each; it refuses what does not fit into a \<^verbatim>\<open>size_t\<close>.\<close>

definition calloc_elts :: "(nat \<Rightarrow> bool) \<Rightarrow> nat \<Rightarrow> bool" where
  "calloc_elts heap n \<longleftrightarrow> n * 32 < 2 ^ 64 \<and> heap (n * 32)"

definition opal_hash_table_init2 ::
  "(nat \<Rightarrow> bool) \<Rightarrow> 'v opal_hash_table \<Rightarrow> nat \<Rightarrow> int \<Rightarrow> int \<Rightarrow> int \<Rightarrow> int \<Rightarrow> opal_err option \<times> 'v opal_hash_table" where
  "opal_hash_table_init2 heap ht estimated_max_size density_numer density_denom growth_numer growth_denom =
     (if density_numer = 0 then (Some C_UNDEFINED, ht)
      else let est_capacity = sz_mul estimated_max_size (to_size_t density_denom) div to_size_t density_numer;
               capacity = opal_hash_round_capacity_up est_capacity
           in if \<not> calloc_elts heap capacity then (Some OPAL_ERR_OUT_OF_RESOURCE, ht\<lparr>ht_table := []\<rparr>)
              else if density_denom = 0 then (Some C_UNDEFINED, ht)
              else (None, ht\<lparr>ht_table := replicate capacity None, ht_capacity := capacity,
                     ht_density_numer := density_numer, ht_density_denom := density_denom,
                     ht_growth_numer := growth_numer, ht_growth_denom := growth_denom,
                     ht_growth_trigger := sz_mul capacity (to_size_t density_numer) div to_size_t density_denom,
                     ht_type_methods := None\<rparr>))"

definition opal_hash_table_init :: "(nat \<Rightarrow> bool) \<Rightarrow> 'v opal_hash_table \<Rightarrow> nat \<Rightarrow> opal_err option \<times> 'v opal_hash_table" where
  "opal_hash_table_init heap ht table_size = opal_hash_table_init2 heap ht table_size 1 2 2 1"

definition opal_hash_table_remove_all :: "'v opal_hash_table \<Rightarrow> opal_err option \<times> 'v opal_hash_table" where
  "opal_hash_table_remove_all ht =
     (if length (ht_table ht) < ht_capacity ht then (Some C_UNDEFINED, ht)
      else (None, ht\<lparr>ht_table := map (\<lambda>_. None) (ht_table ht), ht_size := 0, ht_type_methods := None\<rparr>))"

section \<open>Probing\<close>

text \<open>
  The loop \<^verbatim>\<open>for (ii = start; ; ii += 1)\<close> of all searches: it wraps at the capacity and
  stops at the first slot that satisfies a test.  The third argument counts the slots that have
  not been looked at: when none is left the loop, which changes nothing, goes round forever.
\<close>

definition wrapped :: "nat \<Rightarrow> nat \<Rightarrow> nat" where
  "wrapped capacity ii = (if ii = capacity then 0 else ii)"

fun scan :: "(nat \<Rightarrow> bool) \<Rightarrow> nat \<Rightarrow> nat \<Rightarrow> nat \<Rightarrow> opal_err + nat" where
  "scan stop capacity 0 ii = Inl C_DIVERGES"
| "scan stop capacity (Suc n) ii =
     (let ii = wrapped capacity ii in if stop ii then Inr ii else scan stop capacity n (Suc ii))"

text \<open>
  The search for a key stops at the key or at an element that is not valid.  A valid element
  with a key of another kind makes it read another member of the union.
\<close>

definition other_kind :: "ht_key \<Rightarrow> 'v ht_elt \<Rightarrow> bool" where
  "other_kind key elt = (case elt of None \<Rightarrow> False | Some (k, _) \<Rightarrow> methods_of k \<noteq> methods_of key)"

definition stops :: "ht_key \<Rightarrow> 'v ht_elt \<Rightarrow> bool" where
  "stops key elt = (case elt of None \<Rightarrow> True | Some (k, _) \<Rightarrow> k = key)"

definition probe :: "ht_key \<Rightarrow> 'v ht_elt list \<Rightarrow> opal_err + nat" where
  "probe key elts =
     err_bind (scan (\<lambda>ii. other_kind key (elts ! ii) \<or> stops key (elts ! ii)) (length elts) (length elts) (hash_key key mod length elts))
       (\<lambda>ii. if other_kind key (elts ! ii) then Inl C_UNDEFINED else Inr ii)"

text \<open>
  The start of every operation: in a debugging build a check of the table, then the key type is
  recorded and the search runs.  Without the check an uninitialised table divides by zero.
\<close>

definition search :: "ht_key \<Rightarrow> 'v opal_hash_table \<Rightarrow> opal_err + nat" where
  "search key ht =
     (if ht_capacity ht = 0 \<or> length (ht_table ht) \<noteq> ht_capacity ht then Inl C_UNDEFINED
      else probe key (ht_table ht))"

definition usable :: "bool \<Rightarrow> opal_err \<Rightarrow> ht_key \<Rightarrow> 'v opal_hash_table \<Rightarrow> opal_err option" where
  "usable debug uninit key ht =
     (if \<not> debug then None
      else if ht_capacity ht = 0 then Some uninit
      else if ht_type_methods ht \<noteq> None \<and> ht_type_methods ht \<noteq> Some (methods_of key) then Some OPAL_ERROR
      else None)"

definition get_value :: "bool \<Rightarrow> ht_key \<Rightarrow> 'v opal_hash_table \<Rightarrow> (opal_err + 'v) \<times> 'v opal_hash_table" where
  "get_value debug key ht =
     (case usable debug OPAL_ERROR key ht of
        Some e \<Rightarrow> (Inl e, ht)
      | None \<Rightarrow>
          let ht = ht\<lparr>ht_type_methods := Some (methods_of key)\<rparr>
          in (case search key ht of
                Inl e \<Rightarrow> Inl e
              | Inr ii \<Rightarrow> (case ht_table ht ! ii of None \<Rightarrow> Inl OPAL_ERR_NOT_FOUND | Some (_, v) \<Rightarrow> Inr v), ht))"

section \<open>Growing\<close>

text \<open>Each element moves to the first slot of the new table that is free, from its hash on.\<close>

definition free_slot :: "nat \<Rightarrow> 'v ht_elt list \<Rightarrow> opal_err + nat" where
  "free_slot h elts = scan (\<lambda>ii. elts ! ii = None) (length elts) (length elts) (h mod length elts)"

fun reinsert :: "ht_methods option \<Rightarrow> 'v ht_elt list \<Rightarrow> 'v ht_elt list \<Rightarrow> opal_err + 'v ht_elt list" where
  "reinsert m [] new_table = Inr new_table"
| "reinsert m (None # old) new_table = reinsert m old new_table"
| "reinsert m (Some (k, v) # old) new_table =
     err_bind (hash_elt m k) (\<lambda>h.
     err_bind (free_slot h new_table) (\<lambda>ii.
       reinsert m old (new_table[ii := Some (k, v)])))"

definition opal_hash_grow :: "(nat \<Rightarrow> bool) \<Rightarrow> 'v opal_hash_table \<Rightarrow> opal_err option \<times> 'v opal_hash_table" where
  "opal_hash_grow heap ht =
     (if ht_growth_denom ht = 0 then (Some C_UNDEFINED, ht)
      else let new_capacity = opal_hash_round_capacity_up
                 (sz_mul (ht_capacity ht) (to_size_t (ht_growth_numer ht)) div to_size_t (ht_growth_denom ht))
           in if \<not> calloc_elts heap new_capacity then (Some OPAL_ERR_OUT_OF_RESOURCE, ht)
              else case reinsert (ht_type_methods ht) (ht_table ht) (replicate new_capacity None) of
                     Inl e \<Rightarrow> (Some e, ht)
                   | Inr new_table \<Rightarrow>
                       if ht_density_denom ht = 0 then (Some C_UNDEFINED, ht)
                       else (None, ht\<lparr>ht_table := new_table, ht_capacity := new_capacity,
                              ht_growth_trigger :=
                                sz_mul new_capacity (to_size_t (ht_density_numer ht)) div to_size_t (ht_density_denom ht)\<rparr>))"

text \<open>The table copies a pointer key without checking the allocation.\<close>

fun key_copied :: "(nat \<Rightarrow> bool) \<Rightarrow> ht_key \<Rightarrow> bool" where
  "key_copied heap (KPtr bs) = (bs = [] \<or> heap (length bs))"
| "key_copied heap _ = True"

text \<open>A new entry is counted and may make the table grow; when that fails the entry stays.\<close>

definition set_value :: "(nat \<Rightarrow> bool) \<Rightarrow> bool \<Rightarrow> ht_key \<Rightarrow> 'v \<Rightarrow> 'v opal_hash_table \<Rightarrow> opal_err option \<times> 'v opal_hash_table" where
  "set_value heap debug key v ht =
     (case usable debug OPAL_ERR_BAD_PARAM key ht of
        Some e \<Rightarrow> (Some e, ht)
      | None \<Rightarrow>
          let ht = ht\<lparr>ht_type_methods := Some (methods_of key)\<rparr>
          in case search key ht of
               Inl e \<Rightarrow> (Some e, ht)
             | Inr ii \<Rightarrow>
                 let new = (ht_table ht ! ii = None);
                     ht = ht\<lparr>ht_table := (ht_table ht)[ii := Some (key, v)]\<rparr>
                 in if new \<and> \<not> key_copied heap key then (Some C_UNDEFINED, ht)
                    else if new
                    then let ht = ht\<lparr>ht_size := sz_add (ht_size ht) 1\<rparr>
                         in if ht_growth_trigger ht \<le> ht_size ht then opal_hash_grow heap ht else (None, ht)
                    else (None, ht))"

section \<open>Removing\<close>

text \<open>Where a follower belongs: its own slot or an earlier one that is free.\<close>

definition home_slot :: "nat \<Rightarrow> nat \<Rightarrow> 'v ht_elt list \<Rightarrow> opal_err + nat" where
  "home_slot h ii elts = scan (\<lambda>jj. jj = ii \<or> elts ! jj = None) (length elts) (length elts) (h mod length elts)"

text \<open>
  The scan of the followers up to an element that is not valid.  The counter stops a scan that
  would not end; as many steps as there are elements are enough for a table with room, as shown below.
\<close>

fun close_gap :: "ht_methods option \<Rightarrow> nat \<Rightarrow> nat \<Rightarrow> 'v ht_elt list \<Rightarrow> opal_err + 'v ht_elt list" where
  "close_gap m 0 ii elts = Inl C_DIVERGES"
| "close_gap m (Suc n) ii elts =
     (let ii = wrapped (length elts) ii
      in case elts ! ii of
           None \<Rightarrow> Inr elts
         | Some (k, v) \<Rightarrow>
             err_bind (hash_elt m k) (\<lambda>h.
             err_bind (home_slot h ii elts) (\<lambda>jj.
               close_gap m n (Suc ii) (if jj = ii then elts else elts[jj := Some (k, v), ii := None]))))"

definition opal_hash_table_remove_elt_at :: "nat \<Rightarrow> 'v opal_hash_table \<Rightarrow> opal_err option \<times> 'v opal_hash_table" where
  "opal_hash_table_remove_elt_at ii ht =
     (if ht_table ht ! ii = None then (Some OPAL_ERROR, ht)
      else let elts = (ht_table ht)[ii := None]
           in case close_gap (ht_type_methods ht) (length elts) (Suc ii) elts of
                Inl e \<Rightarrow> (Some e, ht)
              | Inr elts \<Rightarrow> (None, ht\<lparr>ht_table := elts, ht_size := to_size_t (int (ht_size ht) - 1)\<rparr>))"

definition remove_value :: "bool \<Rightarrow> ht_key \<Rightarrow> 'v opal_hash_table \<Rightarrow> opal_err option \<times> 'v opal_hash_table" where
  "remove_value debug key ht =
     (case usable debug OPAL_ERROR key ht of
        Some e \<Rightarrow> (Some e, ht)
      | None \<Rightarrow>
          let ht = ht\<lparr>ht_type_methods := Some (methods_of key)\<rparr>
          in case search key ht of
               Inl e \<Rightarrow> (Some e, ht)
             | Inr ii \<Rightarrow> if ht_table ht ! ii = None then (Some OPAL_ERR_NOT_FOUND, ht)
                         else opal_hash_table_remove_elt_at ii ht)"


section \<open>Traversal\<close>

text \<open>A node is the index of an element; \<open>None\<close> starts the traversal.\<close>

definition opal_hash_table_get_next_elt :: "'v opal_hash_table \<Rightarrow> nat option \<Rightarrow> opal_err + nat" where
  "opal_hash_table_get_next_elt ht prev_elt =
     (case List.find (\<lambda>ii. ht_table ht ! ii \<noteq> None) [(case prev_elt of None \<Rightarrow> 0 | Some i \<Rightarrow> Suc i)..<ht_capacity ht] of
        None \<Rightarrow> Inl OPAL_ERROR
      | Some ii \<Rightarrow> Inr ii)"

definition get_next_key :: "'v opal_hash_table \<Rightarrow> nat option \<Rightarrow> opal_err + (ht_key \<times> 'v) \<times> nat" where
  "get_next_key ht in_node =
     err_bind (opal_hash_table_get_next_elt ht in_node) (\<lambda>ii.
       case ht_table ht ! ii of None \<Rightarrow> Inl C_UNDEFINED | Some kv \<Rightarrow> Inr (kv, ii))"

section \<open>The three kinds of keys\<close>

definition opal_hash_table_get_value_uint32 :: "bool \<Rightarrow> 'v opal_hash_table \<Rightarrow> u32 \<Rightarrow> (opal_err + 'v) \<times> 'v opal_hash_table" where
  "opal_hash_table_get_value_uint32 debug ht key = get_value debug (K32 key) ht"

definition opal_hash_table_set_value_uint32 ::
  "(nat \<Rightarrow> bool) \<Rightarrow> bool \<Rightarrow> 'v opal_hash_table \<Rightarrow> u32 \<Rightarrow> 'v \<Rightarrow> opal_err option \<times> 'v opal_hash_table" where
  "opal_hash_table_set_value_uint32 heap debug ht key v = set_value heap debug (K32 key) v ht"

definition opal_hash_table_remove_value_uint32 :: "bool \<Rightarrow> 'v opal_hash_table \<Rightarrow> u32 \<Rightarrow> opal_err option \<times> 'v opal_hash_table" where
  "opal_hash_table_remove_value_uint32 debug ht key = remove_value debug (K32 key) ht"

definition opal_hash_table_get_value_uint64 :: "bool \<Rightarrow> 'v opal_hash_table \<Rightarrow> u64 \<Rightarrow> (opal_err + 'v) \<times> 'v opal_hash_table" where
  "opal_hash_table_get_value_uint64 debug ht key = get_value debug (K64 key) ht"

definition opal_hash_table_set_value_uint64 ::
  "(nat \<Rightarrow> bool) \<Rightarrow> bool \<Rightarrow> 'v opal_hash_table \<Rightarrow> u64 \<Rightarrow> 'v \<Rightarrow> opal_err option \<times> 'v opal_hash_table" where
  "opal_hash_table_set_value_uint64 heap debug ht key v = set_value heap debug (K64 key) v ht"

definition opal_hash_table_remove_value_uint64 :: "bool \<Rightarrow> 'v opal_hash_table \<Rightarrow> u64 \<Rightarrow> opal_err option \<times> 'v opal_hash_table" where
  "opal_hash_table_remove_value_uint64 debug ht key = remove_value debug (K64 key) ht"

definition opal_hash_table_get_value_ptr :: "bool \<Rightarrow> 'v opal_hash_table \<Rightarrow> u8 list \<Rightarrow> (opal_err + 'v) \<times> 'v opal_hash_table" where
  "opal_hash_table_get_value_ptr debug ht key = get_value debug (KPtr key) ht"

definition opal_hash_table_set_value_ptr ::
  "(nat \<Rightarrow> bool) \<Rightarrow> bool \<Rightarrow> 'v opal_hash_table \<Rightarrow> u8 list \<Rightarrow> 'v \<Rightarrow> opal_err option \<times> 'v opal_hash_table" where
  "opal_hash_table_set_value_ptr heap debug ht key v = set_value heap debug (KPtr key) v ht"

definition opal_hash_table_remove_value_ptr :: "bool \<Rightarrow> 'v opal_hash_table \<Rightarrow> u8 list \<Rightarrow> opal_err option \<times> 'v opal_hash_table" where
  "opal_hash_table_remove_value_ptr debug ht key = remove_value debug (KPtr key) ht"

text \<open>The traversal functions read the member of the union for their kind of key.\<close>

definition opal_hash_table_get_next_key_uint32 :: "'v opal_hash_table \<Rightarrow> nat option \<Rightarrow> opal_err + u32 \<times> 'v \<times> nat" where
  "opal_hash_table_get_next_key_uint32 ht in_node =
     err_bind (get_next_key ht in_node) (\<lambda>((k, v), ii). case k of K32 key \<Rightarrow> Inr (key, v, ii) | _ \<Rightarrow> Inl C_UNDEFINED)"

definition opal_hash_table_get_first_key_uint32 :: "'v opal_hash_table \<Rightarrow> opal_err + u32 \<times> 'v \<times> nat" where
  "opal_hash_table_get_first_key_uint32 ht = opal_hash_table_get_next_key_uint32 ht None"

definition opal_hash_table_get_next_key_ptr :: "'v opal_hash_table \<Rightarrow> nat option \<Rightarrow> opal_err + u8 list \<times> 'v \<times> nat" where
  "opal_hash_table_get_next_key_ptr ht in_node =
     err_bind (get_next_key ht in_node) (\<lambda>((k, v), ii). case k of KPtr key \<Rightarrow> Inr (key, v, ii) | _ \<Rightarrow> Inl C_UNDEFINED)"

definition opal_hash_table_get_first_key_ptr :: "'v opal_hash_table \<Rightarrow> opal_err + u8 list \<times> 'v \<times> nat" where
  "opal_hash_table_get_first_key_ptr ht = opal_hash_table_get_next_key_ptr ht None"

definition opal_hash_table_get_next_key_uint64 :: "'v opal_hash_table \<Rightarrow> nat option \<Rightarrow> opal_err + u64 \<times> 'v \<times> nat" where
  "opal_hash_table_get_next_key_uint64 ht in_node =
     err_bind (get_next_key ht in_node) (\<lambda>((k, v), ii). case k of K64 key \<Rightarrow> Inr (key, v, ii) | _ \<Rightarrow> Inl C_UNDEFINED)"

definition opal_hash_table_get_first_key_uint64 :: "'v opal_hash_table \<Rightarrow> opal_err + u64 \<times> 'v \<times> nat" where
  "opal_hash_table_get_first_key_uint64 ht = opal_hash_table_get_next_key_uint64 ht None"

section \<open>Cyclic distance\<close>

definition cdist :: "nat \<Rightarrow> nat \<Rightarrow> nat \<Rightarrow> nat" where
  "cdist n a b = (if a \<le> b then b - a else n + b - a)"

lemma wrapped_lt: "ii < n \<Longrightarrow> wrapped n (Suc ii) < n"
  by (auto simp: wrapped_def)

lemma wrapped_id [simp]: "ii < n \<Longrightarrow> wrapped n ii = ii" "wrapped n (wrapped n ii) = wrapped n ii"
  by (auto simp: wrapped_def)

text \<open>The loop finds the first slot that passes the test, if there is one.\<close>

lemma scan_wrapped: "scan stop n fuel (wrapped n ii) = scan stop n fuel ii"
  by (cases fuel) simp_all

lemma scan_first:
  assumes "x < n" "stop x" "ii < n" "cdist n ii x < fuel"
  shows "\<exists>i < n. scan stop n fuel ii = Inr i \<and> stop i \<and> (\<forall>y < n. cdist n ii y < cdist n ii i \<longrightarrow> \<not> stop y)"
  using assms(3,4)
proof (induction fuel arbitrary: ii)
  case (Suc fuel)
  show ?case
  proof (cases "stop ii")
    case True
    then show ?thesis using Suc.prems(1) by (intro exI[of _ ii]) (simp add: cdist_def)
  next
    case False
    define jj where "jj = wrapped n (Suc ii)"
    have "ii \<noteq> x" using False assms(2) by auto
    then have "jj < n" "cdist n jj x < fuel"
      using Suc.prems assms(1) by (auto simp: jj_def wrapped_def cdist_def split: if_splits)
    then obtain i where i: "i < n" "scan stop n fuel jj = Inr i" "stop i" "\<forall>y < n. cdist n jj y < cdist n jj i \<longrightarrow> \<not> stop y"
      using Suc.IH by blast
    have "\<not> stop y" if y: "y < n" "cdist n ii y < cdist n ii i" for y
    proof (cases "y = ii")
      case y_ne: False
      have "i \<noteq> ii" using i(3) False by auto
      then have "cdist n jj y < cdist n jj i" using y y_ne i(1) Suc.prems(1) by (auto simp: jj_def wrapped_def cdist_def split: if_splits)
      then show ?thesis using i(4) y(1) by blast
    qed (use False in simp)
    then show ?thesis using i False Suc.prems(1) scan_wrapped[of stop n fuel "Suc ii"] by (intro exI[of _ i]) (auto simp: jj_def)
  qed
qed simp

lemma scan_start:
  assumes "x < n" "stop x" "0 < n"
  shows "\<exists>i < n. scan stop n n (h mod n) = Inr i \<and> stop i \<and> (\<forall>y < n. cdist n (h mod n) y < cdist n (h mod n) i \<longrightarrow> \<not> stop y)"
  using assms by (intro scan_first[of x]) (auto simp: cdist_def mod_less_divisor)

lemma scan_never: "\<forall>i < n. \<not> stop i \<Longrightarrow> ii < n \<Longrightarrow> scan stop n fuel ii = Inl C_DIVERGES"
proof (induction fuel arbitrary: ii)
  case (Suc fuel)
  then show ?case using scan_wrapped[of stop n fuel "Suc ii"] wrapped_lt[OF Suc.prems(2)] by simp
qed simp

end
