(* ===== verification/Hash_Map.thy ===== *)
theory Hash_Map
  imports Hash_Table "HOL-Library.Multiset"
begin

text \<open>
  The hash table is a finite map: the order of probing is kept by insertion, growth and the
  closing of gaps, so that every search finds the key it looks for, and ends.
\<close>

section \<open>Entries\<close>

definition entries :: "'v ht_elt list \<Rightarrow> (ht_key \<times> 'v) list" where
  "entries elts = List.map_filter (\<lambda>e. e) elts"

definition elts_map :: "'v ht_elt list \<Rightarrow> ht_key \<rightharpoonup> 'v" where
  "elts_map elts = map_of (entries elts)"

lemma entries_simps [simp]: "entries [] = []" "entries (None # es) = entries es" "entries (Some e # es) = e # entries es"
  "entries (replicate n None) = []"
  by (simp_all add: entries_def map_filter_simps) (induction n; simp add: map_filter_simps)

lemma mset_entries: "mset (entries elts) = image_mset the (filter_mset (\<lambda>e. e \<noteq> None) (mset elts))"
proof (induction elts)
  case (Cons e es)
  then show ?case by (cases e) simp_all
qed simp

lemma set_entries: "set (entries elts) = {e. Some e \<in> set elts}"
  by (induction elts) (auto simp: entries_def map_filter_simps split: option.splits)

lemma entries_in: "e \<in> set (entries elts) \<longleftrightarrow> (\<exists>i < length elts. elts ! i = Some e)"
  by (simp add: set_entries in_set_conv_nth)

lemma entries_cong: "mset es = mset es' \<Longrightarrow> mset (entries es) = mset (entries es')"
  by (simp add: mset_entries)

lemma entries_fill:
  assumes "i < length es" "es ! i = None"
  shows "mset (entries (es[i := Some e])) = add_mset e (mset (entries es))"
  using assms by (simp add: mset_entries mset_update)

lemma entries_drop:
  assumes "i < length es" "es ! i = Some e"
  shows "add_mset e (mset (entries (es[i := None]))) = mset (entries es)"
proof -
  have m: "mset es = add_mset (Some e) (mset es - {#Some e#})" using assms by (metis insert_DiffM nth_mem_mset)
  have f: "filter_mset (\<lambda>e. e \<noteq> None) (mset es) = add_mset (Some e) (filter_mset (\<lambda>e. e \<noteq> None) (mset es - {#Some e#}))"
    by (subst m) simp
  show ?thesis unfolding mset_entries mset_update[OF assms(1)] f assms(2) by simp
qed

lemma entries_replace:
  assumes "i < length es" "es ! i = Some e"
  shows "add_mset e (mset (entries (es[i := Some e']))) = add_mset e' (mset (entries es))"
proof -
  have "mset (entries ((es[i := None])[i := Some e'])) = add_mset e' (mset (entries (es[i := None])))"
    using assms by (intro entries_fill) simp_all
  then show ?thesis using entries_drop[OF assms] by simp
qed

section \<open>Tables in order\<close>

text \<open>
  Every slot from the hash of a key to the key is taken; keys are different and of one kind.
\<close>

definition home :: "nat \<Rightarrow> ht_key \<Rightarrow> nat" where
  "home n k = hash_key k mod n"

definition reached :: "'v ht_elt list \<Rightarrow> nat \<Rightarrow> nat \<Rightarrow> bool" where
  "reached elts h i \<longleftrightarrow> (\<forall>x < length elts. cdist (length elts) h x < cdist (length elts) h i \<longrightarrow> elts ! x \<noteq> None)"

definition probing :: "'v ht_elt list \<Rightarrow> bool" where
  "probing elts \<longleftrightarrow> (\<forall>i < length elts. \<forall>k v. elts ! i = Some (k, v) \<longrightarrow> reached elts (home (length elts) k) i)"

definition one_kind :: "ht_methods option \<Rightarrow> 'v ht_elt list \<Rightarrow> bool" where
  "one_kind m elts \<longleftrightarrow> (\<forall>(k, v) \<in> set (entries elts). m = Some (methods_of k))"

definition elts_ok :: "ht_methods option \<Rightarrow> 'v ht_elt list \<Rightarrow> bool" where
  "elts_ok m elts \<longleftrightarrow> probing elts \<and> distinct (map fst (entries elts)) \<and> one_kind m elts"

lemma distinct_keys_cong: "mset (entries es) = mset (entries es') \<Longrightarrow> distinct (map fst (entries es)) = distinct (map fst (entries es'))"
  by (metis mset_eq_imp_distinct_iff mset_map)

lemma one_kind_cong: "mset (entries es) = mset (entries es') \<Longrightarrow> one_kind m es = one_kind m es'"
  unfolding one_kind_def by (metis mset_eq_setD)

lemma elts_map_Some: "distinct (map fst (entries elts)) \<Longrightarrow> elts_map elts k = Some v \<longleftrightarrow> (k, v) \<in># mset (entries elts)"
  by (simp add: elts_map_def map_of_eq_Some_iff)

lemma elts_map_cong:
  "mset (entries es) = mset (entries es') \<Longrightarrow> distinct (map fst (entries es)) \<Longrightarrow> elts_map es = elts_map es'"
proof
  fix k assume a: "mset (entries es) = mset (entries es')" "distinct (map fst (entries es))"
  then have "elts_map es k = Some v \<longleftrightarrow> elts_map es' k = Some v" for v
    using distinct_keys_cong[OF a(1)] by (simp add: elts_map_Some)
  then show "elts_map es k = elts_map es' k" by (metis option.exhaust)
qed

lemma elts_map_None: "elts_map elts k = None \<longleftrightarrow> k \<notin> fst ` set (entries elts)"
  by (simp add: elts_map_def map_of_eq_None_iff)

lemma has_room: "length (entries elts) < length elts \<Longrightarrow> \<exists>f < length elts. elts ! f = None"
proof -
  assume "length (entries elts) < length elts"
  then have "None \<in> set elts"
    by (induction elts) (auto simp: entries_def map_filter_simps split: option.splits)
  then show ?thesis by (auto simp: in_set_conv_nth)
qed

lemma stops_simps [simp]: "stops key None" "stops key (Some (k, v)) \<longleftrightarrow> k = key"
  by (simp_all add: stops_def)

text \<open>A search ends at the key or, where the key is missing, at a slot where it can be put.\<close>

lemma probe_spec:
  assumes "elts_ok (Some (methods_of key)) elts" "length (entries elts) < length elts"
  obtains i where "i < length elts" "probe key elts = Inr i" "reached elts (home (length elts) key) i"
    "(elts ! i = None \<and> elts_map elts key = None) \<or> (\<exists>v. elts ! i = Some (key, v) \<and> elts_map elts key = Some v)"
proof -
  let ?n = "length elts" and ?stop = "\<lambda>ii. other_kind key (elts ! ii) \<or> stops key (elts ! ii)"
  obtain f where f: "f < ?n" "elts ! f = None" using has_room[OF assms(2)] by blast
  then have st: "?stop f" and n: "0 < ?n" by (auto simp: stops_def)
  from scan_start[of f ?n ?stop "hash_key key", OF f(1) st n] obtain i where i: "i < ?n" "scan ?stop ?n ?n (hash_key key mod ?n) = Inr i" "?stop i"
    "\<forall>y < ?n. cdist ?n (hash_key key mod ?n) y < cdist ?n (hash_key key mod ?n) i \<longrightarrow> \<not> ?stop y" by blast
  have kind: "\<not> other_kind key (elts ! j)" if "j < ?n" for j
    using that assms(1) entries_in[of _ elts] by (fastforce simp: other_kind_def elts_ok_def one_kind_def split: option.splits)
  have reach: "reached elts (home ?n key) i" using i(4) unfolding reached_def home_def by (metis stops_simps(1))
  have keys: "distinct (map fst (entries elts))" using assms(1) by (simp add: elts_ok_def)
  have "(elts ! i = None \<and> elts_map elts key = None) \<or> (\<exists>v. elts ! i = Some (key, v) \<and> elts_map elts key = Some v)"
  proof (cases "elts ! i")
    case None
    have "key \<notin> fst ` set (entries elts)"
    proof
      assume "key \<in> fst ` set (entries elts)"
      then obtain v j where j: "j < ?n" "elts ! j = Some (key, v)" by (auto simp: entries_in)
      then have "reached elts (home ?n key) j" using assms(1) by (auto simp: elts_ok_def probing_def)
      then have "\<not> cdist ?n (home ?n key) i < cdist ?n (home ?n key) j" using None i(1) by (auto simp: reached_def)
      moreover have "\<not> cdist ?n (home ?n key) j < cdist ?n (home ?n key) i" using i(4) j by (auto simp: home_def stops_def)
      moreover have "home ?n key < ?n" using n by (simp add: home_def)
      ultimately have "i = j" using i(1) j(1) by (auto simp: cdist_def split: if_splits)
      then show False using None j(2) by simp
    qed
    then show ?thesis using None by (simp add: elts_map_None)
  next
    case (Some kv)
    then obtain v where kv: "kv = (key, v)" using i(3) kind[OF i(1)] by (auto simp: stops_def)
    then have "(key, v) \<in> set (entries elts)" using Some i(1) entries_in by metis
    then show ?thesis using Some kv keys by (auto simp: elts_map_Some)
  qed
  then show ?thesis using that i(1,2) reach kind by (simp add: probe_def)
qed


section \<open>Insertion\<close>

lemma probing_fill:
  assumes "probing elts" "i < length elts" "elts ! i = None" "reached elts (home (length elts) k) i"
  shows "probing (elts[i := Some (k, v)])"
  using assms by (auto simp: probing_def reached_def nth_list_update)

lemma probing_replace:
  assumes "probing elts" "i < length elts" "elts ! i = Some (k, w)"
  shows "probing (elts[i := Some (k, v)])"
  using assms by (auto simp: probing_def reached_def nth_list_update)

lemma one_kind_add: "mset (entries es') = add_mset (k, v) (mset (entries es)) \<Longrightarrow> one_kind m es' \<longleftrightarrow> m = Some (methods_of k) \<and> one_kind m es"
  unfolding one_kind_def by (drule arg_cong[where f = set_mset]) simp

lemma keys_add:
  assumes "mset (entries es') = add_mset (k, v) (mset (entries es))"
  shows "distinct (map fst (entries es')) \<longleftrightarrow> k \<notin> fst ` set (entries es) \<and> distinct (map fst (entries es))"
proof -
  have "mset (map fst (entries es')) = mset (k # map fst (entries es))" using assms by simp
  then show ?thesis using mset_eq_imp_distinct_iff by (metis distinct.simps(2) list.set_map)
qed

lemma elts_map_add:
  assumes "mset (entries es') = add_mset (k, v) (mset (entries es))" "distinct (map fst (entries es'))"
  shows "elts_map es' = (elts_map es)(k \<mapsto> v)"
proof
  fix x
  have d: "distinct (map fst (entries es))" "k \<notin> fst ` set (entries es)" using keys_add[OF assms(1)] assms(2) by simp_all
  have "elts_map es' x = Some w \<longleftrightarrow> ((elts_map es)(k \<mapsto> v)) x = Some w" for w
    using assms d by (auto simp: elts_map_Some rev_image_eqI)
  then show "elts_map es' x = ((elts_map es)(k \<mapsto> v)) x" by (metis option.exhaust)
qed

lemma elts_fill:
  assumes "elts_ok m elts" "m = Some (methods_of k)" "i < length elts" "elts ! i = None" "reached elts (home (length elts) k) i"
    "elts_map elts k = None"
  shows "elts_ok m (elts[i := Some (k, v)])" "elts_map (elts[i := Some (k, v)]) = (elts_map elts)(k \<mapsto> v)"
    "length (entries (elts[i := Some (k, v)])) = Suc (length (entries elts))"
proof -
  note e = entries_fill[OF assms(3,4), of "(k, v)"]
  have d: "distinct (map fst (entries (elts[i := Some (k, v)])))" using assms(1,6) by (simp add: keys_add[OF e] elts_ok_def elts_map_None)
  then show "elts_ok m (elts[i := Some (k, v)])" using assms probing_fill[of elts i k v] by (simp add: elts_ok_def one_kind_add[OF e])
  show "elts_map (elts[i := Some (k, v)]) = (elts_map elts)(k \<mapsto> v)" by (rule elts_map_add[OF e d])
  show "length (entries (elts[i := Some (k, v)])) = Suc (length (entries elts))" using arg_cong[OF e, of size] by simp
qed

lemma elts_replace:
  assumes "elts_ok m elts" "i < length elts" "elts ! i = Some (k, w)"
  shows "elts_ok m (elts[i := Some (k, v)])" "elts_map (elts[i := Some (k, v)]) = (elts_map elts)(k \<mapsto> v)"
    "length (entries (elts[i := Some (k, v)])) = length (entries elts)"
proof -
  let ?gap = "elts[i := None]"
  have g: "mset (entries elts) = add_mset (k, w) (mset (entries ?gap))" using entries_drop[OF assms(2,3)] by simp
  have e: "mset (entries (elts[i := Some (k, v)])) = add_mset (k, v) (mset (entries ?gap))"
    using entries_fill[of i ?gap "(k, v)"] assms(2) by simp
  have d: "distinct (map fst (entries elts))" using assms(1) by (simp add: elts_ok_def)
  then have d': "distinct (map fst (entries (elts[i := Some (k, v)])))" using keys_add[OF g] keys_add[OF e] by simp
  then show "elts_ok m (elts[i := Some (k, v)])" using assms probing_replace[OF _ assms(2,3)] one_kind_add[OF g] one_kind_add[OF e]
    unfolding elts_ok_def by blast
  show "elts_map (elts[i := Some (k, v)]) = (elts_map elts)(k \<mapsto> v)" using elts_map_add[OF e d'] elts_map_add[OF g d] by simp
  show "length (entries (elts[i := Some (k, v)])) = length (entries elts)" using arg_cong[OF e, of size] arg_cong[OF g, of size] by simp
qed

section \<open>Growth\<close>

lemma reinsert_spec:
  assumes "elts_ok m new" "distinct (map fst (entries old @ entries new))" "one_kind m old"
    "length (entries old) + length (entries new) < length new"
  shows "\<exists>t. reinsert m old new = Inr t \<and> length t = length new \<and> elts_ok m t \<and> mset (entries t) = mset (entries old) + mset (entries new)"
  using assms
proof (induction m old new rule: reinsert.induct)
  case (2 m old new)
  then show ?case by (simp add: one_kind_def)
next
  case (3 m k v old new)
  have m: "m = Some (methods_of k)" using "3.prems"(3) by (simp add: one_kind_def)
  have h: "hash_elt m k = Inr (hash_key k)" by (simp add: hash_elt_def m)
  obtain f where f: "f < length new" "new ! f = None" using has_room[of new] "3.prems"(4) by auto
  then have n: "0 < length new" by auto
  obtain i where i: "i < length new" "free_slot (hash_key k) new = Inr i" "new ! i = None" "reached new (home (length new) k) i"
    using scan_start[of f "length new" "\<lambda>ii. new ! ii = None", OF f n, of "hash_key k"] unfolding free_slot_def reached_def home_def by blast
  have none: "elts_map new k = None" using "3.prems"(2) by (auto simp: elts_map_None)
  note fill = elts_fill[OF "3.prems"(1) m i(1,3,4) none, of v] and e = entries_fill[OF i(1,3), of "(k, v)"]
  have "distinct (map fst (entries old @ entries (new[i := Some (k, v)])))"
  proof -
    have "mset (map fst (entries old @ entries (new[i := Some (k, v)]))) = mset (map fst (entries (Some (k, v) # old) @ entries new))"
      using e by simp
    then show ?thesis using "3.prems"(2) mset_eq_imp_distinct_iff by metis
  qed
  moreover have "one_kind m old" using "3.prems"(3) by (auto simp: one_kind_def)
  ultimately obtain t where "reinsert m old (new[i := Some (k, v)]) = Inr t" "length t = length new" "elts_ok m t"
    "mset (entries t) = mset (entries old) + mset (entries (new[i := Some (k, v)]))"
    using "3.IH"[OF fill(1)] "3.prems"(4) fill(3) by auto
  then show ?case using h i(2) e by simp
qed simp


section \<open>Closing the gap\<close>

text \<open>
  While the followers of a removed element are scanned there is one slot, the gap, that elements
  from the scanned slot on may have been probed across; every other element can be reached.
\<close>

definition gapped :: "'v ht_elt list \<Rightarrow> nat \<Rightarrow> nat \<Rightarrow> bool" where
  "gapped elts g ii \<longleftrightarrow>
     g < length elts \<and> ii < length elts \<and> elts ! g = None \<and> 0 < cdist (length elts) g ii \<and>
     (\<forall>i < length elts. \<forall>k v. elts ! i = Some (k, v) \<longrightarrow>
        (\<forall>x < length elts. cdist (length elts) (home (length elts) k) x < cdist (length elts) (home (length elts) k) i \<longrightarrow>
           elts ! x \<noteq> None \<or> x = g \<and> cdist (length elts) g ii \<le> cdist (length elts) g i))"

lemma cdist_zero: "a < n \<Longrightarrow> b < n \<Longrightarrow> cdist n a b = 0 \<longleftrightarrow> a = b"
  by (auto simp: cdist_def)

lemma cdist_next: "g < n \<Longrightarrow> 2 \<le> n \<Longrightarrow> cdist n g (wrapped n (Suc g)) = 1"
  by (auto simp: cdist_def wrapped_def)

lemma cdist_step:
  "g < n \<Longrightarrow> i < n \<Longrightarrow> f < n \<Longrightarrow> cdist n g i < cdist n g f \<Longrightarrow> cdist n g (wrapped n (Suc i)) = Suc (cdist n g i)"
  by (auto simp: cdist_def wrapped_def split: if_splits)

lemma cdist_across:
  "h < n \<Longrightarrow> g < n \<Longrightarrow> i < n \<Longrightarrow> j < n \<Longrightarrow> cdist n h g < cdist n h i \<Longrightarrow> cdist n g j \<le> cdist n g i \<Longrightarrow> i \<noteq> j \<Longrightarrow> cdist n h j < cdist n h i"
  by (auto simp: cdist_def split: if_splits)

lemma cdist_inj: "h < n \<Longrightarrow> a < n \<Longrightarrow> b < n \<Longrightarrow> cdist n h a = cdist n h b \<longleftrightarrow> a = b"
  by (auto simp: cdist_def split: if_splits)

lemma home_lt: "0 < n \<Longrightarrow> home n k < n"
  by (simp add: home_def)

lemma gapped_start:
  assumes "probing elts" "g < length elts" "elts ! g = Some e" "2 \<le> length elts"
  shows "gapped (elts[g := None]) g (wrapped (length elts) (Suc g))"
proof -
  let ?n = "length elts"
  have "1 \<le> cdist ?n g i" if "i < ?n" "i \<noteq> g" for i using cdist_zero[of g ?n i] assms(2) that by linarith
  then show ?thesis using assms(1,2,4) wrapped_lt[OF assms(2)] cdist_next[OF assms(2,4)]
    by (auto simp: gapped_def probing_def reached_def nth_list_update)
qed

lemma gapped_end:
  assumes "gapped elts g ii" "elts ! ii = None"
  shows "probing elts"
proof -
  let ?n = "length elts"
  have n: "g < ?n" "ii < ?n" "g \<noteq> ii" "0 < ?n" using assms(1) cdist_zero[of g ?n ii] by (auto simp: gapped_def)
  have "elts ! x \<noteq> None" if i: "i < ?n" "elts ! i = Some (k, v)" and x: "x < ?n" "cdist ?n (home ?n k) x < cdist ?n (home ?n k) i" for i k v x
  proof
    assume "elts ! x = None"
    then have g: "x = g" "cdist ?n g ii \<le> cdist ?n g i" using assms(1) i x unfolding gapped_def by blast+
    have "i \<noteq> ii" using i(2) assms(2) by auto
    then have "cdist ?n (home ?n k) ii < cdist ?n (home ?n k) i"
      using cdist_across[OF home_lt[OF n(4)] n(1) i(1) n(2)] g x(2) by simp
    then show False using assms i n unfolding gapped_def by blast
  qed
  then show ?thesis by (simp add: probing_def reached_def)
qed

lemma gapped_stay:
  assumes "gapped elts g ii" "elts ! ii = Some (k, v)" "reached elts (home (length elts) k) ii" "f < length elts" "elts ! f = None" "f \<noteq> g"
    "cdist (length elts) g ii \<le> cdist (length elts) g f"
  shows "gapped elts g (wrapped (length elts) (Suc ii))"
proof -
  let ?n = "length elts"
  have g: "g < ?n" "ii < ?n" "elts ! g = None" "0 < cdist ?n g ii" using assms(1) by (auto simp: gapped_def)
  have "f \<noteq> ii" using assms(2,5) by auto
  then have "cdist ?n g ii < cdist ?n g f" using assms(4,7) cdist_inj[OF g(1,2) assms(4)] by linarith
  then have s: "cdist ?n g (wrapped ?n (Suc ii)) = Suc (cdist ?n g ii)" by (rule cdist_step[OF g(1,2) assms(4)])
  have "elts ! x \<noteq> None \<or> x = g \<and> Suc (cdist ?n g ii) \<le> cdist ?n g i"
    if i: "i < ?n" "elts ! i = Some (k', v')" and x: "x < ?n" "cdist ?n (home ?n k') x < cdist ?n (home ?n k') i" for i k' v' x
  proof (cases "i = ii")
    case True
    then show ?thesis using assms(2,3) i x by (auto simp: reached_def)
  next
    case False
    then have "cdist ?n g ii \<noteq> cdist ?n g i" using cdist_inj[OF g(1,2) i(1)] by simp
    then show ?thesis using assms(1) i x unfolding gapped_def by (metis Suc_leI le_neq_implies_less)
  qed
  then show ?thesis unfolding gapped_def s using g wrapped_lt[OF g(2)] by auto
qed

lemma gapped_move:
  assumes "gapped elts g ii" "elts ! ii = Some (k, v)" "cdist (length elts) (home (length elts) k) g < cdist (length elts) (home (length elts) k) ii"
    "2 \<le> length elts"
  shows "gapped (elts[g := Some (k, v), ii := None]) ii (wrapped (length elts) (Suc ii))"
proof -
  let ?n = "length elts" and ?e = "elts[g := Some (k, v), ii := None]"
  have g: "g < ?n" "ii < ?n" "elts ! g = None" "g \<noteq> ii" "0 < ?n" using assms(1) cdist_zero[of g ?n ii] by (auto simp: gapped_def)
  have path: "elts ! x \<noteq> None \<or> x = g"
    if "i < ?n" "elts ! i = Some (k', v')" "x < ?n" "cdist ?n (home ?n k') x < cdist ?n (home ?n k') i" for i k' v' x
    using assms(1) that unfolding gapped_def by blast
  have far: "1 \<le> cdist ?n ii i" if "i < ?n" "i \<noteq> ii" for i using cdist_zero[of ii ?n i] g(2) that by linarith
  have "?e ! x \<noteq> None \<or> x = ii \<and> 1 \<le> cdist ?n ii i"
    if i: "i < ?n" "?e ! i = Some (k', v')" and x: "x < ?n" "cdist ?n (home ?n k') x < cdist ?n (home ?n k') i" for i k' v' x
  proof -
    have ni: "i \<noteq> ii" using i(2) g(2) by auto
    show ?thesis
    proof (cases "x = ii")
      case False
      show ?thesis
      proof (cases "i = g")
        case True
        then have "k' = k" using i(2) g by (simp add: nth_list_update)
        then have "elts ! x \<noteq> None \<or> x = g" using path[OF g(2) assms(2) x(1)] x(2) True assms(3) by simp
        then show ?thesis using False g by (auto simp: nth_list_update)
      next
        case i_ne: False
        then have "elts ! i = Some (k', v')" using i(2) ni by simp
        then show ?thesis using path[OF i(1) _ x] False g by (auto simp: nth_list_update)
      qed
    qed (use far[OF i(1) ni] in simp)
  qed
  then show ?thesis unfolding gapped_def using g wrapped_lt[OF g(2)] cdist_next[OF g(2) assms(4)] by auto
qed


lemma close_gap_wrapped: "close_gap m fuel (wrapped (length elts) ii) elts = close_gap m fuel ii elts"
  by (cases fuel) simp_all

text \<open>A follower goes to the gap if it was probed across it, and stays otherwise.\<close>

lemma home_slot_gap:
  assumes "gapped elts g ii" "elts ! ii = Some (k, v)"
  shows "home_slot (hash_key k) ii elts =
    Inr (if cdist (length elts) (home (length elts) k) g < cdist (length elts) (home (length elts) k) ii then g else ii)"
proof -
  let ?n = "length elts" and ?h = "home (length elts) k" and ?stop = "\<lambda>jj. jj = ii \<or> elts ! jj = None"
  have g: "g < ?n" "ii < ?n" "elts ! g = None" "0 < ?n" using assms(1) by (auto simp: gapped_def)
  obtain i where i: "i < ?n" "home_slot (hash_key k) ii elts = Inr i" "?stop i" "\<forall>y < ?n. cdist ?n ?h y < cdist ?n ?h i \<longrightarrow> \<not> ?stop y"
    using scan_start[of ii ?n ?stop, OF g(2) _ g(4), of "hash_key k"] unfolding home_slot_def home_def by auto
  have path: "elts ! x \<noteq> None \<or> x = g" if "x < ?n" "cdist ?n ?h x < cdist ?n ?h ii" for x
    using assms g(2) that unfolding gapped_def by blast
  have "i = (if cdist ?n ?h g < cdist ?n ?h ii then g else ii)"
  proof (cases "i = ii")
    case True
    then show ?thesis using i(4) g by auto
  next
    case False
    then have "elts ! i = None" "\<not> cdist ?n ?h ii < cdist ?n ?h i" using i(3,4) g(2) by auto
    moreover have "cdist ?n ?h ii \<noteq> cdist ?n ?h i" using False cdist_inj[OF home_lt[OF g(4)] g(2) i(1)] by simp
    ultimately show ?thesis using path[OF i(1)] by force
  qed
  then show ?thesis using i(2) by simp
qed

lemma mset_swap_gap:
  assumes "g < length elts" "ii < length elts" "g \<noteq> ii" "elts ! g = None" "elts ! ii = Some e"
  shows "mset (elts[g := Some e, ii := None]) = mset elts"
  using mset_swap[OF assms(1,2)] assms(4,5) by (simp add: list_update_swap[OF assms(3)])

lemma close_gap_spec:
  assumes "gapped elts g ii" "f < length elts" "elts ! f = None" "f \<noteq> g" "cdist (length elts) g ii \<le> cdist (length elts) g f"
    "one_kind m elts" "cdist (length elts) ii f < fuel" "2 \<le> length elts"
  shows "\<exists>t. close_gap m fuel ii elts = Inr t \<and> length t = length elts \<and> mset t = mset elts \<and> probing t"
  using assms
proof (induction fuel arbitrary: elts g ii)
  case (Suc fuel)
  let ?n = "length elts"
  have g: "g < ?n" "ii < ?n" "elts ! g = None" "g \<noteq> ii" using Suc.prems(1) cdist_zero[of g ?n ii] by (auto simp: gapped_def)
  show ?case
  proof (cases "elts ! ii")
    case None
    then show ?thesis using gapped_end[OF Suc.prems(1) None] g(2) by simp
  next
    case (Some kv)
    then obtain k v where kv: "elts ! ii = Some (k, v)" by (cases kv) auto
    have fi: "f \<noteq> ii" using kv Suc.prems(3) by auto
    have h: "hash_elt m k = Inr (hash_key k)" using Suc.prems(6) kv g(2) entries_in[of "(k, v)" elts] by (fastforce simp: one_kind_def hash_elt_def)
    let ?ii = "wrapped ?n (Suc ii)"
    have "cdist ?n ii f \<noteq> 0" using cdist_zero[OF g(2) Suc.prems(2)] fi by simp
    then have fuel: "cdist ?n ?ii f < fuel" using Suc.prems(2,7) g(2) by (auto simp: cdist_def wrapped_def split: if_splits)
    have n: "1 \<le> cdist ?n ii f" using \<open>cdist ?n ii f \<noteq> 0\<close> by simp
    show ?thesis
    proof (cases "cdist ?n (home ?n k) g < cdist ?n (home ?n k) ii")
      case True
      let ?e = "elts[g := Some (k, v), ii := None]"
      have e: "mset ?e = mset elts" by (rule mset_swap_gap[OF g(1,2,4,3) kv])
      have "?e ! f = None" using Suc.prems(3,4) fi by simp
      moreover have "one_kind m ?e" using Suc.prems(6) one_kind_cong[OF entries_cong[OF e]] by simp
      ultimately obtain t where "close_gap m fuel ?ii ?e = Inr t" "length t = ?n" "mset t = mset elts" "probing t"
        using Suc.IH[OF gapped_move[OF Suc.prems(1) kv True Suc.prems(8), unfolded length_list_update[symmetric, of elts]]]
          Suc.prems(2,8) fi fuel cdist_next[OF g(2) Suc.prems(8)] n e by (auto simp: length_list_update)
      then show ?thesis using close_gap_wrapped[of m fuel ?e "Suc ii"] kv h home_slot_gap[OF Suc.prems(1) kv] True g
        by (intro exI[of _ t]) simp
    next
      case False
      have "reached elts (home ?n k) ii" 
        unfolding reached_def using Suc.prems(1) kv g(2) False unfolding gapped_def by blast
      then have "gapped elts g ?ii" using Suc.prems kv by (intro gapped_stay) 
      moreover have "cdist ?n g ?ii \<le> cdist ?n g f"
        using cdist_step[OF g(1,2) Suc.prems(2)] Suc.prems(5) cdist_inj[OF g(1,2) Suc.prems(2)] fi by linarith
      ultimately obtain t where "close_gap m fuel ?ii elts = Inr t" "length t = ?n" "mset t = mset elts" "probing t"
        using Suc.IH[of elts g ?ii] Suc.prems fuel by blast
      then show ?thesis using close_gap_wrapped[of m fuel elts "Suc ii"] kv h home_slot_gap[OF Suc.prems(1) kv] False g
        by (intro exI[of _ t]) simp
    qed
  qed
qed simp


section \<open>The operations\<close>

text \<open>
  A table as \<^verbatim>\<open>opal_hash_table_init\<close> makes it and as successful operations leave it: full at
  half its capacity, growing to twice, and with a slot to spare.
\<close>

definition ht_ok :: "'v opal_hash_table \<Rightarrow> bool" where
  "ht_ok ht \<longleftrightarrow>
     length (ht_table ht) = ht_capacity ht \<and> ht_capacity ht * 32 < 2 ^ 64 \<and>
     ht_size ht = length (entries (ht_table ht)) \<and> ht_size ht < ht_capacity ht \<and> ht_growth_trigger ht = ht_capacity ht div 2 \<and>
     ht_density_numer ht = 1 \<and> ht_density_denom ht = 2 \<and> ht_growth_numer ht = 2 \<and> ht_growth_denom ht = 1 \<and>
     elts_ok (ht_type_methods ht) (ht_table ht)"

definition ht_map :: "'v opal_hash_table \<Rightarrow> ht_key \<rightharpoonup> 'v" where
  "ht_map ht = elts_map (ht_table ht)"

text \<open>A key that fits the keys of the table.\<close>

definition fits :: "ht_key \<Rightarrow> 'v opal_hash_table \<Rightarrow> bool" where
  "fits key ht \<longleftrightarrow> ht_type_methods ht = None \<or> ht_type_methods ht = Some (methods_of key)"

lemma ht_ok_usable: "ht_ok ht \<Longrightarrow> fits key ht \<Longrightarrow> usable debug e key ht = None"
  by (auto simp: usable_def ht_ok_def fits_def)

lemma ht_ok_typed: "ht_ok ht \<Longrightarrow> fits key ht \<Longrightarrow> ht_ok (ht\<lparr>ht_type_methods := Some (methods_of key)\<rparr>)"
  by (auto simp: ht_ok_def fits_def elts_ok_def one_kind_def)

lemma search_spec:
  assumes "ht_ok ht" "ht_type_methods ht = Some (methods_of key)"
  obtains i where "i < length (ht_table ht)" "search key ht = Inr i" "reached (ht_table ht) (home (length (ht_table ht)) key) i"
    "(ht_table ht ! i = None \<and> ht_map ht key = None) \<or> (\<exists>v. ht_table ht ! i = Some (key, v) \<and> ht_map ht key = Some v)"
proof -
  have "elts_ok (Some (methods_of key)) (ht_table ht)" "length (entries (ht_table ht)) < length (ht_table ht)"
    using assms by (simp_all add: ht_ok_def)
  then obtain i where i: "i < length (ht_table ht)" "probe key (ht_table ht) = Inr i" "reached (ht_table ht) (home (length (ht_table ht)) key) i"
    "(ht_table ht ! i = None \<and> elts_map (ht_table ht) key = None) \<or> (\<exists>v. ht_table ht ! i = Some (key, v) \<and> elts_map (ht_table ht) key = Some v)"
    by (rule probe_spec)
  moreover have "search key ht = probe key (ht_table ht)" using assms(1) by (simp add: search_def ht_ok_def)
  ultimately show ?thesis using that by (simp add: ht_map_def)
qed

lemma get_value_spec:
  assumes "ht_ok ht" "fits key ht"
  shows "get_value debug key ht =
    (case ht_map ht key of None \<Rightarrow> Inl OPAL_ERR_NOT_FOUND | Some v \<Rightarrow> Inr v, ht\<lparr>ht_type_methods := Some (methods_of key)\<rparr>)"
proof -
  let ?ht = "ht\<lparr>ht_type_methods := Some (methods_of key)\<rparr>"
  have m: "ht_map ?ht = ht_map ht" by (simp add: ht_map_def)
  obtain i where "search key ?ht = Inr i"
    "(ht_table ?ht ! i = None \<and> ht_map ?ht key = None) \<or> (\<exists>v. ht_table ?ht ! i = Some (key, v) \<and> ht_map ?ht key = Some v)"
    by (rule search_spec[OF ht_ok_typed[OF assms]]) simp
  then show ?thesis using ht_ok_usable[OF assms] m by (auto simp: get_value_def)
qed

lemma round_up:
  assumes "n < 2 ^ 60"
  shows "n < opal_hash_round_capacity_up n" "opal_hash_round_capacity_up n \<le> n + 30"
  using assms by (auto simp: opal_hash_round_capacity_up_def sz_add_def sz_mul_def)

lemma grow_spec:
  assumes "length (ht_table ht) = ht_capacity ht" "ht_capacity ht * 32 < 2 ^ 64" "ht_size ht = length (entries (ht_table ht))"
    "ht_size ht \<le> ht_capacity ht" "ht_density_numer ht = 1" "ht_density_denom ht = 2" "ht_growth_numer ht = 2" "ht_growth_denom ht = 1"
    "elts_ok (ht_type_methods ht) (ht_table ht)" "opal_hash_grow heap ht = (rc, ht')"
  shows "rc = Some OPAL_ERR_OUT_OF_RESOURCE \<and> ht' = ht \<and> \<not> calloc_elts heap (opal_hash_round_capacity_up (ht_capacity ht * 2)) \<or>
    rc = None \<and> ht_ok ht' \<and> ht_map ht' = ht_map ht \<and> ht_size ht' = ht_size ht \<and> ht_type_methods ht' = ht_type_methods ht"
proof -
  let ?n = "opal_hash_round_capacity_up (ht_capacity ht * 2)" and ?m = "ht_type_methods ht"
  have c: "ht_capacity ht < 2 ^ 59" using assms(2) by simp
  then have n: "ht_capacity ht * 2 < ?n" using round_up[of "ht_capacity ht * 2"] by simp
  have g: "opal_hash_grow heap ht =
      (if \<not> calloc_elts heap ?n then (Some OPAL_ERR_OUT_OF_RESOURCE, ht)
       else case reinsert ?m (ht_table ht) (replicate ?n None) of Inl e \<Rightarrow> (Some e, ht)
            | Inr t \<Rightarrow> (None, ht\<lparr>ht_table := t, ht_capacity := ?n, ht_growth_trigger := sz_mul ?n 1 div 2\<rparr>))"
    using assms(5-8) c by (simp add: opal_hash_grow_def Let_def sz_mul_def cong: sum.case_cong)
  show ?thesis
  proof (cases "calloc_elts heap ?n")
    case True
    have ok: "elts_ok ?m (replicate ?n None)" by (simp add: elts_ok_def probing_def one_kind_def)
    have "distinct (map fst (entries (ht_table ht) @ entries (replicate ?n None)))" "one_kind ?m (ht_table ht)"
      "length (entries (ht_table ht)) + length (entries (replicate ?n None)) < length (replicate ?n None)"
      using assms(3,4,9) n by (simp_all add: elts_ok_def)
    from reinsert_spec[OF ok this] obtain t where t: "reinsert ?m (ht_table ht) (replicate ?n None) = Inr t" "length t = ?n" "elts_ok ?m t"
      "mset (entries t) = mset (entries (ht_table ht))" by auto
    have b: "?n * 32 < 2 ^ 64" using True by (simp add: calloc_elts_def)
    have r: "rc = None" "ht' = ht\<lparr>ht_table := t, ht_capacity := ?n, ht_growth_trigger := ?n div 2\<rparr>"
      using assms(10) True t(1) b by (auto simp: g sz_mul_def)
    have "length (entries t) = ht_size ht" using arg_cong[OF t(4), of size] assms(3) by simp
    then have "ht_ok ht'" using r(2) t(2,3) b n assms(4-8) by (simp add: ht_ok_def)
    moreover have "ht_map ht' = ht_map ht" using r(2) elts_map_cong[OF t(4)] t(3) by (simp add: ht_map_def elts_ok_def)
    ultimately show ?thesis using r by simp
  qed (use assms(10) g in simp)
qed

text \<open>
  Setting a value: the table has it afterwards, also when the table should have grown and the
  allocation failed.  With memory for the growth it succeeds.
\<close>

lemma set_value_spec:
  assumes "ht_ok ht" "fits key ht" "key_copied heap key" "set_value heap debug key v ht = (rc, ht')"
  shows "ht_map ht' = (ht_map ht)(key \<mapsto> v) \<and> ht_type_methods ht' = Some (methods_of key) \<and> ht_size ht' \<le> Suc (ht_size ht) \<and>
    (rc = None \<and> ht_ok ht' \<or>
     rc = Some OPAL_ERR_OUT_OF_RESOURCE \<and> ht_capacity ht div 2 \<le> Suc (ht_size ht) \<and>
       \<not> calloc_elts heap (opal_hash_round_capacity_up (ht_capacity ht * 2)) \<and> ht_capacity ht' = ht_capacity ht \<and>
       length (ht_table ht') = ht_capacity ht \<and> length (entries (ht_table ht')) = Suc (ht_size ht) \<and>
       elts_ok (Some (methods_of key)) (ht_table ht'))"
proof -
  let ?ht = "ht\<lparr>ht_type_methods := Some (methods_of key)\<rparr>"
  note ok = ht_ok_typed[OF assms(1,2)]
  let ?es = "ht_table ht"
  have e: "elts_ok (Some (methods_of key)) ?es" "length ?es = ht_capacity ht" "ht_capacity ht * 32 < 2 ^ 64"
    "ht_size ht = length (entries ?es)" "ht_size ht < ht_capacity ht" using ok by (simp_all add: ht_ok_def)
  obtain i where i: "i < length ?es" "search key ?ht = Inr i" "reached ?es (home (length ?es) key) i"
    "(?es ! i = None \<and> ht_map ht key = None) \<or> (\<exists>w. ?es ! i = Some (key, w))"
    by (rule search_spec[OF ok]) (auto simp: ht_map_def)
  let ?t = "?ht\<lparr>ht_table := ?es[i := Some (key, v)]\<rparr>"
  show ?thesis
  proof (cases "?es ! i = None")
    case False
    then obtain w where w: "?es ! i = Some (key, w)" using i(4) by auto
    note rep = elts_replace[OF e(1) i(1) w, of v]
    have "(rc, ht') = (None, ?t)" using assms(3,4) ht_ok_usable[OF assms(1,2)] i(2) w by (simp add: set_value_def Let_def)
    then show ?thesis using rep e ok by (simp add: ht_ok_def ht_map_def)
  next
    case True
    have sz: "sz_add (ht_size ht) 1 = Suc (ht_size ht)" using e(3,5) by simp
    let ?s = "?t\<lparr>ht_size := Suc (ht_size ht)\<rparr>"
    have none: "elts_map ?es key = None" using i(4) True by (auto simp: ht_map_def)
    note fill = elts_fill[OF e(1) refl i(1) True i(3) none, of v]
    have res: "set_value heap debug key v ht = (if ht_capacity ht div 2 \<le> Suc (ht_size ht) then opal_hash_grow heap ?s else (None, ?s))"
      using assms(1,3) ht_ok_usable[OF assms(1,2)] i(2) True sz by (simp add: set_value_def Let_def ht_ok_def)
    show ?thesis
    proof (cases "ht_capacity ht div 2 \<le> Suc (ht_size ht)")
      case False
      then have "rc = None" "ht' = ?s" using res assms(4) by simp_all
      then show ?thesis using False fill e ok by (simp add: ht_ok_def ht_map_def)
    next
      case big: True
      have "opal_hash_grow heap ?s = (rc, ht')" using res big assms(4) by simp
      from grow_spec[OF _ _ _ _ _ _ _ _ _ this] have "rc = Some OPAL_ERR_OUT_OF_RESOURCE \<and> ht' = ?s \<and>
          \<not> calloc_elts heap (opal_hash_round_capacity_up (ht_capacity ht * 2)) \<or>
          rc = None \<and> ht_ok ht' \<and> ht_map ht' = ht_map ?s \<and> ht_size ht' = ht_size ?s \<and> ht_type_methods ht' = ht_type_methods ?s"
        using fill e ok by (simp add: ht_ok_def)
      then show ?thesis using fill e(2,4) big by (auto simp: ht_map_def)
    qed
  qed
qed

text \<open>Removing a key.\<close>

lemma elts_remove:
  assumes "elts_ok m elts" "length (entries elts) < length elts" "i < length elts" "elts ! i = Some (k, v)"
  shows "\<exists>t. close_gap m (length elts) (Suc i) (elts[i := None]) = Inr t \<and> length t = length elts \<and> elts_ok m t \<and>
    elts_map t = (elts_map elts)(k := None) \<and> Suc (length (entries t)) = length (entries elts)"
proof -
  let ?n = "length elts" and ?g = "elts[i := None]"
  obtain f where f: "f < ?n" "elts ! f = None" using has_room[OF assms(2)] by blast
  then have fi: "f \<noteq> i" using assms(4) by auto
  then have n2: "2 \<le> ?n" using f(1) assms(3) by linarith
  have g: "mset (entries elts) = add_mset (k, v) (mset (entries ?g))" using entries_drop[OF assms(3,4)] by simp
  have kinds: "one_kind m ?g" using assms(1) one_kind_add[OF g] unfolding elts_ok_def by blast
  have keys: "distinct (map fst (entries ?g))" "k \<notin> fst ` set (entries ?g)" using assms(1) keys_add[OF g] by (simp_all add: elts_ok_def)
  have "gapped ?g i (wrapped ?n (Suc i))" using assms gapped_start[OF _ assms(3,4) n2] by (simp add: elts_ok_def)
  moreover have "cdist ?n i (wrapped ?n (Suc i)) \<le> cdist ?n i f"
    using cdist_next[OF assms(3) n2] cdist_zero[OF assms(3) f(1)] fi by linarith
  moreover have "cdist ?n (wrapped ?n (Suc i)) f < ?n" using wrapped_lt[OF assms(3)] f(1) by (auto simp: cdist_def)
  ultimately obtain t where t: "close_gap m ?n (wrapped ?n (Suc i)) ?g = Inr t" "length t = ?n" "mset t = mset ?g" "probing t"
    using close_gap_spec[of ?g i "wrapped ?n (Suc i)" f m ?n] f fi kinds n2 by auto
  note e = entries_cong[OF t(3)]
  have ok: "elts_ok m t" using t(4) kinds keys one_kind_cong[OF e] distinct_keys_cong[OF e] by (simp add: elts_ok_def)
  have "elts_map elts = (elts_map ?g)(k \<mapsto> v)" using elts_map_add[OF g] assms(1) by (simp add: elts_ok_def)
  moreover have "elts_map ?g k = None" using keys(2) by (simp add: elts_map_None)
  ultimately have "elts_map t = (elts_map elts)(k := None)" using elts_map_cong[OF e] ok by (auto simp: elts_ok_def fun_eq_iff)
  then show ?thesis using t(1,2) ok arg_cong[OF e, of size] arg_cong[OF g, of size] close_gap_wrapped[of m ?n ?g "Suc i"]
    by (intro exI[of _ t]) simp
qed

lemma remove_value_spec:
  assumes "ht_ok ht" "fits key ht"
  shows "\<exists>ht'. remove_value debug key ht = (if ht_map ht key = None then Some OPAL_ERR_NOT_FOUND else None, ht') \<and>
    ht_ok ht' \<and> ht_map ht' = (ht_map ht)(key := None) \<and> ht_type_methods ht' = Some (methods_of key) \<and> ht_size ht' \<le> ht_size ht"
proof -
  let ?ht = "ht\<lparr>ht_type_methods := Some (methods_of key)\<rparr>" and ?es = "ht_table ht"
  note ok = ht_ok_typed[OF assms]
  have e: "elts_ok (Some (methods_of key)) ?es" "length (entries ?es) < length ?es" using ok by (simp_all add: ht_ok_def)
  obtain i where i: "i < length ?es" "search key ?ht = Inr i"
    "(?es ! i = None \<and> ht_map ht key = None) \<or> (\<exists>w. ?es ! i = Some (key, w) \<and> ht_map ht key = Some w)"
    by (rule search_spec[OF ok]) (auto simp: ht_map_def)
  show ?thesis
  proof (cases "?es ! i = None")
    case True
    then have none: "ht_map ht key = None" using i(3) by auto
    then have "(ht_map ht)(key := None) = ht_map ht" by auto
    then show ?thesis using True none ht_ok_usable[OF assms] i(2) ok by (simp add: remove_value_def ht_map_def)
  next
    case False
    then obtain w where w: "?es ! i = Some (key, w)" "ht_map ht key = Some w" using i(3) by auto
    obtain t where t: "close_gap (Some (methods_of key)) (length ?es) (Suc i) (?es[i := None]) = Inr t" "length t = length ?es"
      "elts_ok (Some (methods_of key)) t" "elts_map t = (elts_map ?es)(key := None)" "Suc (length (entries t)) = length (entries ?es)"
      using elts_remove[OF e i(1) w(1)] by blast
    have "int (ht_size ht) - 1 = int (length (entries t))" "length (entries t) < 2 ^ 64" using ok t(5) by (simp_all add: ht_ok_def)
    then have sz: "to_size_t (int (ht_size ht) - 1) = length (entries t)" by simp
    have "remove_value debug key ht = (None, ?ht\<lparr>ht_table := t, ht_size := length (entries t)\<rparr>)"
      using w(1) ht_ok_usable[OF assms] i(2) t(1) sz by (simp add: remove_value_def opal_hash_table_remove_elt_at_def Let_def)
    then show ?thesis using t ok w(2) by (simp add: ht_ok_def ht_map_def)
  qed
qed

lemma init_spec:
  assumes "opal_hash_table_init heap opal_hash_table_construct n = (None, ht)"
  shows "ht_ok ht" "ht_map ht = Map.empty" "ht_type_methods ht = None" "ht_size ht = 0"
proof -
  let ?c = "opal_hash_round_capacity_up (sz_mul n 2 div 1)"
  have c: "calloc_elts heap ?c" and ht: "ht = opal_hash_table_construct\<lparr>ht_table := replicate ?c None, ht_capacity := ?c,
      ht_density_numer := 1, ht_density_denom := 2, ht_growth_numer := 2, ht_growth_denom := 1,
      ht_growth_trigger := sz_mul ?c 1 div 2, ht_type_methods := None\<rparr>"
    using assms by (auto simp: opal_hash_table_init_def opal_hash_table_init2_def Let_def split: if_splits)
  have "0 < ?c"
  proof -
    have "even (sz_mul (sz_add (sz_mul n 2 div 1) 29 div 30) 30)" unfolding sz_mul_def by (simp add: dvd_mod_iff)
    then have "\<not> 2 ^ 64 dvd sz_mul (sz_add (sz_mul n 2 div 1) 29 div 30) 30 + 1"
      by (metis dvd_power dvd_trans even_plus_one_iff zero_less_numeral)
    then show ?thesis unfolding opal_hash_round_capacity_up_def sz_add_def[of _ 1] by (metis dvd_eq_mod_eq_0 gr0I)
  qed
  then show "ht_ok ht" using c by (auto simp: ht ht_ok_def calloc_elts_def elts_ok_def probing_def one_kind_def sz_mul_def opal_hash_table_construct_def)
  show "ht_map ht = Map.empty" "ht_type_methods ht = None" "ht_size ht = 0"
    by (simp_all add: ht ht_map_def elts_map_def opal_hash_table_construct_def)
qed

section \<open>Tables as maps\<close>

text \<open>What a user of a table can do, and what comes back.\<close>

datatype ('k, 'v) table_op = Get 'k | Put 'k 'v | Del 'k

datatype 'v table_result = Got "opal_err + 'v" | Done "opal_err option"

fun run_table :: "('k \<Rightarrow> 't \<Rightarrow> (opal_err + 'v) \<times> 't) \<Rightarrow> ('k \<Rightarrow> 'v \<Rightarrow> 't \<Rightarrow> opal_err option \<times> 't) \<Rightarrow>
    ('k \<Rightarrow> 't \<Rightarrow> opal_err option \<times> 't) \<Rightarrow> ('k, 'v) table_op list \<Rightarrow> 't \<Rightarrow> 'v table_result list \<times> 't" where
  "run_table get put del [] t = ([], t)"
| "run_table get put del (x # ops) t =
     (let (r, t) = (case x of Get k \<Rightarrow> apfst Got (get k t) | Put k v \<Rightarrow> apfst Done (put k v t) | Del k \<Rightarrow> apfst Done (del k t));
          (rs, t) = run_table get put del ops t
      in (r # rs, t))"

text \<open>The same on a map: no operation fails but looking up or removing a key that is missing.\<close>

definition found :: "'v option \<Rightarrow> opal_err + 'v" where
  "found v = (case v of None \<Rightarrow> Inl OPAL_ERR_NOT_FOUND | Some v \<Rightarrow> Inr v)"

definition map_get :: "'k \<Rightarrow> ('k \<rightharpoonup> 'v) \<Rightarrow> (opal_err + 'v) \<times> ('k \<rightharpoonup> 'v)" where
  "map_get k m = (found (m k), m)"

definition map_put :: "'k \<Rightarrow> 'v \<Rightarrow> ('k \<rightharpoonup> 'v) \<Rightarrow> opal_err option \<times> ('k \<rightharpoonup> 'v)" where
  "map_put k v m = (None, m(k \<mapsto> v))"

definition map_del :: "'k \<Rightarrow> ('k \<rightharpoonup> 'v) \<Rightarrow> opal_err option \<times> ('k \<rightharpoonup> 'v)" where
  "map_del k m = (if m k = None then Some OPAL_ERR_NOT_FOUND else None, m(k := None))"

abbreviation run_map :: "('k, 'v) table_op list \<Rightarrow> ('k \<rightharpoonup> 'v) \<Rightarrow> 'v table_result list \<times> ('k \<rightharpoonup> 'v)" where
  "run_map \<equiv> run_table map_get map_put map_del"

text \<open>
  What a table promises: its operations act as those of a map, as long as it holds fewer than
  \<^verbatim>\<open>2 ^ 50\<close> entries.
\<close>

locale keyed_table =
  fixes inv :: "'t \<Rightarrow> bool" and entry :: "'t \<Rightarrow> 'k \<rightharpoonup> 'v" and used :: "'t \<Rightarrow> nat"
    and get :: "'k \<Rightarrow> 't \<Rightarrow> (opal_err + 'v) \<times> 't" and put :: "'k \<Rightarrow> 'v \<Rightarrow> 't \<Rightarrow> opal_err option \<times> 't"
    and del :: "'k \<Rightarrow> 't \<Rightarrow> opal_err option \<times> 't"
  assumes get_law: "inv t \<Longrightarrow> \<exists>t'. get k t = (found (entry t k), t') \<and> inv t' \<and> entry t' = entry t \<and> used t' \<le> used t"
    and put_law: "inv t \<Longrightarrow> used t < 2 ^ 50 \<Longrightarrow>
      \<exists>t'. put k v t = (None, t') \<and> inv t' \<and> entry t' = (entry t)(k \<mapsto> v) \<and> used t' \<le> Suc (used t)"
    and del_law: "inv t \<Longrightarrow> \<exists>t'. del k t = (if entry t k = None then Some OPAL_ERR_NOT_FOUND else None, t') \<and>
      inv t' \<and> entry t' = (entry t)(k := None) \<and> used t' \<le> used t"
begin

lemma op_law:
  assumes "inv t" "used t < 2 ^ 50"
  shows "\<exists>r t'. (case x of Get k \<Rightarrow> apfst Got (get k t) | Put k v \<Rightarrow> apfst Done (put k v t) | Del k \<Rightarrow> apfst Done (del k t)) = (r, t') \<and>
    (case x of Get k \<Rightarrow> apfst Got (map_get k (entry t)) | Put k v \<Rightarrow> apfst Done (map_put k v (entry t))
       | Del k \<Rightarrow> apfst Done (map_del k (entry t))) = (r, entry t') \<and> inv t' \<and> used t' \<le> Suc (used t)"
proof (cases x)
  case (Get k)
  then show ?thesis using get_law[OF assms(1), of k] by (fastforce simp: map_get_def)
next
  case (Put k v)
  then show ?thesis using put_law[OF assms, of k v] by (fastforce simp: map_put_def)
next
  case (Del k)
  then show ?thesis using del_law[OF assms(1), of k] by (fastforce simp: map_del_def)
qed

lemma runs_as_map:
  assumes "inv t" "used t + length ops \<le> 2 ^ 50"
  shows "\<exists>t'. run_table get put del ops t = (fst (run_map ops (entry t)), t') \<and> inv t' \<and> entry t' = snd (run_map ops (entry t))"
  using assms
proof (induction ops arbitrary: t)
  case (Cons x ops)
  then have "used t < 2 ^ 50" by simp
  then obtain r t1 where t1: "(case x of Get k \<Rightarrow> apfst Got (get k t) | Put k v \<Rightarrow> apfst Done (put k v t) | Del k \<Rightarrow> apfst Done (del k t)) = (r, t1)"
    "(case x of Get k \<Rightarrow> apfst Got (map_get k (entry t)) | Put k v \<Rightarrow> apfst Done (map_put k v (entry t))
       | Del k \<Rightarrow> apfst Done (map_del k (entry t))) = (r, entry t1)" "inv t1" "used t1 \<le> Suc (used t)"
    using op_law[OF Cons.prems(1)] by blast
  obtain t' where "run_table get put del ops t1 = (fst (run_map ops (entry t1)), t')" "inv t'" "entry t' = snd (run_map ops (entry t1))"
    using Cons.IH[OF t1(3)] t1(4) Cons.prems(2) by auto
  then show ?case using t1(1,2) by (simp split: prod.split)
qed simp

end

section \<open>The three kinds of table\<close>

text \<open>A table for one kind of keys, with memory to grow.\<close>

definition ht_inv :: "(nat \<Rightarrow> bool) \<Rightarrow> ht_methods \<Rightarrow> 'v opal_hash_table \<Rightarrow> bool" where
  "ht_inv heap m ht \<longleftrightarrow> ht_ok ht \<and> (ht_type_methods ht = None \<or> ht_type_methods ht = Some m) \<and> (\<forall>n. heap n)"

lemma set_value_succeeds:
  assumes "ht_inv heap (methods_of key) ht" "ht_size ht < 2 ^ 50"
  shows "\<exists>ht'. set_value heap debug key v ht = (None, ht') \<and> ht_inv heap (methods_of key) ht' \<and>
    ht_map ht' = (ht_map ht)(key \<mapsto> v) \<and> ht_size ht' \<le> Suc (ht_size ht)"
proof -
  obtain rc ht' where r: "set_value heap debug key v ht = (rc, ht')" by fastforce
  have ok: "ht_ok ht" "fits key ht" "\<And>n. heap n" using assms(1) by (auto simp: ht_inv_def fits_def)
  then have cp: "key_copied heap key" by (cases key) simp_all
  have "calloc_elts heap (opal_hash_round_capacity_up (ht_capacity ht * 2))" if "ht_capacity ht div 2 \<le> Suc (ht_size ht)"
  proof -
    have "ht_capacity ht \<le> 2 ^ 52" using that assms(2) by simp
    then show ?thesis using round_up[of "ht_capacity ht * 2"] ok(3) by (auto simp: calloc_elts_def)
  qed
  then show ?thesis using set_value_spec[OF ok(1,2) cp r] r ok(3) by (auto simp: ht_inv_def)
qed

lemma get_value_inv:
  "ht_inv heap (methods_of key) ht \<Longrightarrow> \<exists>ht'. get_value debug key ht = (found (ht_map ht key), ht') \<and> ht_inv heap (methods_of key) ht' \<and>
    ht_map ht' = ht_map ht \<and> ht_size ht' \<le> ht_size ht"
  using get_value_spec[of ht key debug] ht_ok_typed[of ht key] by (auto simp: ht_inv_def fits_def found_def ht_map_def)

lemma remove_value_inv:
  "ht_inv heap (methods_of key) ht \<Longrightarrow> \<exists>ht'. remove_value debug key ht = (if ht_map ht key = None then Some OPAL_ERR_NOT_FOUND else None, ht') \<and>
    ht_inv heap (methods_of key) ht' \<and> ht_map ht' = (ht_map ht)(key := None) \<and> ht_size ht' \<le> ht_size ht"
  using remove_value_spec[of ht key debug] by (auto simp: ht_inv_def fits_def)

lemma keyed_by:
  assumes "inj K" "\<And>k. methods_of (K k) = m"
  shows "keyed_table (ht_inv heap m :: 'v opal_hash_table \<Rightarrow> bool) (\<lambda>t k. ht_map t (K k)) ht_size (\<lambda>k t. get_value debug (K k) t)
    (\<lambda>k v t. set_value heap debug (K k) v t) (\<lambda>k t. remove_value debug (K k) t)"
proof
  fix t :: "'v opal_hash_table" and k v assume i: "ht_inv heap m t"
  have K: "K a = K b \<longleftrightarrow> a = b" for a b using assms(1) by (simp add: inj_eq)
  show "\<exists>t'. get_value debug (K k) t = (found (ht_map t (K k)), t') \<and> ht_inv heap m t' \<and>
      (\<lambda>k. ht_map t' (K k)) = (\<lambda>k. ht_map t (K k)) \<and> ht_size t' \<le> ht_size t"
    using get_value_inv[of heap "K k" t debug] i by (auto simp: assms(2))
  show "\<exists>t'. remove_value debug (K k) t = (if ht_map t (K k) = None then Some OPAL_ERR_NOT_FOUND else None, t') \<and>
      ht_inv heap m t' \<and> (\<lambda>k. ht_map t' (K k)) = (\<lambda>k. ht_map t (K k))(k := None) \<and> ht_size t' \<le> ht_size t"
    using remove_value_inv[of heap "K k" t debug] i by (force simp: assms(2) fun_eq_iff K)
  assume "ht_size t < 2 ^ 50"
  then show "\<exists>t'. set_value heap debug (K k) v t = (None, t') \<and> ht_inv heap m t' \<and>
      (\<lambda>k. ht_map t' (K k)) = (\<lambda>k. ht_map t (K k))(k \<mapsto> v) \<and> ht_size t' \<le> Suc (ht_size t)"
    using set_value_succeeds[of heap "K k" t debug v] i by (force simp: assms(2) fun_eq_iff K)
qed

interpretation ht32: keyed_table "ht_inv heap methods_uint32" "\<lambda>t k. ht_map t (K32 k)" ht_size
  "\<lambda>k t. opal_hash_table_get_value_uint32 debug t k" "\<lambda>k v t. opal_hash_table_set_value_uint32 heap debug t k v"
  "\<lambda>k t. opal_hash_table_remove_value_uint32 debug t k" for heap debug
  unfolding opal_hash_table_get_value_uint32_def opal_hash_table_set_value_uint32_def opal_hash_table_remove_value_uint32_def
  by (rule keyed_by) (simp_all add: inj_def)

interpretation ht64: keyed_table "ht_inv heap methods_uint64" "\<lambda>t k. ht_map t (K64 k)" ht_size
  "\<lambda>k t. opal_hash_table_get_value_uint64 debug t k" "\<lambda>k v t. opal_hash_table_set_value_uint64 heap debug t k v"
  "\<lambda>k t. opal_hash_table_remove_value_uint64 debug t k" for heap debug
  unfolding opal_hash_table_get_value_uint64_def opal_hash_table_set_value_uint64_def opal_hash_table_remove_value_uint64_def
  by (rule keyed_by) (simp_all add: inj_def)

interpretation htptr: keyed_table "ht_inv heap methods_ptr" "\<lambda>t k. ht_map t (KPtr k)" ht_size
  "\<lambda>k t. opal_hash_table_get_value_ptr debug t k" "\<lambda>k v t. opal_hash_table_set_value_ptr heap debug t k v"
  "\<lambda>k t. opal_hash_table_remove_value_ptr debug t k" for heap debug
  unfolding opal_hash_table_get_value_ptr_def opal_hash_table_set_value_ptr_def opal_hash_table_remove_value_ptr_def
  by (rule keyed_by) (simp_all add: inj_def)

lemma init_succeeds:
  assumes "\<forall>n. heap n" "table_size \<le> 2 ^ 50"
  shows "\<exists>ht :: 'v opal_hash_table. opal_hash_table_init heap opal_hash_table_construct table_size = (None, ht) \<and> ht_inv heap m ht \<and> ht_map ht = Map.empty \<and> ht_size ht = 0"
proof -
  have "calloc_elts heap (opal_hash_round_capacity_up (table_size * 2))"
    using round_up[of "table_size * 2"] assms by (auto simp: calloc_elts_def)
  then have "\<exists>ht :: 'v opal_hash_table. opal_hash_table_init heap opal_hash_table_construct table_size = (None, ht)"
    using assms(2) by (simp add: opal_hash_table_init_def opal_hash_table_init2_def Let_def)
  then show ?thesis using init_spec[of heap table_size] assms(1) by (auto simp: ht_inv_def)
qed

text \<open>
  C4: The hash table is a finite map.  With memory for its growth, any sequence of lookups,
  insertions and removals on a new table, with integer or pointer keys and in debugging builds or not, gives what
  the same sequence gives on a map: every search ends, insertion never fails, a lookup
  returns the value stored last, and removal and growth lose no other key.
\<close>

theorem hash_table_refines:
  assumes "\<forall>n. heap n" "table_size \<le> 2 ^ 50"
  shows "\<exists>ht :: 'v opal_hash_table. opal_hash_table_init heap opal_hash_table_construct table_size = (None, ht) \<and>
    (\<forall>ops. length ops \<le> 2 ^ 50 \<longrightarrow>
       fst (run_table (\<lambda>k t. opal_hash_table_get_value_uint32 debug t k) (\<lambda>k v t. opal_hash_table_set_value_uint32 heap debug t k v)
              (\<lambda>k t. opal_hash_table_remove_value_uint32 debug t k) ops ht) = fst (run_map ops Map.empty)) \<and>
    (\<forall>ops. length ops \<le> 2 ^ 50 \<longrightarrow>
       fst (run_table (\<lambda>k t. opal_hash_table_get_value_uint64 debug t k) (\<lambda>k v t. opal_hash_table_set_value_uint64 heap debug t k v)
              (\<lambda>k t. opal_hash_table_remove_value_uint64 debug t k) ops ht) = fst (run_map ops Map.empty)) \<and>
    (\<forall>ops. length ops \<le> 2 ^ 50 \<longrightarrow>
       fst (run_table (\<lambda>k t. opal_hash_table_get_value_ptr debug t k) (\<lambda>k v t. opal_hash_table_set_value_ptr heap debug t k v)
              (\<lambda>k t. opal_hash_table_remove_value_ptr debug t k) ops ht) = fst (run_map ops Map.empty))"
proof -
  obtain ht :: "'v opal_hash_table" where ht: "opal_hash_table_init heap opal_hash_table_construct table_size = (None, ht)" "ht_map ht = Map.empty" "ht_size ht = 0"
    using init_succeeds[where ?'v = 'v, OF assms, where m = methods_ptr] by blast
  have inv: "ht_inv heap m ht" for m using init_succeeds[where ?'v = 'v, OF assms, where m = m] ht(1) by auto
  have "fst (run_table (\<lambda>k t. opal_hash_table_get_value_uint32 debug t k) (\<lambda>k v t. opal_hash_table_set_value_uint32 heap debug t k v)
      (\<lambda>k t. opal_hash_table_remove_value_uint32 debug t k) ops ht) = fst (run_map ops Map.empty)" if "length ops \<le> 2 ^ 50" for ops
    using ht32.runs_as_map[OF inv, of ops debug] ht that by auto
  moreover have "fst (run_table (\<lambda>k t. opal_hash_table_get_value_uint64 debug t k) (\<lambda>k v t. opal_hash_table_set_value_uint64 heap debug t k v)
      (\<lambda>k t. opal_hash_table_remove_value_uint64 debug t k) ops ht) = fst (run_map ops Map.empty)" if "length ops \<le> 2 ^ 50" for ops
    using ht64.runs_as_map[OF inv, of ops debug] ht that by auto
  moreover have "fst (run_table (\<lambda>k t. opal_hash_table_get_value_ptr debug t k) (\<lambda>k v t. opal_hash_table_set_value_ptr heap debug t k v)
      (\<lambda>k t. opal_hash_table_remove_value_ptr debug t k) ops ht) = fst (run_map ops Map.empty)" if "length ops \<le> 2 ^ 50" for ops
    using htptr.runs_as_map[OF inv, of ops debug] ht that by auto
  ultimately show ?thesis using ht(1) by blast
qed

theorem hash_table_refines_witness:
  "\<exists>ht. opal_hash_table_init (\<lambda>_. True) opal_hash_table_construct 4 = (None, ht) \<and>
     fst (run_table (\<lambda>k t. opal_hash_table_get_value_uint32 True t k) (\<lambda>k v t. opal_hash_table_set_value_uint32 (\<lambda>_. True) True t k v)
            (\<lambda>k t. opal_hash_table_remove_value_uint32 True t k) [Put 1 ''a'', Put 32 ''b'', Del 1, Get 32, Get 1] ht) =
       [Done None, Done None, Done None, Got (Inr ''b''), Got (Inl OPAL_ERR_NOT_FOUND)]"
proof -
  let ?ops = "[Put 1 ''a'', Put (32 :: u32) ''b'', Del 1, Get 32, Get 1]"
  obtain ht where ht: "opal_hash_table_init (\<lambda>_. True) opal_hash_table_construct 4 = (None, ht)"
    "\<forall>ops. length ops \<le> 2 ^ 50 \<longrightarrow>
       fst (run_table (\<lambda>k t. opal_hash_table_get_value_uint32 True t k) (\<lambda>k v t. opal_hash_table_set_value_uint32 (\<lambda>_. True) True t k v)
              (\<lambda>k t. opal_hash_table_remove_value_uint32 True t k) ops ht) = fst (run_map ops (Map.empty :: u32 \<rightharpoonup> string))"
    using hash_table_refines[of "\<lambda>_. True" 4 True] by auto
  have "fst (run_map ?ops Map.empty) = [Done None, Done None, Done None, Got (Inr ''b''), Got (Inl OPAL_ERR_NOT_FOUND)]"
    by (simp add: map_get_def map_put_def map_del_def found_def)
  moreover have "length ?ops \<le> 2 ^ 50" by simp
  ultimately show ?thesis using ht(1) ht(2)[THEN spec, of ?ops] by simp
qed

text \<open>
  C23: A table that cannot grow fills up, and then looking up a missing key never returns.  If one slot is
  left and the growth that the next new key asks for fails for lack of memory, the error is returned although the
  value has been stored, and from then on the search for any key that is not in the table goes
  round forever.
\<close>

theorem hash_table_full_diverges:
  assumes "ht_ok ht" "ht_type_methods ht = None \<or> ht_type_methods ht = Some methods_uint32" "Suc (ht_size ht) = ht_capacity ht"
    "opal_hash_table_set_value_uint32 heap debug ht key v = (Some OPAL_ERR_OUT_OF_RESOURCE, ht')"
    "k \<noteq> key" "ht_map ht (K32 k) = None"
  shows "ht_map ht' (K32 key) = Some v \<and> fst (opal_hash_table_get_value_uint32 debug ht' k) = Inl C_DIVERGES"
proof -
  have s: "ht_map ht' = (ht_map ht)(K32 key \<mapsto> v)" "ht_capacity ht' = ht_capacity ht" "length (ht_table ht') = ht_capacity ht"
    "length (entries (ht_table ht')) = ht_capacity ht" "elts_ok (Some methods_uint32) (ht_table ht')" "ht_type_methods ht' = Some methods_uint32"
    using set_value_spec[of ht "K32 key" heap debug v] assms(1-4) by (auto simp: fits_def opal_hash_table_set_value_uint32_def)
  have "None \<notin> set (ht_table ht')"
    using s(3,4) length_filter_less[of None "ht_table ht'" "\<lambda>e. e \<noteq> None"] by (auto simp: entries_def map_filter_def)
  moreover have "ht_map ht' (K32 k) = None" using s(1) assms(5,6) by simp
  ultimately have no: "\<not> (other_kind (K32 k) (ht_table ht' ! i) \<or> stops (K32 k) (ht_table ht' ! i))" if "i < ht_capacity ht" for i
  proof -
    have "ht_table ht' ! i \<noteq> None" using that s(3) \<open>None \<notin> set (ht_table ht')\<close> by (metis nth_mem)
    then obtain k' w where e: "ht_table ht' ! i = Some (k', w)" by auto
    then have "(k', w) \<in> set (entries (ht_table ht'))" using that s(3) by (auto simp: entries_in)
    then have "Some methods_uint32 = Some (methods_of k')" "k' \<noteq> K32 k"
      using s(5) \<open>ht_map ht' (K32 k) = None\<close> by (force simp: elts_ok_def one_kind_def ht_map_def elts_map_None)+
    then show ?thesis by (simp add: e other_kind_def stops_def)
  qed
  have "0 < ht_capacity ht" using assms(3) by linarith
  moreover have "ht'\<lparr>ht_type_methods := Some methods_uint32\<rparr> = ht'" using s(6) by simp
  ultimately have "search (K32 k) (ht'\<lparr>ht_type_methods := Some methods_uint32\<rparr>) = Inl C_DIVERGES"
    using s(2,3) no by (simp add: search_def probe_def scan_never)
  then show ?thesis using s(1,2,6) \<open>0 < ht_capacity ht\<close>
    by (simp add: opal_hash_table_get_value_uint32_def get_value_def usable_def)
qed

theorem hash_table_full_diverges_witness:
  "\<exists>ht ht'. opal_hash_table_init (\<lambda>n. n \<le> 32) opal_hash_table_construct 0 = (None, ht) \<and>
     opal_hash_table_set_value_uint32 (\<lambda>n. n \<le> 32) False ht 1 ''a'' = (Some OPAL_ERR_OUT_OF_RESOURCE, ht') \<and>
     ht_map ht' (K32 1) = Some ''a'' \<and> fst (opal_hash_table_get_value_uint32 False ht' 2) = Inl C_DIVERGES"
proof -
  define ht :: "string opal_hash_table" where "ht = snd (opal_hash_table_init (\<lambda>n. n \<le> 32) opal_hash_table_construct 0)"
  have ht: "opal_hash_table_init (\<lambda>n. n \<le> 32) opal_hash_table_construct 0 = (None, ht)"
    by (simp add: ht_def opal_hash_table_init_def opal_hash_table_init2_def opal_hash_round_capacity_up_def calloc_elts_def sz_add_def sz_mul_def Let_def)
  have cap: "ht_capacity ht = 1" "ht_table ht = [None]" "ht_growth_trigger ht = 0" "ht_growth_numer ht = 2" "ht_growth_denom ht = 1"
    by (simp_all add: ht_def opal_hash_table_init_def opal_hash_table_init2_def opal_hash_round_capacity_up_def calloc_elts_def sz_add_def sz_mul_def Let_def)
  note ok = init_spec[OF ht]
  obtain ht' where ht': "opal_hash_table_set_value_uint32 (\<lambda>n. n \<le> 32) False ht 1 ''a'' = (Some OPAL_ERR_OUT_OF_RESOURCE, ht')"
    using cap ok(4) by (simp add: opal_hash_table_set_value_uint32_def set_value_def usable_def search_def probe_def other_kind_def stops_def
        opal_hash_grow_def opal_hash_round_capacity_up_def calloc_elts_def sz_add_def sz_mul_def Let_def)
  have "ht_map ht' (K32 1) = Some ''a'' \<and> fst (opal_hash_table_get_value_uint32 False ht' 2) = Inl C_DIVERGES"
    by (rule hash_table_full_diverges[OF ok(1) _ _ ht']) (simp_all add: ok cap)
  then show ?thesis using ht ht' by blast
qed

end
