(* ===== verification/Spec2Isabelle.thy ===== *)
theory Spec2Isabelle
  imports Scd_Launch Dss_Typing Hash_Map
begin

text \<open>
  \<^bold>\<open>The scheduler of ORCM, with the OPAL and ORTE code below it.\<close>

  \<^bold>\<open>The program.\<close>  ORCM manages a cluster.  Its scheduler daemon receives requests for sessions,
  queues them, chooses nodes for the first in line, launches a step daemon on each of these nodes,
  and frees the nodes when all of them have reported completion.  It consists of two state machines
  that run on events, the scheduler proper and the resource manager below it, and of two functions that
  receive messages.  Messages are buffers of the data storage service (DSS), allocations carry lists of
  ORTE attributes, sets of nodes travel as compressed node expressions, and the nodes are kept
  in a pointer array.  All paths below are relative to \<^verbatim>\<open>src/\<close>.

  \<^bold>\<open>Foundations.\<close>
  \<^item> \<open>Orcm_Prelude\<close>: return codes as the type \<open>opal_err\<close>, results \<open>opal_err + 'a\<close>, C integers and
    \<^verbatim>\<open>size_t\<close> with their wrap-around.  Two further outcomes are values of \<open>opal_err\<close>: \<open>C_UNDEFINED\<close> is
    behaviour the C standard leaves undefined, such as a null dereference, and \<open>C_DIVERGES\<close> is a loop
    that does not end.  A theorem that an operation returns \<open>Inr\<close> excludes both.
  \<^item> \<open>C_String\<close>: what the sources use of the C library on strings, such as \<^verbatim>\<open>strtol\<close>.
  \<^item> \<open>Pointer_Array\<close>: \<^verbatim>\<open>opal/class/opal_pointer_array.c\<close>.  The bookkeeping invariant \<open>pa_inv\<close> is kept by
    every operation, the last store to an index wins, adding takes the lowest free index, and the
    indices at which storing is undefined are characterised.
  \<^item> \<open>Hash_Table\<close> and \<open>Hash_Map\<close>: \<^verbatim>\<open>opal/class/opal_hash_table.c\<close>, open addressing with linear probing,
    growth, and removal that moves the followers of a gap back.  The table refines a finite map for each
    kind of integer and pointer key (locale \<open>keyed_table\<close>, interpreted three times); a table that is full because it could not
    grow has searches that never end.
  \<^item> \<open>Argv\<close>: \<^verbatim>\<open>opal/util/argv.c\<close>.  Splitting undoes joining, and the loops that move pointers insert and
    delete as on lists.

  \<^bold>\<open>Messages.\<close>
  \<^item> \<open>Dss_Types\<close>, \<open>Dss_Buffer\<close> and \<open>Dss\<close>: \<^verbatim>\<open>opal/dss\<close>, with the buffers and their growth, the pack and
    unpack function of each modelled type, the table of types, and the generic entry points with and
    without type descriptions.  What is packed is unpacked, in order and with nothing left over (locale
    \<open>dss_codec\<close>); mismatched types and exhausted buffers give their errors.
  \<^item> \<open>Dss_Typing\<close>: unpacking arbitrary bytes yields values of the requested type only.
  \<^item> \<open>Attr\<close>: \<^verbatim>\<open>orte/util/attr.c\<close> and the wire format of attributes from
    \<^verbatim>\<open>orte/runtime/data_type_support\<close>.
  \<^item> \<open>Scd_Dt\<close> and \<open>Cfgi_Dt\<close>: the wire formats of allocations (\<^verbatim>\<open>orcm/mca/scd/base/scd_dt_fns.c\<close>) and of the
    configured cluster (\<^verbatim>\<open>orcm/mca/cfgi/base/cfgi_dt_fns.c\<close>), as round trips level by level (locales
    \<open>wire_type\<close>, \<open>scalar_table\<close>, \<open>level_table\<close>), and the comparison of nodes.
  \<^item> \<open>Name_Fns\<close>: comparison of process names, \<^verbatim>\<open>orte/util/name_fns.c\<close>.
  \<^item> \<open>Regex\<close>: \<^verbatim>\<open>orte/util/regex.c\<close>.  Compressing and expanding node names is a round trip for names of
    letters followed by digits (locale \<open>node_expressions\<close>), and what happens to other names is shown.

  \<^bold>\<open>The scheduler.\<close>
  \<^item> \<open>Scd_Base\<close>: the record \<open>orcm_scd_base\<close> for the global of that name, the tables of states and the activation of
    events (\<^verbatim>\<open>scd_base_fns.c\<close>, \<^verbatim>\<open>scd_base_rm_fns.c\<close>, \<^verbatim>\<open>scd_base_frame.c\<close> in \<^verbatim>\<open>orcm/mca/scd/base\<close>).
    Sessions are objects in a store and are passed by reference, because queues and events share them.
  \<^item> \<open>Scd_State\<close>: access to nodes, sessions and queues.
  \<^item> \<open>Scd_Rm\<close> and \<open>Scd_Fifo\<close>: the handlers of the two state machines, one definition per handler
    (\<^verbatim>\<open>scd_base_rm.c\<close>, and \<^verbatim>\<open>orcm/mca/scd/fifo/scd_fifo.c\<close>).
  \<^item> \<open>Scd_Rm_Recv\<close> and \<open>Scd_Recv\<close>: the receive functions with all their commands.
  \<^item> \<open>Scheduler\<close>: the start of the daemon (\<^verbatim>\<open>orcm/mca/sst/orcmsched/sst_orcmsched.c\<close>), and the relation
    \<open>scd_step\<close>, in which a step is the next event of either queue of events or the arrival of any
    message from anyone.

  \<^bold>\<open>What is shown of the scheduler.\<close>
  \<^item> \<open>Scd_Inv\<close> and \<open>Scheduler\<close>: every reachable state is in order; in particular no session is in two
    places (locale \<open>session_handler\<close>, interpreted for all callbacks).
  \<^item> \<open>Scd_Work\<close>: queueing and scheduling refine one line served in order of arrival (locale
    \<open>op_refinement\<close>); requests choose the first free nodes; allocation marks exactly these, and termination releases them.
  \<^item> \<open>Scd_Run\<close>: a session that fits gets to run; two passes in a row may give away the same nodes twice.
  \<^item> \<open>Scd_Outcome\<close>: the error paths of the resource manager and the scheduler.
  \<^item> \<open>Scd_Wire\<close> and \<open>Scd_Launch\<close>: the commands sent to step daemons read back as they were meant, and
    completions are counted up to the number of nodes.

  \<^bold>\<open>Parameters.\<close>  The record \<open>dss_env\<close> holds the success of memory allocation, the configured buffer
  sizes and the conversion between floating point numbers and text; \<open>scd_env\<close> holds the messaging layer
  (\<^verbatim>\<open>orte_rml.send_buffer_nb\<close>), the hwloc topology functions, the power management component, the configured
  clusters, and the contents of variables that the code reads uninitialised.  Theorems that depend on them say so in
  their hypotheses.

  \<^bold>\<open>Bounds.\<close>  Sizes are taken modulo \<open>2 ^ 64\<close>, \<^verbatim>\<open>int\<close> has 32 bits.  The probing loops of the hash
  table count down from the number of slots.  A probe visits the slots in turn, so one that has visited
  all of them without stopping never stops, and running out of the counter is \<open>C_DIVERGES\<close>; the same holds for closing
  a gap.  The theorem on the hash table is for at most \<open>2 ^ 50\<close> operations and initial slots, so that
  the computations of capacities do not wrap.  Every other loop is recursion with a
  termination proof.  Where a loop of the source can fail to end, in the growth of buffers and in ranges of
  letters, its condition for that is a branch of the definition with the value \<open>C_DIVERGES\<close>.

  \<^bold>\<open>Not modelled.\<close>
  \<^item> Of the modelled files: functions that print, the DSS types for statistics, values and nested buffers, the
    DSS copy and compare functions, the table of processes at the end of the hash table, conversions of
    process names to text, and the other ORTE types of the attribute files.
  \<^item> Of the start of the daemon: signals, the opening of the other frameworks, the reading of the
    configuration, and finalisation.
  \<^item> Locks and reference counts: each operation is one step, as the event loop runs it, and objects are not freed.
  \<^item> Sensors, databases, diagnostics, provisioning and power management drive devices, files and
    services; the messaging layers are sockets and threads.
  \<^item> Analytics, the command line tools, the OPAL datatype engine, the remaining OPAL classes and utilities, and the
    launch system inherited from Open MPI have computations of their own that this development does not
    reach.  Of these the scheduler calls only logging and the object system, which do not change its state.
  \<^item> Bundled libraries (libevent, hwloc, libfabric) are third-party code.
\<close>

end
